(* ===== verification/Prelude.thy ===== *)
theory Prelude
  imports Main "HOL-Library.AList" "HOL-Library.Product_Lexorder" "HOL-Library.Sublist"
begin

text \<open>
  The shared vocabulary of the development: the Python values and strings the modelled modules
  handle, dictionaries that keep insertion order, exceptions as values, computations that mutate
  an object and may raise after a partial mutation, and the generic lemmas the component theories
  use. Nothing here models a file of the repository; it models what those files use of Python.
\<close>

named_theorems eff_simps \<open>unfolding rules for effectful computations\<close>
named_theorems py_simps \<open>evaluation rules for Python strings and values\<close>

section \<open>Python values\<close>

text \<open>
  JSON-shaped values (\<open>dict[str, Any]\<close> payloads). Strings are sequences of code points below
  256. Floats are not represented: no modelled operation computes with a float taken from a payload.
\<close>

datatype pyval =
    VNone
  | VBool bool
  | VInt int
  | VStr string
  | VList "pyval list"
  | VDict "(string \<times> pyval) list"

type_synonym pydict = "(string \<times> pyval) list"

type_synonym datetime = int \<comment> \<open>an aware datetime: microseconds since the epoch, in UTC\<close>

definition seconds :: "int \<Rightarrow> int" where
  "seconds n = n * 1000000"

definition minutes :: "int \<Rightarrow> int" where
  "minutes n = n * 60000000"

fun truthy :: "pyval \<Rightarrow> bool" where
  "truthy VNone = False"
| "truthy (VBool b) = b"
| "truthy (VInt i) = (i \<noteq> 0)"
| "truthy (VStr s) = (s \<noteq> [])"
| "truthy (VList xs) = (xs \<noteq> [])"
| "truthy (VDict kvs) = (kvs \<noteq> [])"

text \<open>\<open>a or b\<close> on values that may be \<open>None\<close>; ids and strings have their own falsy value.\<close>

definition or_id :: "int option \<Rightarrow> int \<Rightarrow> int" where
  "or_id x d = (case x of None \<Rightarrow> d | Some i \<Rightarrow> if i = 0 then d else i)"

definition or_str :: "string option \<Rightarrow> string \<Rightarrow> string" where
  "or_str x d = (case x of None \<Rightarrow> d | Some s \<Rightarrow> if s = [] then d else s)"

definition or_else :: "'a option \<Rightarrow> 'a \<Rightarrow> 'a" where
  "or_else x d = (case x of None \<Rightarrow> d | Some v \<Rightarrow> v)"

lemma or_else_simps [simp]: "or_else None d = d" "or_else (Some v) d = v"
  by (simp_all add: or_else_def)

lemma or_str_simps [simp]:
  "or_str None d = d" "or_str (Some []) d = d" "s \<noteq> [] \<Longrightarrow> or_str (Some s) d = s"
  by (simp_all add: or_str_def)

lemma or_id_simps [simp]:
  "or_id None d = d" "or_id (Some 0) d = d" "i \<noteq> 0 \<Longrightarrow> or_id (Some i) d = i"
  by (simp_all add: or_id_def)

section \<open>Decimal numerals: str(int) and int(str)\<close>

definition digit_char :: "nat \<Rightarrow> char" where
  "digit_char d = char_of (48 + d)"

fun dec_nat :: "nat \<Rightarrow> string" where
  "dec_nat n = (if n < 10 then [digit_char n] else dec_nat (n div 10) @ [digit_char (n mod 10)])"

declare dec_nat.simps [simp del]

definition dec_int :: "int \<Rightarrow> string" where
  "dec_int i = (if i < 0 then CHR ''-'' # dec_nat (nat (- i)) else dec_nat (nat i))"

definition is_digit :: "char \<Rightarrow> bool" where
  "is_digit c \<longleftrightarrow> 48 \<le> (of_char c :: nat) \<and> (of_char c :: nat) \<le> 57"

definition digit_val :: "char \<Rightarrow> nat" where
  "digit_val c = of_char c - 48"

fun undec :: "nat \<Rightarrow> string \<Rightarrow> nat" where
  "undec acc [] = acc"
| "undec acc (c # cs) = undec (acc * 10 + digit_val c) cs"

text \<open>Digits with single underscores between them, as \<open>int()\<close> accepts.\<close>

fun digits_ok :: "string \<Rightarrow> bool" where
  "digits_ok [] = False"
| "digits_ok [c] = is_digit c"
| "digits_ok (c # d # cs) =
     (is_digit c \<and> (if d = CHR ''_'' then digits_ok cs else digits_ok (d # cs)))"

definition is_space :: "char \<Rightarrow> bool" where
  "is_space c \<longleftrightarrow> (let n = (of_char c :: nat) in
     (9 \<le> n \<and> n \<le> 13) \<or> (28 \<le> n \<and> n \<le> 32) \<or> n = 133 \<or> n = 160)"

definition strip :: "string \<Rightarrow> string" where
  "strip s = rev (dropWhile is_space (rev (dropWhile is_space s)))"

definition parse_nat :: "string \<Rightarrow> nat option" where
  "parse_nat s = (if digits_ok s then Some (undec 0 (filter (\<lambda>c. c \<noteq> CHR ''_'') s)) else None)"

text \<open>\<open>int(text)\<close>: \<open>None\<close> is the \<open>ValueError\<close>.\<close>

definition parse_int :: "string \<Rightarrow> int option" where
  "parse_int s = (case strip s of
       [] \<Rightarrow> None
     | c # cs \<Rightarrow> if c = CHR ''-'' then map_option (\<lambda>n. - int n) (parse_nat cs)
                else if c = CHR ''+'' then map_option int (parse_nat cs)
                else map_option int (parse_nat (c # cs)))"

lemma of_char_digit: "d < 10 \<Longrightarrow> (of_char (digit_char d) :: nat) = 48 + d"
  by (simp add: digit_char_def)

lemma is_digit_digit_char [simp]: "d < 10 \<Longrightarrow> is_digit (digit_char d)"
  by (simp add: is_digit_def of_char_digit)

lemma digit_val_digit_char [simp]: "d < 10 \<Longrightarrow> digit_val (digit_char d) = d"
  by (simp add: digit_val_def of_char_digit)

lemma is_digit_not_underscore: "is_digit c \<Longrightarrow> c \<noteq> CHR ''_''"
  by (auto simp: is_digit_def)

lemma is_digit_not_sign: "is_digit c \<Longrightarrow> c \<noteq> CHR ''-'' \<and> c \<noteq> CHR ''+'' \<and> c \<noteq> CHR '':''"
  by (auto simp: is_digit_def)

lemma is_digit_not_space: "is_digit c \<Longrightarrow> \<not> is_space c"
  by (auto simp: is_digit_def is_space_def Let_def)

lemma dec_nat_digits: "\<forall>c \<in> set (dec_nat n). is_digit c"
proof (induction n rule: dec_nat.induct)
  case (1 n)
  then show ?case by (subst dec_nat.simps) (auto split: if_splits)
qed

lemma dec_nat_nonempty [simp]: "dec_nat n \<noteq> []"
  by (subst dec_nat.simps) simp

lemma undec_snoc: "undec acc (cs @ [c]) = undec acc cs * 10 + digit_val c"
  by (induction cs arbitrary: acc) auto

lemma undec_dec_nat [simp]: "undec 0 (dec_nat n) = n"
proof (induction n rule: dec_nat.induct)
  case (1 n)
  then show ?case by (subst dec_nat.simps) (auto simp: undec_snoc)
qed

lemma digits_ok_all: "cs \<noteq> [] \<Longrightarrow> \<forall>c \<in> set cs. is_digit c \<Longrightarrow> digits_ok cs"
  by (induction cs rule: digits_ok.induct) (auto dest: is_digit_not_underscore)

lemma parse_nat_dec_nat [simp]: "parse_nat (dec_nat n) = Some n"
proof -
  have "digits_ok (dec_nat n)" by (rule digits_ok_all) (use dec_nat_digits in auto)
  moreover have "filter (\<lambda>c. c \<noteq> CHR ''_'') (dec_nat n) = dec_nat n"
    using dec_nat_digits is_digit_not_underscore by (auto intro: filter_True)
  ultimately show ?thesis by (simp add: parse_nat_def)
qed

lemma strip_id: "s \<noteq> [] \<Longrightarrow> \<not> is_space (hd s) \<Longrightarrow> \<not> is_space (last s) \<Longrightarrow> strip s = s"
proof -
  assume s: "s \<noteq> []" "\<not> is_space (hd s)" "\<not> is_space (last s)"
  have "dropWhile is_space s = s" using s by (simp add: dropWhile_eq_self_iff)
  moreover have "dropWhile is_space (rev s) = rev s"
    using s by (simp add: dropWhile_eq_self_iff hd_rev)
  ultimately show ?thesis by (simp add: strip_def)
qed

lemma strip_dec_int [simp]: "strip (dec_int i) = dec_int i"
proof -
  have d: "is_digit (hd (dec_nat n)) \<and> is_digit (last (dec_nat n))" for n
    using dec_nat_digits [of n] by auto
  have m: "\<not> is_space (CHR ''-'')" by (simp add: is_space_def)
  show ?thesis
    by (rule strip_id) (use d m in \<open>auto simp: dec_int_def is_digit_not_space\<close>)
qed

text \<open>Printing an integer and reading it back gives the integer.\<close>

lemma parse_int_dec_int [simp]: "parse_int (dec_int i) = Some i"
proof (cases "i < 0")
  case True
  then have "strip (CHR ''-'' # dec_nat (nat (- i))) = CHR ''-'' # dec_nat (nat (- i))"
    using strip_dec_int [of i] by (simp add: dec_int_def)
  with True show ?thesis by (simp add: parse_int_def dec_int_def)
next
  case False
  obtain c cs where c: "dec_nat (nat i) = c # cs" by (cases "dec_nat (nat i)") auto
  then have "is_digit c" using dec_nat_digits [of "nat i"] by auto
  then have "c \<noteq> CHR ''-''" "c \<noteq> CHR ''+''" using is_digit_not_sign by auto
  moreover have "strip (dec_nat (nat i)) = c # cs"
    using strip_dec_int [of i] False c by (simp add: dec_int_def)
  ultimately show ?thesis
    using False c parse_nat_dec_nat [of "nat i"] by (simp add: parse_int_def dec_int_def)
qed

lemma dec_int_inj: "dec_int i = dec_int j \<Longrightarrow> i = j"
  by (metis option.inject parse_int_dec_int)

lemma dec_int_no_colon: "CHR '':'' \<notin> set (dec_int i)"
  using dec_nat_digits is_digit_not_sign by (auto simp: dec_int_def)

text \<open>A separator that does not occur in the first components makes a joined key injective.\<close>

lemma split_at_sep:
  "a @ c # b = a' @ c # b' \<Longrightarrow> c \<notin> set a \<Longrightarrow> c \<notin> set a' \<Longrightarrow> a = a' \<and> b = b'"
proof (induction a arbitrary: a')
  case Nil
  then show ?case by (cases a') auto
next
  case (Cons x xs)
  then show ?case by (cases a') auto
qed

text \<open>\<open>s.startswith(p)\<close> and \<open>s.endswith(p)\<close>\<close>

definition startswith :: "string \<Rightarrow> string \<Rightarrow> bool" where
  "startswith s p \<longleftrightarrow> take (length p) s = p"

definition endswith :: "string \<Rightarrow> string \<Rightarrow> bool" where
  "endswith s p \<longleftrightarrow> startswith (rev s) (rev p)"

lemma startswith_append [simp]: "startswith (p @ s) p"
  by (simp add: startswith_def)

section \<open>Dictionaries in insertion order\<close>

text \<open>
  A \<open>dict\<close> is an association list with distinct keys: storing under a present key keeps the
  position, storing under a new key appends, as Python does.
\<close>

abbreviation dget :: "('k \<times> 'v) list \<Rightarrow> 'k \<Rightarrow> 'v option" where
  "dget d k \<equiv> map_of d k"

abbreviation dset :: "('k \<times> 'v) list \<Rightarrow> 'k \<Rightarrow> 'v \<Rightarrow> ('k \<times> 'v) list" where
  "dset d k v \<equiv> AList.update k v d"

abbreviation ddel :: "('k \<times> 'v) list \<Rightarrow> 'k \<Rightarrow> ('k \<times> 'v) list" where
  "ddel d k \<equiv> AList.delete k d"

abbreviation dkeys :: "('k \<times> 'v) list \<Rightarrow> 'k list" where
  "dkeys d \<equiv> map fst d"

abbreviation dvals :: "('k \<times> 'v) list \<Rightarrow> 'v list" where
  "dvals d \<equiv> map snd d"

text \<open>\<open>{**a, **b}\<close> and \<open>a.update(b)\<close>: every entry of \<open>b\<close> is stored into \<open>a\<close>, in order.\<close>

definition dmerge :: "('k \<times> 'v) list \<Rightarrow> ('k \<times> 'v) list \<Rightarrow> ('k \<times> 'v) list" where
  "dmerge a b = fold (\<lambda>(k, v) d. dset d k v) b a"

declare map_of_eq_Some_iff [simp del] \<comment> \<open>look-ups stay look-ups\<close>

lemma dget_dset [simp]: "dget (dset d k v) j = (if j = k then Some v else dget d j)"
  by (simp add: AList.update_conv')

lemma dget_ddel [simp]: "dget (ddel d k) j = (if j = k then None else dget d j)"
  by (simp add: AList.delete_conv')

lemma distinct_dset [simp]: "distinct (dkeys d) \<Longrightarrow> distinct (dkeys (dset d k v))"
  by (rule AList.distinct_update)

lemma distinct_ddel [simp]: "distinct (dkeys d) \<Longrightarrow> distinct (dkeys (ddel d k))"
  by (rule AList.distinct_delete)

lemma dkeys_dset: "dkeys (dset d k v) = (if k \<in> set (dkeys d) then dkeys d else dkeys d @ [k])"
  by (rule AList.update_keys)

lemma set_dkeys_dset [simp]: "set (dkeys (dset d k v)) = insert k (set (dkeys d))"
  by (auto simp: AList.update_keys)

lemma fst_set_dset [simp]: "fst ` set (dset d k v) = insert k (fst ` set d)"
  by (simp add: AList.dom_update)

lemma dget_Some_in: "dget d k = Some v \<Longrightarrow> (k, v) \<in> set d"
  by (rule map_of_SomeD)

lemma dget_in_dvals: "dget d k = Some v \<Longrightarrow> v \<in> set (dvals d)"
  by (force dest: map_of_SomeD)

lemma dget_of_mem: "distinct (dkeys d) \<Longrightarrow> (k, v) \<in> set d \<Longrightarrow> dget d k = Some v"
  by (rule map_of_is_SomeI)

lemma in_dset_iff:
  "distinct (dkeys d) \<Longrightarrow> (j, u) \<in> set (dset d k v) \<longleftrightarrow>
     (if j = k then u = v else (j, u) \<in> set d)"
  by (induction d) force+

lemma dset_new: "k \<notin> set (dkeys d) \<Longrightarrow> dset d k v = d @ [(k, v)]"
  by (induction d) auto

lemma map_dvals_dset:
  "distinct (dkeys d) \<Longrightarrow> dget d k = Some v0 \<Longrightarrow> f v = f v0 \<Longrightarrow>
     map (\<lambda>(j, u). (j, f u)) (dset d k v) = map (\<lambda>(j, u). (j, f u)) d"
  by (induction d) (auto split: if_splits)

lemma map_filter_dset:
  "distinct (dkeys d) \<Longrightarrow> dget d k = Some v0 \<Longrightarrow> P v = P v0 \<Longrightarrow> f v = f v0 \<Longrightarrow>
     map f (filter P (dvals (dset d k v))) = map f (filter P (dvals d))"
  by (induction d) (auto split: if_splits)

lemma dget_dmerge:
  "dget (dmerge a b) k = (case dget (rev b) k of None \<Rightarrow> dget a k | Some v \<Rightarrow> Some v)"
proof (induction b arbitrary: a)
  case Nil
  then show ?case by (simp add: dmerge_def)
next
  case (Cons kv b)
  obtain j v where kv: "kv = (j, v)" by (cases kv)
  have "dmerge a (kv # b) = dmerge (dset a j v) b" by (simp add: dmerge_def kv)
  then show ?case
    using Cons [of "dset a j v"] kv by (auto simp: map_add_def split: option.splits)
qed

lemma dmerge_simps [simp]:
  "dmerge a [] = a" "dmerge a ((k, v) # b) = dmerge (dset a k v) b"
  by (simp_all add: dmerge_def)

lemma distinct_dmerge [simp]: "distinct (dkeys a) \<Longrightarrow> distinct (dkeys (dmerge a b))"
  by (induction b arbitrary: a) (auto simp del: set_map)

lemma dget_filter_key: "dget (filter (\<lambda>(k, _). P k) d) k = (if P k then dget d k else None)"
  by (induction d) auto

lemma dget_rev: "distinct (dkeys d) \<Longrightarrow> dget (rev d) k = dget d k"
  by (metis distinct_rev map_of_eqI map_of_is_SomeI map_of_SomeD not_None_eq rev_map set_rev)

lemma distinct_filter_key: "distinct (dkeys d) \<Longrightarrow> distinct (dkeys (filter P d))"
  by (rule distinct_map_filter)

lemma dget_dmerge_distinct:
  "distinct (dkeys b) \<Longrightarrow> dget (dmerge a b) k = (case dget b k of None \<Rightarrow> dget a k | Some v \<Rightarrow> Some v)"
  by (simp add: dget_dmerge dget_rev)

text \<open>A predicate that holds for every entry of a dictionary.\<close>

definition all_entries :: "('k \<Rightarrow> 'v \<Rightarrow> bool) \<Rightarrow> ('k \<times> 'v) list \<Rightarrow> bool" where
  "all_entries P d \<longleftrightarrow> (\<forall>k v. dget d k = Some v \<longrightarrow> P k v)"

lemma all_entriesI: "(\<And>k v. dget d k = Some v \<Longrightarrow> P k v) \<Longrightarrow> all_entries P d"
  by (simp add: all_entries_def)

lemma all_entriesD: "all_entries P d \<Longrightarrow> dget d k = Some v \<Longrightarrow> P k v"
  by (simp add: all_entries_def)

lemma all_entries_Nil [simp]: "all_entries P []"
  by (simp add: all_entries_def)

lemma all_entries_dset [intro]: "all_entries P d \<Longrightarrow> P k v \<Longrightarrow> all_entries P (dset d k v)"
  by (auto simp: all_entries_def)

lemma all_entries_ddel [intro]: "all_entries P d \<Longrightarrow> all_entries P (ddel d k)"
  by (auto simp: all_entries_def)

lemma all_entries_mono: "all_entries P d \<Longrightarrow> (\<And>k v. P k v \<Longrightarrow> Q k v) \<Longrightarrow> all_entries Q d"
  by (auto simp: all_entries_def)

section \<open>Printing values\<close>

text \<open>
  \<open>str(item)\<close> on a value: a string prints as itself, everything else as its
  \<open>repr\<close>, with strings inside a list or a dictionary quoted and escaped.
\<close>

definition hex_digit :: "nat \<Rightarrow> char" where
  "hex_digit d = (if d < 10 then char_of (48 + d) else char_of (87 + d))"

definition repr_char :: "char \<Rightarrow> char \<Rightarrow> string" where
  "repr_char quote c = (let n = (of_char c :: nat) in
     if c = quote \<or> n = 92 then [char_of (92 :: nat), c]
     else if n = 9 then [char_of (92 :: nat), CHR ''t'']
     else if n = 10 then [char_of (92 :: nat), CHR ''n'']
     else if n = 13 then [char_of (92 :: nat), CHR ''r'']
     else if n < 32 \<or> (127 \<le> n \<and> n \<le> 160) \<or> n = 173
       then [char_of (92 :: nat), CHR ''x'', hex_digit (n div 16), hex_digit (n mod 16)]
     else [c])"

definition repr_str :: "string \<Rightarrow> string" where
  "repr_str s =
     (let single = char_of (39 :: nat); double = char_of (34 :: nat);
          quote = (if single \<in> set s \<and> double \<notin> set s then double else single)
      in [quote] @ concat (map (repr_char quote) s) @ [quote])"

fun join_with :: "string \<Rightarrow> string list \<Rightarrow> string" where
  "join_with sep [] = []"
| "join_with sep [s] = s"
| "join_with sep (s # t # ss) = s @ sep @ join_with sep (t # ss)"

fun repr_val :: "pyval \<Rightarrow> string" where
  "repr_val VNone = ''None''"
| "repr_val (VBool b) = (if b then ''True'' else ''False'')"
| "repr_val (VInt i) = dec_int i"
| "repr_val (VStr s) = repr_str s"
| "repr_val (VList vs) = ''['' @ join_with '', '' (map repr_val vs) @ '']''"
| "repr_val (VDict kvs) =
     ''{'' @ join_with '', '' (map (\<lambda>(k, v). repr_str k @ '': '' @ repr_val v) kvs) @ ''}''"

fun str_item :: "pyval \<Rightarrow> string" where
  "str_item (VStr s) = s"
| "str_item v = repr_val v"

section \<open>Exceptions and computations on an object\<close>

text \<open>
  The exceptions the modelled modules raise, with the arguments a handler or a caller reads.
\<close>

datatype exn =
    KeyError
  | ValueError string
  | TypeError
  | AttributeError
  | RuntimeError string
  | PermissionError string
  | TimeoutError
  | InvalidStateTransitionError string string string
  | TaskLeaseError int
  | StaleFencingTokenError int
  | QuotaExceededError string int int
  | IdempotencyConflictError string
  | IntegrityError
  | ReplayExpiredError int
  | StreamBackpressureError string
  | CapabilityNotSupportedError string
  | DeploymentNotFoundError int
  | PolicyDeniedError string string
  | ConsoleIdentityUnavailableError string
  | APIKeyError string
  | APIKeyDisabledError string
  | APIKeyScopeError string
  | UserError string string

text \<open>
  A computation on an object of type \<open>'s\<close>: the result or the exception, together with the object
  as it is left. An exception raised half way leaves the assignments made before it in place.
\<close>

type_synonym ('s, 'a) eff = "'s \<Rightarrow> (exn + 'a) \<times> 's"

definition ret :: "'a \<Rightarrow> ('s, 'a) eff" where
  [eff_simps]: "ret x = (\<lambda>s. (Inr x, s))"

definition raise :: "exn \<Rightarrow> ('s, 'a) eff" where
  [eff_simps]: "raise e = (\<lambda>s. (Inl e, s))"

definition bnd :: "('s, 'a) eff \<Rightarrow> ('a \<Rightarrow> ('s, 'b) eff) \<Rightarrow> ('s, 'b) eff" where
  [eff_simps]: "bnd m f = (\<lambda>s. case m s of (Inl e, s') \<Rightarrow> (Inl e, s') | (Inr x, s') \<Rightarrow> f x s')"

definition seq :: "('s, 'a) eff \<Rightarrow> ('s, 'b) eff \<Rightarrow> ('s, 'b) eff" where
  [eff_simps]: "seq m n = bnd m (\<lambda>_. n)"

definition upd :: "('s \<Rightarrow> 's) \<Rightarrow> ('s, unit) eff" where
  [eff_simps]: "upd f = (\<lambda>s. (Inr (), f s))"

definition gets :: "('s \<Rightarrow> 'a) \<Rightarrow> ('s, 'a) eff" where
  [eff_simps]: "gets f = (\<lambda>s. (Inr (f s), s))"

definition when_st :: "('s \<Rightarrow> bool) \<Rightarrow> ('s, unit) eff \<Rightarrow> ('s, unit) eff" where
  [eff_simps]: "when_st c m = (\<lambda>s. if c s then m s else (Inr (), s))"

definition guard :: "('s \<Rightarrow> bool) \<Rightarrow> exn \<Rightarrow> ('s, unit) eff" where
  [eff_simps]: "guard c e = (\<lambda>s. if c s then (Inr (), s) else (Inl e, s))"

text \<open>\<open>try: m except: h\<close>, where \<open>h\<close> sees the exception and the object as \<open>m\<close> left it.\<close>

definition catch :: "('s, 'a) eff \<Rightarrow> (exn \<Rightarrow> ('s, 'a) eff) \<Rightarrow> ('s, 'a) eff" where
  [eff_simps]: "catch m h = (\<lambda>s. case m s of (Inl e, s') \<Rightarrow> h e s' | (Inr x, s') \<Rightarrow> (Inr x, s'))"

text \<open>Running a computation on the entry of a dictionary inside a larger object; a missing key raises.\<close>

definition on_entry ::
  "('s \<Rightarrow> ('k \<times> 'v) list) \<Rightarrow> (('k \<times> 'v) list \<Rightarrow> 's \<Rightarrow> 's) \<Rightarrow> 'k \<Rightarrow> ('v, 'a) eff \<Rightarrow> ('s, 'a) eff" where
  [eff_simps]: "on_entry sel put k m = (\<lambda>s. case dget (sel s) k of
       None \<Rightarrow> (Inl KeyError, s)
     | Some v \<Rightarrow> (case m v of (r, v') \<Rightarrow> (r, put (dset (sel s) k v') s)))"

text \<open>
  \<open>for v in d.values(): m(v)\<close>: the entries in order, stopping at the first exception with the
  entries visited so far changed.
\<close>

fun for_entries :: "('v, unit) eff \<Rightarrow> (('k \<times> 'v) list, unit) eff" where
  "for_entries m [] = (Inr (), [])"
| "for_entries m ((k, v) # d) = (case m v of
       (Inl e, v') \<Rightarrow> (Inl e, (k, v') # d)
     | (Inr _, v') \<Rightarrow> (case for_entries m d of (r, d') \<Rightarrow> (r, (k, v') # d')))"

lemma for_entries_total:
  "(\<And>v. v \<in> set (dvals d) \<Longrightarrow> m v = (Inr (), f v)) \<Longrightarrow>
     for_entries m d = (Inr (), map (\<lambda>(k, v). (k, f v)) d)"
  by (induction d) auto

lemma dget_map_vals: "dget (map (\<lambda>(k, v). (k, f v)) d) k = map_option f (dget d k)"
  by (induction d) auto

lemma dkeys_map_vals [simp]: "map (fst \<circ> (\<lambda>(k, v). (k, f v))) d = dkeys d"
  by (induction d) auto

lemma dvals_map_vals [simp]: "map (snd \<circ> (\<lambda>(k, v). (k, f v))) d = map f (dvals d)"
  by (induction d) auto

text \<open>\<open>for x in xs: f(x)\<close>\<close>

primrec each :: "('x \<Rightarrow> ('s, unit) eff) \<Rightarrow> 'x list \<Rightarrow> ('s, unit) eff" where
  "each f [] = ret ()"
| "each f (x # xs) = seq (f x) (each f xs)"

definition ok :: "(exn + 'a) \<times> 's \<Rightarrow> bool" where
  "ok r = (case fst r of Inl _ \<Rightarrow> False | Inr _ \<Rightarrow> True)"

lemma ok_simps [simp]: "ok (Inr x, s)" "\<not> ok (Inl e, s)"
  by (simp_all add: ok_def)

lemma bnd_ret [simp]: "bnd (ret x) f = f x"
  by (simp add: eff_simps)

lemma bnd_assoc: "bnd (bnd m f) g = bnd m (\<lambda>x. bnd (f x) g)"
  by (auto simp: eff_simps split: prod.splits sum.splits)

lemma catch_raise [simp]: "catch (raise e) h = h e"
  by (simp add: eff_simps)

text \<open>Invariants compose over sequencing.\<close>

definition keeps :: "('s \<Rightarrow> bool) \<Rightarrow> ('s, 'a) eff \<Rightarrow> bool" where
  "keeps P m \<longleftrightarrow> (\<forall>s. P s \<longrightarrow> P (snd (m s)))"

lemma keepsI: "(\<And>s r s'. P s \<Longrightarrow> m s = (r, s') \<Longrightarrow> P s') \<Longrightarrow> keeps P m"
  by (metis keeps_def prod.collapse)

lemma keepsD: "keeps P m \<Longrightarrow> P s \<Longrightarrow> m s = (r, s') \<Longrightarrow> P s'"
  by (metis keeps_def snd_conv)

lemma keeps_bnd: "keeps P m \<Longrightarrow> (\<And>x. keeps P (f x)) \<Longrightarrow> keeps P (bnd m f)"
  by (auto simp: keeps_def bnd_def split: prod.splits sum.splits)

lemma keeps_basic:
  "keeps P (ret x)" "keeps P (raise e)" "keeps P (gets g)" "keeps P (guard c e)"
  by (simp_all add: keeps_def eff_simps)

lemma keeps_seq: "keeps P m \<Longrightarrow> keeps P n \<Longrightarrow> keeps P (seq m n)"
  by (simp add: seq_def keeps_bnd)

lemma keeps_when: "keeps P m \<Longrightarrow> keeps P (when_st c m)"
  by (simp add: keeps_def eff_simps)

lemma keeps_each: "(\<And>x. keeps P (f x)) \<Longrightarrow> keeps P (each f xs)"
  by (induction xs) (simp_all add: keeps_seq keeps_basic)

text \<open>A part of the object that a computation never changes.\<close>

definition preserves :: "('s \<Rightarrow> 'b) \<Rightarrow> ('s, 'a) eff \<Rightarrow> bool" where
  "preserves part m \<longleftrightarrow> (\<forall>s. part (snd (m s)) = part s)"

lemma preservesD: "preserves part m \<Longrightarrow> m s = (r, s') \<Longrightarrow> part s' = part s"
  by (metis preserves_def snd_conv)

lemma preserves_basic:
  "preserves part (ret x)" "preserves part (raise e)" "preserves part (gets g)"
  "preserves part (guard c e)"
  by (simp_all add: preserves_def eff_simps)

lemma preserves_bnd:
  "preserves part m \<Longrightarrow> (\<And>x. preserves part (f x)) \<Longrightarrow> preserves part (bnd m f)"
  by (auto simp: preserves_def bnd_def split: prod.splits sum.splits) (metis snd_conv)+

lemma preserves_seq: "preserves part m \<Longrightarrow> preserves part n \<Longrightarrow> preserves part (seq m n)"
  by (simp add: seq_def preserves_bnd)

lemma preserves_each: "(\<And>x. preserves part (f x)) \<Longrightarrow> preserves part (each f xs)"
  by (induction xs) (simp_all add: preserves_seq preserves_basic)

lemma bnd_InrE:
  assumes "bnd m f s = (Inr y, s'')"
  obtains x s' where "m s = (Inr x, s')" "f x s' = (Inr y, s'')"
  using assms by (auto simp: bnd_def split: prod.splits sum.splits)

lemma seq_InrE:
  assumes "seq m n s = (Inr y, s'')"
  obtains x s' where "m s = (Inr x, s')" "n s' = (Inr y, s'')"
  using assms unfolding seq_def by (rule bnd_InrE)

section \<open>Stable sorting and choice of the first element\<close>

text \<open>\<open>sorted(xs, key=f)[0]\<close>, with Python's stable sort.\<close>

definition first_by :: "('a \<Rightarrow> 'k::linorder) \<Rightarrow> 'a list \<Rightarrow> 'a option" where
  "first_by f xs = (case sort_key f xs of [] \<Rightarrow> None | x # _ \<Rightarrow> Some x)"

lemma first_by_None [simp]: "first_by f xs = None \<longleftrightarrow> xs = []"
  by (auto simp: first_by_def split: list.splits dest: arg_cong [where f = length])

lemma first_by_Nil [simp]: "first_by f [] = None"
  by simp

lemma first_by_Some:
  assumes "first_by f xs = Some x"
  shows "x \<in> set xs" and "y \<in> set xs \<Longrightarrow> f x \<le> f y"
proof -
  obtain ys where ys: "sort_key f xs = x # ys"
    using assms by (auto simp: first_by_def split: list.splits)
  then have set: "set xs = insert x (set ys)" by (metis list.simps(15) set_sort)
  then show "x \<in> set xs" by simp
  have "sorted (map f (x # ys))" using ys by (metis sorted_sort_key)
  then show "y \<in> set xs \<Longrightarrow> f x \<le> f y" using set by auto
qed

lemma find_filter: "find P xs = (case filter P xs of [] \<Rightarrow> None | x # _ \<Rightarrow> Some x)"
  by (induction xs) auto

text \<open>Among equal keys the first in the original order wins.\<close>

lemma first_by_stable:
  assumes "first_by f xs = Some x"
  shows "find (\<lambda>y. f y = f x) xs = Some x"
proof -
  obtain ys where ys: "sort_key f xs = x # ys"
    using assms by (auto simp: first_by_def split: list.splits)
  have "filter (\<lambda>y. f y = f x) xs = x # filter (\<lambda>y. f y = f x) ys"
    using sort_key_stable [of f "f x" xs] ys by simp
  then show ?thesis by (simp add: find_filter)
qed

end
