(* ===== verification/State_Machine.thy ===== *)
theory State_Machine
  imports Prelude
begin

text \<open>
  The lifecycle tables of \<open>runtime/state_machine.py\<close> and the status enums of
  \<open>domain/enums.py\<close>. Runs, tasks and run attempts each have a table of allowed transitions;
  \<open>assert_transition\<close> is the one guard every store and backend calls before it assigns a status.
  The second part turns the tables into step relations and shows what they promise: the tables are
  closed, terminal statuses are final, and success is only reached through a lease and an execution.
\<close>

section \<open>Status enums\<close>

datatype RunStatus =
    Run_pending | Run_running | Run_interrupted | Run_succeeded | Run_failed | Run_cancelled
  | Run_timeout

datatype TaskStatus =
    Task_queued | Task_leased | Task_running | Task_retrying | Task_succeeded | Task_failed
  | Task_dead_letter | Task_cancelled

datatype RunAttemptStatus =
    Attempt_running | Attempt_succeeded | Attempt_failed | Attempt_timeout | Attempt_cancelled
  | Attempt_worker_lost

fun run_status_value :: "RunStatus \<Rightarrow> string" where
  "run_status_value Run_pending = ''pending''"
| "run_status_value Run_running = ''running''"
| "run_status_value Run_interrupted = ''interrupted''"
| "run_status_value Run_succeeded = ''succeeded''"
| "run_status_value Run_failed = ''failed''"
| "run_status_value Run_cancelled = ''cancelled''"
| "run_status_value Run_timeout = ''timeout''"

fun task_status_value :: "TaskStatus \<Rightarrow> string" where
  "task_status_value Task_queued = ''queued''"
| "task_status_value Task_leased = ''leased''"
| "task_status_value Task_running = ''running''"
| "task_status_value Task_retrying = ''retrying''"
| "task_status_value Task_succeeded = ''succeeded''"
| "task_status_value Task_failed = ''failed''"
| "task_status_value Task_dead_letter = ''dead_letter''"
| "task_status_value Task_cancelled = ''cancelled''"

fun attempt_status_value :: "RunAttemptStatus \<Rightarrow> string" where
  "attempt_status_value Attempt_running = ''running''"
| "attempt_status_value Attempt_succeeded = ''succeeded''"
| "attempt_status_value Attempt_failed = ''failed''"
| "attempt_status_value Attempt_timeout = ''timeout''"
| "attempt_status_value Attempt_cancelled = ''cancelled''"
| "attempt_status_value Attempt_worker_lost = ''worker_lost''"

section \<open>Transition tables and the guard\<close>

definition RUN_TRANSITIONS :: "(RunStatus \<times> RunStatus list) list" where
  "RUN_TRANSITIONS =
    [(Run_pending, [Run_running, Run_cancelled]),
     (Run_running, [Run_interrupted, Run_succeeded, Run_failed, Run_cancelled, Run_timeout]),
     (Run_interrupted, [Run_running, Run_cancelled, Run_timeout]),
     (Run_failed, [Run_running]),
     (Run_timeout, [Run_running]),
     (Run_succeeded, []),
     (Run_cancelled, [])]"

definition TASK_TRANSITIONS :: "(TaskStatus \<times> TaskStatus list) list" where
  "TASK_TRANSITIONS =
    [(Task_queued, [Task_leased, Task_cancelled]),
     (Task_leased, [Task_running, Task_queued]),
     (Task_running,
       [Task_succeeded, Task_failed, Task_retrying, Task_cancelled, Task_dead_letter]),
     (Task_retrying, [Task_queued]),
     (Task_failed, [Task_retrying, Task_dead_letter]),
     (Task_succeeded, []),
     (Task_dead_letter, []),
     (Task_cancelled, [])]"

definition RUN_ATTEMPT_TRANSITIONS :: "(RunAttemptStatus \<times> RunAttemptStatus list) list" where
  "RUN_ATTEMPT_TRANSITIONS =
    [(Attempt_running,
       [Attempt_succeeded, Attempt_failed, Attempt_timeout, Attempt_cancelled,
        Attempt_worker_lost]),
     (Attempt_succeeded, []),
     (Attempt_failed, []),
     (Attempt_timeout, []),
     (Attempt_cancelled, []),
     (Attempt_worker_lost, [])]"

definition assert_transition ::
  "('a \<times> 'a list) list \<Rightarrow> ('a \<Rightarrow> string) \<Rightarrow> string \<Rightarrow> 'a \<Rightarrow> 'a \<Rightarrow> exn + unit" where
  "assert_transition transitions value entity current target =
     (if target \<notin> set (or_else (dget transitions current) [])
      then Inl (InvalidStateTransitionError entity (value current) (value target))
      else Inr ())"

definition assert_run_transition :: "RunStatus \<Rightarrow> RunStatus \<Rightarrow> exn + unit" where
  "assert_run_transition current target =
     assert_transition RUN_TRANSITIONS run_status_value ''run'' current target"

definition assert_task_transition :: "TaskStatus \<Rightarrow> TaskStatus \<Rightarrow> exn + unit" where
  "assert_task_transition current target =
     assert_transition TASK_TRANSITIONS task_status_value ''task'' current target"

definition assert_run_attempt_transition ::
  "RunAttemptStatus \<Rightarrow> RunAttemptStatus \<Rightarrow> exn + unit" where
  "assert_run_attempt_transition current target =
     assert_transition RUN_ATTEMPT_TRANSITIONS attempt_status_value ''run_attempt'' current target"

section \<open>The tables as step relations\<close>

inductive task_step :: "TaskStatus \<Rightarrow> TaskStatus \<Rightarrow> bool" where
  task_step: "assert_task_transition s t = Inr () \<Longrightarrow> task_step s t"

inductive run_step :: "RunStatus \<Rightarrow> RunStatus \<Rightarrow> bool" where
  run_step: "assert_run_transition s t = Inr () \<Longrightarrow> run_step s t"

inductive attempt_step :: "RunAttemptStatus \<Rightarrow> RunAttemptStatus \<Rightarrow> bool" where
  attempt_step: "assert_run_attempt_transition s t = Inr () \<Longrightarrow> attempt_step s t"

lemmas transition_defs =
  assert_transition_def assert_run_transition_def assert_task_transition_def
  assert_run_attempt_transition_def RUN_TRANSITIONS_def TASK_TRANSITIONS_def
  RUN_ATTEMPT_TRANSITIONS_def

lemma task_transition_table:
  "assert_task_transition s t =
    (if (s, t) \<in> {(Task_queued, Task_leased), (Task_queued, Task_cancelled),
        (Task_leased, Task_running), (Task_leased, Task_queued),
        (Task_running, Task_succeeded), (Task_running, Task_failed), (Task_running, Task_retrying),
        (Task_running, Task_cancelled), (Task_running, Task_dead_letter),
        (Task_retrying, Task_queued), (Task_failed, Task_retrying), (Task_failed, Task_dead_letter)}
     then Inr ()
     else Inl (InvalidStateTransitionError ''task'' (task_status_value s) (task_status_value t)))"
  by (cases s; cases t; simp add: transition_defs)

lemma run_transition_table:
  "assert_run_transition s t =
    (if (s, t) \<in> {(Run_pending, Run_running), (Run_pending, Run_cancelled),
        (Run_running, Run_interrupted), (Run_running, Run_succeeded), (Run_running, Run_failed),
        (Run_running, Run_cancelled), (Run_running, Run_timeout),
        (Run_interrupted, Run_running), (Run_interrupted, Run_cancelled),
        (Run_interrupted, Run_timeout), (Run_failed, Run_running), (Run_timeout, Run_running)}
     then Inr ()
     else Inl (InvalidStateTransitionError ''run'' (run_status_value s) (run_status_value t)))"
  by (cases s; cases t; simp add: transition_defs)

lemma attempt_transition_table:
  "assert_run_attempt_transition s t =
    (if s = Attempt_running \<and> t \<noteq> Attempt_running then Inr ()
     else Inl (InvalidStateTransitionError ''run_attempt''
                 (attempt_status_value s) (attempt_status_value t)))"
  by (cases s; cases t; simp add: transition_defs)

lemmas transition_tables = task_transition_table run_transition_table attempt_transition_table

text \<open>The guards as computations on an object holding a status.\<close>

definition check :: "(exn + unit) \<Rightarrow> ('s, unit) eff" where
  [eff_simps]: "check r = (\<lambda>s. (r, s))"

inductive_simps task_step_iff: "task_step s t"
inductive_simps run_step_iff: "run_step s t"
inductive_simps attempt_step_iff: "attempt_step s t"

definition task_terminal :: "TaskStatus \<Rightarrow> bool" where
  "task_terminal s \<longleftrightarrow> s \<in> {Task_succeeded, Task_dead_letter, Task_cancelled}"

definition run_terminal :: "RunStatus \<Rightarrow> bool" where
  "run_terminal s \<longleftrightarrow> s \<in> {Run_succeeded, Run_cancelled}"

lemma task_terminal_iff: "task_terminal s \<longleftrightarrow> (\<forall>t. \<not> task_step s t)"
  by (cases s) (auto simp: task_terminal_def task_step_iff task_transition_table)

lemma run_terminal_iff: "run_terminal s \<longleftrightarrow> (\<forall>t. \<not> run_step s t)"
  by (cases s) (auto simp: run_terminal_def run_step_iff run_transition_table)

lemma into_task_succeeded: "task_step s Task_succeeded \<longleftrightarrow> s = Task_running"
  by (cases s) (auto simp: task_step_iff task_transition_table)

lemma into_task_running: "task_step s Task_running \<longleftrightarrow> s = Task_leased"
  by (cases s) (auto simp: task_step_iff task_transition_table)

lemma into_task_leased: "task_step s Task_leased \<longleftrightarrow> s = Task_queued"
  by (cases s) (auto simp: task_step_iff task_transition_table)

lemma into_run_succeeded: "run_step s Run_succeeded \<longleftrightarrow> s = Run_running"
  by (cases s) (auto simp: run_step_iff run_transition_table)

section \<open>Histories\<close>

text \<open>A history is the list of statuses an object went through.\<close>

fun history :: "('a \<Rightarrow> 'a \<Rightarrow> bool) \<Rightarrow> 'a list \<Rightarrow> bool" where
  "history step [] = True"
| "history step [s] = True"
| "history step (s # t # rest) = (step s t \<and> history step (t # rest))"

lemma history_append:
  "history step (xs @ [s, t]) \<longleftrightarrow> history step (xs @ [s]) \<and> step s t"
  by (induction step xs rule: history.induct) auto

lemma history_prefix: "history step (xs @ ys) \<Longrightarrow> history step xs"
proof (induction step xs rule: history.induct)
  case (3 step s t rest)
  then show ?case by simp
qed auto

lemma history_last:
  assumes "history step (xs @ [t])" "xs \<noteq> []"
  shows "step (last xs) t"
proof -
  obtain ys s where "xs = ys @ [s]" using assms(2) by (cases xs rule: rev_cases) auto
  then show ?thesis using assms(1) history_append [of step ys s t] by simp
qed

lemma history_from_terminal:
  "history step (s # rest) \<Longrightarrow> (\<And>t. \<not> step s t) \<Longrightarrow> rest = []"
  by (cases rest) auto

text \<open>
  Every history of a task that starts queued and ends succeeded ends with the statuses leased,
  running, succeeded: no task succeeds without having been leased and marked running immediately
  before, whatever retries came earlier.
\<close>

lemma task_success_through_lease:
  assumes "history task_step (Task_queued # xs @ [Task_succeeded])"
  shows "\<exists>ys. Task_queued # xs = ys @ [Task_leased, Task_running]"
proof -
  have "task_step (last (Task_queued # xs)) Task_succeeded"
    using history_last [of task_step "Task_queued # xs" Task_succeeded] assms by simp
  then have last: "last (Task_queued # xs) = Task_running" by (simp only: into_task_succeeded)
  obtain zs z where zs: "Task_queued # xs = zs @ [z]" by (cases "Task_queued # xs" rule: rev_cases) auto
  with last have z: "z = Task_running" by simp
  with zs have ne: "zs \<noteq> []" by (cases zs) auto
  then obtain us u where u: "zs = us @ [u]" by (cases zs rule: rev_cases) auto
  have "history task_step ((us @ [u, Task_running]) @ [Task_succeeded])"
    using assms zs z u by (metis append.assoc append_Cons append_Nil)
  then have "history task_step (us @ [u, Task_running])" by (rule history_prefix)
  then have "u = Task_leased" by (simp add: history_append into_task_running)
  then show ?thesis using zs z u by auto
qed

end
