(* ===== verification/Task_Backend.thy ===== *)
theory Task_Backend
  imports State_Machine
begin

text \<open>
  The interface \<open>RuntimeTaskBackend\<close> of \<open>scheduler/backend.py\<close>: the payload a task is enqueued
  with, the snapshot a lease returns, the operations a worker calls, and the contract they promise
  about a task's status, owner, fencing token and attempt counter. The worker theories are proved
  against this contract; every backend interprets it.
\<close>

section \<open>Payload and snapshot\<close>

text \<open>
  The dictionary given to \<open>enqueue\<close>. A field is \<open>None\<close> when the key is absent or its value is
  \<open>None\<close>; the optional keys the repository's callers never pass as an explicit \<open>None\<close> are the ones
  read with a default.
\<close>

record task_payload =
  p_task_id :: "int option"
  p_run_id :: "int option"
  p_tenant_id :: "int option"
  p_project_id :: "int option"
  p_agent_id :: "int option"
  p_agent_version_id :: "int option"
  p_deployment_id :: "int option"
  p_input_data :: "pydict option"
  p_override_config :: "pydict option"
  p_queue :: "string option"
  p_thread_id :: "string option"
  p_priority :: "int option"
  p_attempt :: "int option"
  p_max_attempts :: "int option"
  p_scheduled_at :: "datetime option"
  p_execution_mode :: "string option"
  p_idempotency_key :: "string option"
  p_resource_class :: "string option"
  p_metadata :: "pydict option"

definition empty_payload :: task_payload where
  "empty_payload = \<lparr>p_task_id = None, p_run_id = None, p_tenant_id = None, p_project_id = None,
     p_agent_id = None, p_agent_version_id = None, p_deployment_id = None, p_input_data = None,
     p_override_config = None, p_queue = None, p_thread_id = None, p_priority = None,
     p_attempt = None, p_max_attempts = None, p_scheduled_at = None, p_execution_mode = None,
     p_idempotency_key = None, p_resource_class = None, p_metadata = None\<rparr>"

text \<open>
  The dictionary a lease returns: the payload's entries, overridden by the task's own fields.
\<close>

record task_snapshot =
  sn_payload :: task_payload
  sn_task_id :: int
  sn_run_id :: int
  sn_queue :: string
  sn_priority :: int
  sn_status :: TaskStatus
  sn_attempt :: int
  sn_max_attempts :: int
  sn_worker_id :: "string option"
  sn_leased_until :: "datetime option"
  sn_heartbeat_at :: "datetime option"
  sn_scheduled_at :: "datetime option"
  sn_fencing_token :: int

section \<open>Operations and the view a worker has of a task\<close>

record 'b task_backend_ops =
  op_lease :: "string \<Rightarrow> string \<Rightarrow> int \<Rightarrow> ('b, task_snapshot option) eff"
  op_mark_running :: "int \<Rightarrow> string \<Rightarrow> int \<Rightarrow> ('b, unit) eff"
  op_assert_can_complete :: "int \<Rightarrow> string \<Rightarrow> int \<Rightarrow> ('b, unit) eff"
  op_will_retry :: "int \<Rightarrow> ('b, bool) eff"
  op_complete :: "int \<Rightarrow> string \<Rightarrow> int \<Rightarrow> ('b, unit) eff"
  op_fail :: "int \<Rightarrow> string \<Rightarrow> int \<Rightarrow> pydict \<Rightarrow> ('b, unit) eff"

record task_view =
  v_run_id :: int
  v_status :: TaskStatus
  v_worker_id :: "string option"
  v_token :: int
  v_attempt :: int
  v_max_attempts :: int

definition retries_left :: "task_view \<Rightarrow> bool" where
  "retries_left v \<longleftrightarrow> v_attempt v + 1 < v_max_attempts v"

definition view_failed :: "task_view \<Rightarrow> task_view" where
  "view_failed v = (if retries_left v
     then v\<lparr>v_status := Task_queued, v_attempt := v_attempt v + 1, v_worker_id := None\<rparr>
     else v\<lparr>v_status := Task_dead_letter\<rparr>)"

text \<open>The check every write of a worker goes through: the token first, then the owner.\<close>

definition view_check :: "int \<Rightarrow> string \<Rightarrow> int \<Rightarrow> task_view option \<Rightarrow> exn + unit" where
  "view_check tid w tok vo = (case vo of
       None \<Rightarrow> Inl KeyError
     | Some v \<Rightarrow> if v_token v \<noteq> tok then Inl (StaleFencingTokenError tid)
                else if v_worker_id v \<noteq> Some w then Inl (TaskLeaseError tid)
                else Inr ())"

lemma view_check_ok:
  "view_check tid w tok vo = Inr () \<longleftrightarrow>
     (\<exists>v. vo = Some v \<and> v_token v = tok \<and> v_worker_id v = Some w)"
  by (auto simp: view_check_def split: option.splits)

section \<open>The contract\<close>

locale runtime_task_backend =
  fixes ops :: "'b task_backend_ops"
    and view :: "'b \<Rightarrow> int \<Rightarrow> task_view option"
    and inv :: "'b \<Rightarrow> bool"
  assumes lease_leases:
      "inv b \<Longrightarrow> op_lease ops q w n b = (Inr (Some sn), b') \<Longrightarrow>
         \<exists>v. view b' (sn_task_id sn) = Some v \<and> v_status v = Task_leased \<and>
             v_worker_id v = Some w \<and> v_token v = sn_fencing_token sn \<and> v_run_id v = sn_run_id sn"
    and lease_inv: "inv b \<Longrightarrow> op_lease ops q w n b = (r, b') \<Longrightarrow> inv b'"
    and can_complete:
      "inv b \<Longrightarrow> op_assert_can_complete ops tid w tok b = (view_check tid w tok (view b tid), b)"
    and will_retry:
      "inv b \<Longrightarrow> view b tid = Some v \<Longrightarrow> op_will_retry ops tid b = (Inr (retries_left v), b)"
    and mark_running_ok:
      "inv b \<Longrightarrow> view b tid = Some v \<Longrightarrow> v_token v = tok \<Longrightarrow> v_worker_id v = Some w \<Longrightarrow>
         v_status v = Task_leased \<Longrightarrow>
         \<exists>b'. op_mark_running ops tid w tok b = (Inr (), b') \<and> inv b' \<and>
              view b' = (view b)(tid \<mapsto> v\<lparr>v_status := Task_running\<rparr>)"
    and complete_ok:
      "inv b \<Longrightarrow> view b tid = Some v \<Longrightarrow> v_token v = tok \<Longrightarrow> v_worker_id v = Some w \<Longrightarrow>
         v_status v = Task_running \<Longrightarrow>
         \<exists>b'. op_complete ops tid w tok b = (Inr (), b') \<and> inv b' \<and>
              view b' = (view b)(tid \<mapsto> v\<lparr>v_status := Task_succeeded\<rparr>)"
    and fail_ok:
      "inv b \<Longrightarrow> view b tid = Some v \<Longrightarrow> v_token v = tok \<Longrightarrow> v_worker_id v = Some w \<Longrightarrow>
         v_status v = Task_running \<Longrightarrow>
         \<exists>b'. op_fail ops tid w tok e b = (Inr (), b') \<and> inv b' \<and>
              view b' = (view b)(tid \<mapsto> view_failed v)"
    and complete_refused:
      "inv b \<Longrightarrow> view_check tid w tok (view b tid) = Inl x \<Longrightarrow>
         op_complete ops tid w tok b = (Inl x, b)"
    and fail_refused:
      "inv b \<Longrightarrow> view_check tid w tok (view b tid) = Inl x \<Longrightarrow>
         op_fail ops tid w tok e b = (Inl x, b)"
begin

text \<open>The lifecycle of one execution, as the contract gives it.\<close>

lemma lease_then_mark_running:
  assumes "inv b" "op_lease ops q w n b = (Inr (Some sn), b1)"
  shows "\<exists>b2 v. op_mark_running ops (sn_task_id sn) w (sn_fencing_token sn) b1 = (Inr (), b2) \<and>
           inv b2 \<and> view b2 (sn_task_id sn) = Some v \<and> v_status v = Task_running \<and>
           v_worker_id v = Some w \<and> v_token v = sn_fencing_token sn \<and> v_run_id v = sn_run_id sn"
proof -
  obtain v where v: "view b1 (sn_task_id sn) = Some v" "v_status v = Task_leased"
      "v_worker_id v = Some w" "v_token v = sn_fencing_token sn" "v_run_id v = sn_run_id sn"
    using lease_leases [OF assms] by blast
  have "inv b1" using lease_inv assms by blast
  from mark_running_ok [OF this v(1) v(4) v(3) v(2)] v show ?thesis by auto
qed

lemma lease_run_complete:
  assumes "inv b" "op_lease ops q w n b = (Inr (Some sn), b1)"
    "op_mark_running ops (sn_task_id sn) w (sn_fencing_token sn) b1 = (Inr (), b2)"
  shows "\<exists>b3 v. op_complete ops (sn_task_id sn) w (sn_fencing_token sn) b2 = (Inr (), b3) \<and>
           inv b3 \<and> view b3 (sn_task_id sn) = Some v \<and> v_status v = Task_succeeded"
proof -
  obtain v where v: "inv b2" "view b2 (sn_task_id sn) = Some v" "v_status v = Task_running"
      "v_worker_id v = Some w" "v_token v = sn_fencing_token sn"
    using lease_then_mark_running [OF assms(1,2)] assms(3) by auto
  from complete_ok [OF v(1) v(2) v(5) v(4) v(3)] show ?thesis by auto
qed

text \<open>A worker whose token or ownership is gone can neither complete nor fail the task.\<close>

lemma lost_lease_refused:
  assumes "inv b" "op_assert_can_complete ops tid w tok b = (Inl x, b)"
  shows "op_complete ops tid w tok b = (Inl x, b) \<and> op_fail ops tid w tok e b = (Inl x, b)"
proof -
  have "view_check tid w tok (view b tid) = Inl x"
    using can_complete [OF assms(1), of tid w tok] assms(2) by simp
  then show ?thesis using complete_refused fail_refused assms(1) by blast
qed

end

end
