(* ===== verification/In_Memory_Backend.thy ===== *)
theory In_Memory_Backend
  imports Task_Backend
begin

text \<open>
  The in-memory task queue of \<open>scheduler/in_memory.py\<close>: enqueueing, leasing by priority and age,
  heartbeats, completion and failure under a fencing token, cancellation, and the reaping of expired
  leases. Operations on a task object are computations on the record \<open>in_memory_task\<close>; the backend's
  operations look the task up and run them. Every operation takes the clock readings it makes.
\<close>

section \<open>State\<close>

record in_memory_task =
  t_task_id :: int
  t_payload :: task_payload
  t_run_id :: int
  t_queue :: string
  t_priority :: int
  t_status :: TaskStatus
  t_attempt :: int
  t_max_attempts :: int
  t_worker_id :: "string option"
  t_leased_until :: "datetime option"
  t_heartbeat_at :: "datetime option"
  t_scheduled_at :: "datetime option"
  t_fencing_token :: int
  t_error :: "pydict option"
  t_created_at :: datetime

record in_memory_backend =
  tasks :: "(int \<times> in_memory_task) list"
  dead_letters :: "(int \<times> pydict) list"
  next_id :: int

definition init_backend :: in_memory_backend where
  "init_backend = \<lparr>tasks = [], dead_letters = [], next_id = 1\<rparr>"

definition snapshot :: "in_memory_task \<Rightarrow> task_snapshot" where
  "snapshot t = \<lparr>sn_payload = t_payload t, sn_task_id = t_task_id t, sn_run_id = t_run_id t,
     sn_queue = t_queue t, sn_priority = t_priority t, sn_status = t_status t,
     sn_attempt = t_attempt t, sn_max_attempts = t_max_attempts t, sn_worker_id = t_worker_id t,
     sn_leased_until = t_leased_until t, sn_heartbeat_at = t_heartbeat_at t,
     sn_scheduled_at = t_scheduled_at t, sn_fencing_token = t_fencing_token t\<rparr>"

section \<open>Computations on a task object\<close>

definition transition :: "TaskStatus \<Rightarrow> (in_memory_task, unit) eff" where
  [eff_simps]: "transition target = (\<lambda>t. (assert_task_transition (t_status t) target, t))"

definition set_status :: "TaskStatus \<Rightarrow> (in_memory_task, unit) eff" where
  [eff_simps]: "set_status s = upd (\<lambda>t. t\<lparr>t_status := s\<rparr>)"

definition assert_fencing_token :: "int \<Rightarrow> (in_memory_task, unit) eff" where
  [eff_simps]: "assert_fencing_token tok = (\<lambda>t.
     if t_fencing_token t \<noteq> tok then (Inl (StaleFencingTokenError (t_task_id t)), t)
     else (Inr (), t))"

definition assert_owner :: "string \<Rightarrow> (in_memory_task, unit) eff" where
  [eff_simps]: "assert_owner w = (\<lambda>t.
     if t_worker_id t \<noteq> Some w then (Inl (TaskLeaseError (t_task_id t)), t) else (Inr (), t))"

text \<open>A leased task is first promoted to running, as \<open>fail\<close> and \<open>cancel\<close> do.\<close>

definition promote_leased :: "(in_memory_task, unit) eff" where
  [eff_simps]: "promote_leased =
     when_st (\<lambda>t. t_status t = Task_leased) (seq (transition Task_running) (set_status Task_running))"

definition lease_task :: "datetime \<Rightarrow> string \<Rightarrow> int \<Rightarrow> (in_memory_task, task_snapshot) eff" where
  [eff_simps]: "lease_task now w lease_seconds =
     seq (transition Task_leased)
    (seq (upd (\<lambda>t. t\<lparr>t_status := Task_leased, t_worker_id := Some w,
                     t_leased_until := Some (now + seconds lease_seconds),
                     t_heartbeat_at := Some now,
                     t_fencing_token := t_fencing_token t + 1\<rparr>))
         (gets snapshot))"

text \<open>\<open>fail\<close> on the task object; the result says whether the task was dead-lettered.\<close>

definition fail_task :: "string \<Rightarrow> int \<Rightarrow> pydict \<Rightarrow> (in_memory_task, bool) eff" where
  [eff_simps]: "fail_task w tok e =
     seq (assert_fencing_token tok)
    (seq (assert_owner w)
    (seq promote_leased
    (seq (transition Task_failed)
    (seq (set_status Task_failed)
    (seq (\<lambda>t. if t_attempt t + 1 \<ge> t_max_attempts t then transition Task_dead_letter t
              else transition Task_retrying t)
    (seq (upd (\<lambda>t. t\<lparr>t_error := Some e\<rparr>))
         (\<lambda>t. if t_attempt t + 1 \<ge> t_max_attempts t
              then (Inr True, t\<lparr>t_status := Task_dead_letter\<rparr>)
              else seq (upd (\<lambda>t. t\<lparr>t_attempt := t_attempt t + 1, t_status := Task_retrying,
                                   t_worker_id := None, t_leased_until := None\<rparr>))
                  (seq (transition Task_queued)
                  (seq (set_status Task_queued) (ret False))) t)))))))"

definition reap_task :: "datetime \<Rightarrow> (in_memory_task, unit) eff" where
  [eff_simps]: "reap_task now = when_st
     (\<lambda>t. t_status t \<in> {Task_leased, Task_running} \<and>
          (case t_leased_until t of None \<Rightarrow> False | Some u \<Rightarrow> u < now))
     (seq (when_st (\<lambda>t. t_status t = Task_running)
             (seq (transition Task_retrying) (set_status Task_retrying)))
     (seq (transition Task_queued)
          (upd (\<lambda>t. t\<lparr>t_status := Task_queued, t_worker_id := None, t_leased_until := None\<rparr>))))"

section \<open>Operations of the backend\<close>

definition on_task :: "int \<Rightarrow> (in_memory_task, 'a) eff \<Rightarrow> (in_memory_backend, 'a) eff" where
  [eff_simps]: "on_task = on_entry tasks (\<lambda>ts b. b\<lparr>tasks := ts\<rparr>)"

definition enqueue :: "datetime \<Rightarrow> task_payload \<Rightarrow> (in_memory_backend, int) eff" where
  "enqueue now p b =
     (let task_id = or_id (p_task_id p) (next_id b);
          b1 = (case p_task_id p of
                  None \<Rightarrow> b\<lparr>next_id := next_id b + 1\<rparr>
                | Some _ \<Rightarrow> b\<lparr>next_id := max (next_id b) (task_id + 1)\<rparr>)
      in case p_run_id p of
           None \<Rightarrow> (Inl KeyError, b1)
         | Some run_id \<Rightarrow>
             (Inr task_id,
              b1\<lparr>tasks := dset (tasks b1) task_id
                \<lparr>t_task_id = task_id, t_payload = p, t_run_id = run_id,
                 t_queue = or_else (p_queue p) ''default'', t_priority = or_else (p_priority p) 0,
                 t_status = Task_queued, t_attempt = or_else (p_attempt p) 0,
                 t_max_attempts = or_else (p_max_attempts p) 3, t_worker_id = None,
                 t_leased_until = None, t_heartbeat_at = None, t_scheduled_at = p_scheduled_at p,
                 t_fencing_token = 0, t_error = None, t_created_at = now\<rparr>\<rparr>))"

definition reap_expired_leases :: "datetime \<Rightarrow> (in_memory_backend, unit) eff" where
  "reap_expired_leases now b =
     (case for_entries (reap_task now) (tasks b) of (r, ts) \<Rightarrow> (r, b\<lparr>tasks := ts\<rparr>))"

definition is_candidate :: "datetime \<Rightarrow> string \<Rightarrow> in_memory_task \<Rightarrow> bool" where
  "is_candidate now q t \<longleftrightarrow> t_queue t = q \<and> t_status t = Task_queued \<and>
     (case t_scheduled_at t of None \<Rightarrow> True | Some s \<Rightarrow> s \<le> now)"

definition lease_key :: "in_memory_task \<Rightarrow> int \<times> datetime" where
  "lease_key t = (- t_priority t, t_created_at t)"

definition lease ::
  "datetime \<Rightarrow> datetime \<Rightarrow> string \<Rightarrow> string \<Rightarrow> int \<Rightarrow>
     (in_memory_backend, task_snapshot option) eff" where
  "lease now reap_now q w lease_seconds =
     seq (reap_expired_leases reap_now)
         (\<lambda>b. case first_by lease_key (filter (is_candidate now q) (dvals (tasks b))) of
                None \<Rightarrow> (Inr None, b)
              | Some t \<Rightarrow> bnd (on_task (t_task_id t) (lease_task now w lease_seconds))
                              (\<lambda>sn. ret (Some sn)) b)"

definition owned_task :: "int \<Rightarrow> string \<Rightarrow> (in_memory_task, 'a) eff \<Rightarrow> (in_memory_backend, 'a) eff" where
  [eff_simps]: "owned_task tid w m = on_task tid (seq (assert_owner w) m)"

definition heartbeat :: "datetime \<Rightarrow> int \<Rightarrow> string \<Rightarrow> int \<Rightarrow> (in_memory_backend, unit) eff" where
  [eff_simps]: "heartbeat now tid w lease_seconds = owned_task tid w
     (upd (\<lambda>t. t\<lparr>t_heartbeat_at := Some now, t_leased_until := Some (now + seconds lease_seconds)\<rparr>))"

definition assert_can_complete :: "int \<Rightarrow> string \<Rightarrow> int \<Rightarrow> (in_memory_backend, unit) eff" where
  [eff_simps]: "assert_can_complete tid w tok =
     on_task tid (seq (assert_fencing_token tok) (assert_owner w))"

definition complete :: "int \<Rightarrow> string \<Rightarrow> int \<Rightarrow> (in_memory_backend, unit) eff" where
  [eff_simps]: "complete tid w tok =
     seq (assert_can_complete tid w tok)
         (on_task tid (seq (transition Task_succeeded) (set_status Task_succeeded)))"

definition fail :: "int \<Rightarrow> string \<Rightarrow> int \<Rightarrow> pydict \<Rightarrow> (in_memory_backend, unit) eff" where
  [eff_simps]: "fail tid w tok e =
     bnd (on_task tid (fail_task w tok e))
         (\<lambda>dead. if dead then upd (\<lambda>b. b\<lparr>dead_letters := dead_letters b @ [(tid, e)]\<rparr>)
                 else ret ())"

definition cancel :: "int \<Rightarrow> (in_memory_backend, unit) eff" where
  [eff_simps]: "cancel tid = on_task tid
     (seq promote_leased (seq (transition Task_cancelled) (set_status Task_cancelled)))"

definition mark_running :: "int \<Rightarrow> string \<Rightarrow> int \<Rightarrow> (in_memory_backend, unit) eff" where
  [eff_simps]: "mark_running tid w tok = owned_task tid w
     (seq (assert_fencing_token tok) (seq (transition Task_running) (set_status Task_running)))"

definition will_retry :: "int \<Rightarrow> (in_memory_backend, bool) eff" where
  [eff_simps]: "will_retry tid = on_task tid (gets (\<lambda>t. t_attempt t + 1 < t_max_attempts t))"

section \<open>What the task computations do\<close>

definition expired :: "datetime \<Rightarrow> in_memory_task \<Rightarrow> bool" where
  "expired now t \<longleftrightarrow> t_status t \<in> {Task_leased, Task_running} \<and>
     (case t_leased_until t of None \<Rightarrow> False | Some u \<Rightarrow> u < now)"

definition reaped :: "datetime \<Rightarrow> in_memory_task \<Rightarrow> in_memory_task" where
  "reaped now t = (if expired now t
     then t\<lparr>t_status := Task_queued, t_worker_id := None, t_leased_until := None\<rparr> else t)"

lemma reap_task_total: "reap_task now t = (Inr (), reaped now t)"
  by (auto simp: eff_simps reaped_def expired_def task_transition_table split: option.splits)

definition after_reap :: "datetime \<Rightarrow> in_memory_backend \<Rightarrow> in_memory_backend" where
  "after_reap now b = b\<lparr>tasks := map (\<lambda>(k, t). (k, reaped now t)) (tasks b)\<rparr>"

lemma reap_expired_leases_total: "reap_expired_leases now b = (Inr (), after_reap now b)"
  by (simp add: reap_expired_leases_def after_reap_def for_entries_total [where f = "reaped now"]
      reap_task_total)

lemma after_reap_simps [simp]:
  "next_id (after_reap now b) = next_id b" "dead_letters (after_reap now b) = dead_letters b"
  "dget (tasks (after_reap now b)) k = map_option (reaped now) (dget (tasks b) k)"
  "dkeys (tasks (after_reap now b)) = dkeys (tasks b)"
  by (simp_all add: after_reap_def dget_map_vals)

lemma reaped_fields [simp]:
  "t_task_id (reaped now t) = t_task_id t" "t_fencing_token (reaped now t) = t_fencing_token t"
  "t_attempt (reaped now t) = t_attempt t" "t_max_attempts (reaped now t) = t_max_attempts t"
  "t_queue (reaped now t) = t_queue t" "t_run_id (reaped now t) = t_run_id t"
  "t_priority (reaped now t) = t_priority t" "t_created_at (reaped now t) = t_created_at t"
  "t_scheduled_at (reaped now t) = t_scheduled_at t" "t_payload (reaped now t) = t_payload t"
  by (simp_all add: reaped_def)

lemma reaped_not_expired [simp]: "\<not> expired now (reaped now t)"
proof (cases "expired now t")
  case True
  then have "t_status (reaped now t) = Task_queued" by (simp add: reaped_def)
  then show ?thesis by (simp add: expired_def)
qed (simp add: reaped_def)

lemma fail_task_eq:
  "fail_task w tok e t =
     (if t_fencing_token t \<noteq> tok then (Inl (StaleFencingTokenError (t_task_id t)), t)
      else if t_worker_id t \<noteq> Some w then (Inl (TaskLeaseError (t_task_id t)), t)
      else if t_status t \<notin> {Task_leased, Task_running}
           then (Inl (InvalidStateTransitionError ''task'' (task_status_value (t_status t))
                        ''failed''), t)
      else if t_attempt t + 1 \<ge> t_max_attempts t
           then (Inr True, t\<lparr>t_status := Task_dead_letter, t_error := Some e\<rparr>)
      else (Inr False, t\<lparr>t_status := Task_queued, t_error := Some e, t_attempt := t_attempt t + 1,
                        t_worker_id := None, t_leased_until := None\<rparr>))"
  by (cases "t_status t") (simp_all add: eff_simps task_transition_table)

lemma lease_task_queued:
  "t_status t = Task_queued \<Longrightarrow>
     lease_task now w n t =
       (let t' = t\<lparr>t_status := Task_leased, t_worker_id := Some w,
                   t_leased_until := Some (now + seconds n), t_heartbeat_at := Some now,
                   t_fencing_token := t_fencing_token t + 1\<rparr>
        in (Inr (snapshot t'), t'))"
  by (simp add: eff_simps task_transition_table Let_def)

section \<open>The well-formedness invariant\<close>

text \<open>
  At rest a task is queued with no owner, held (leased or running) with an owner, a lease deadline
  and a positive token, or in a final status; \<open>failed\<close> and \<open>retrying\<close> are only passed through.
\<close>

definition wf_task :: "in_memory_task \<Rightarrow> bool" where
  "wf_task t \<longleftrightarrow>
     t_status t \<notin> {Task_failed, Task_retrying} \<and> 0 \<le> t_fencing_token t \<and>
     (t_status t = Task_queued \<longrightarrow> t_worker_id t = None \<and> t_leased_until t = None) \<and>
     (t_status t \<in> {Task_leased, Task_running} \<longrightarrow>
        t_worker_id t \<noteq> None \<and> t_leased_until t \<noteq> None \<and> 1 \<le> t_fencing_token t)"

definition wf_backend :: "in_memory_backend \<Rightarrow> bool" where
  "wf_backend b \<longleftrightarrow> distinct (dkeys (tasks b)) \<and>
     (\<forall>k t. dget (tasks b) k = Some t \<longrightarrow>
        t_task_id t = k \<and> k < next_id b \<and> wf_task t \<and>
        (t_status t = Task_dead_letter \<longrightarrow> k \<in> set (dkeys (dead_letters b))))"

lemma wf_init: "wf_backend init_backend"
  by (simp add: wf_backend_def init_backend_def)

lemma wf_lookup:
  "wf_backend b \<Longrightarrow> dget (tasks b) k = Some t \<Longrightarrow> t_task_id t = k \<and> wf_task t \<and> k < next_id b"
  by (simp add: wf_backend_def)

lemma wf_member:
  "wf_backend b \<Longrightarrow> t \<in> set (dvals (tasks b)) \<Longrightarrow> dget (tasks b) (t_task_id t) = Some t"
  by (force simp: wf_backend_def dest: dget_of_mem)

lemma wf_store:
  "wf_backend b \<Longrightarrow> dget (tasks b) k = Some t \<Longrightarrow> wf_task t' \<Longrightarrow> t_task_id t' = t_task_id t \<Longrightarrow>
     (t_status t' = Task_dead_letter \<longrightarrow> k \<in> set (dkeys (dead_letters b))) \<Longrightarrow>
     wf_backend (b\<lparr>tasks := dset (tasks b) k t'\<rparr>)"
  by (auto simp: wf_backend_def)

text \<open>A computation on a task keeps the invariant if it keeps it for the task.\<close>

lemma on_task_wf:
  assumes "wf_backend b" "on_task k m b = (r, b')"
    and "\<And>t r t'. wf_task t \<Longrightarrow> m t = (r, t') \<Longrightarrow>
           wf_task t' \<and> t_task_id t' = t_task_id t \<and>
           (t_status t' = Task_dead_letter \<longrightarrow> t_status t = Task_dead_letter)"
  shows "wf_backend b'"
proof (cases "dget (tasks b) k")
  case None
  with assms show ?thesis by (simp add: eff_simps)
next
  case (Some t)
  obtain t' where m: "m t = (r, t')" and b': "b' = b\<lparr>tasks := dset (tasks b) k t'\<rparr>"
    using assms(2) Some by (auto simp: eff_simps split: prod.splits)
  have "wf_task t" using wf_lookup [OF assms(1) Some] by simp
  from assms(3) [OF this m] show ?thesis
    using assms(1) Some by (auto simp: wf_backend_def b')
qed

lemma on_task_other:
  "on_task k m b = (r, b') \<Longrightarrow> j \<noteq> k \<Longrightarrow> dget (tasks b') j = dget (tasks b) j"
  by (auto simp: eff_simps split: option.splits prod.splits)

lemma on_task_rest:
  "on_task k m b = (r, b') \<Longrightarrow> next_id b' = next_id b \<and> dead_letters b' = dead_letters b"
  by (auto simp: eff_simps split: option.splits prod.splits)

lemma wf_mono:
  "wf_backend b \<Longrightarrow> set (dkeys (dead_letters b)) \<subseteq> set (dkeys ds) \<Longrightarrow>
     wf_backend (b\<lparr>dead_letters := ds\<rparr>)"
  by (auto simp: wf_backend_def)

lemma enqueue_wf: "wf_backend b \<Longrightarrow> enqueue now p b = (r, b') \<Longrightarrow> wf_backend b'"
  by (fastforce simp: wf_backend_def enqueue_def wf_task_def Let_def or_id_def
      split: option.splits if_splits)

lemma reaped_wf: "wf_task t \<Longrightarrow> wf_task (reaped now t)"
  by (auto simp: wf_task_def reaped_def)

lemma reaped_dead [simp]: "t_status (reaped now t) = Task_dead_letter \<longleftrightarrow> t_status t = Task_dead_letter"
  by (auto simp: reaped_def expired_def)

lemma after_reap_wf: "wf_backend b \<Longrightarrow> wf_backend (after_reap now b)"
  by (auto simp: wf_backend_def reaped_wf)

lemma reap_wf: "wf_backend b \<Longrightarrow> reap_expired_leases now b = (r, b') \<Longrightarrow> wf_backend b'"
  by (auto simp: reap_expired_leases_total after_reap_wf)

text \<open>The candidate a lease picks, and the task it leaves.\<close>

definition lease_choice :: "datetime \<Rightarrow> string \<Rightarrow> in_memory_backend \<Rightarrow> in_memory_task option" where
  "lease_choice now q b = first_by lease_key (filter (is_candidate now q) (dvals (tasks b)))"

definition leased_task :: "datetime \<Rightarrow> string \<Rightarrow> int \<Rightarrow> in_memory_task \<Rightarrow> in_memory_task" where
  "leased_task now w n t = t\<lparr>t_status := Task_leased, t_worker_id := Some w,
     t_leased_until := Some (now + seconds n), t_heartbeat_at := Some now,
     t_fencing_token := t_fencing_token t + 1\<rparr>"

lemma lease_choice_mem:
  assumes "wf_backend b" "lease_choice now q b = Some t"
  shows "dget (tasks b) (t_task_id t) = Some t" "is_candidate now q t"
    "\<And>u. u \<in> set (dvals (tasks b)) \<Longrightarrow> is_candidate now q u \<Longrightarrow> lease_key t \<le> lease_key u"
  using first_by_Some [OF assms(2) [unfolded lease_choice_def]] wf_member [OF assms(1)] by auto

lemma lease_eq:
  assumes "wf_backend b"
  shows "lease now rn q w n b = (let b1 = after_reap rn b in
     case lease_choice now q b1 of
       None \<Rightarrow> (Inr None, b1)
     | Some t \<Rightarrow> (Inr (Some (snapshot (leased_task now w n t))),
                 b1\<lparr>tasks := dset (tasks b1) (t_task_id t) (leased_task now w n t)\<rparr>))"
proof (cases "lease_choice now q (after_reap rn b)")
  case None
  then show ?thesis
    by (simp add: lease_def seq_def bnd_def reap_expired_leases_total lease_choice_def)
next
  case (Some t)
  have b1: "wf_backend (after_reap rn b)" using assms by (rule after_reap_wf)
  note t = lease_choice_mem [OF b1 Some]
  from t(1,2) have
    "on_task (t_task_id t) (lease_task now w n) (after_reap rn b) =
       (Inr (snapshot (leased_task now w n t)),
        (after_reap rn b)\<lparr>tasks := dset (tasks (after_reap rn b)) (t_task_id t)
                                        (leased_task now w n t)\<rparr>)"
    by (simp add: on_task_def on_entry_def lease_task_queued is_candidate_def leased_task_def Let_def
        del: after_reap_simps)
  then show ?thesis
    using Some
    by (simp add: lease_def seq_def bnd_def ret_def reap_expired_leases_total lease_choice_def Let_def)
qed

lemma leased_task_wf: "wf_task t \<Longrightarrow> wf_task (leased_task now w n t)"
  by (auto simp: wf_task_def leased_task_def)

lemma lease_wf:
  assumes "wf_backend b" "lease now rn q w n b = (r, b')"
  shows "wf_backend b'"
proof -
  have b1: "wf_backend (after_reap rn b)" using assms(1) by (rule after_reap_wf)
  show ?thesis
  proof (cases "lease_choice now q (after_reap rn b)")
    case None
    with assms b1 show ?thesis by (simp add: lease_eq)
  next
    case (Some t)
    note t = lease_choice_mem [OF b1 Some]
    have "wf_backend ((after_reap rn b)\<lparr>tasks := dset (tasks (after_reap rn b)) (t_task_id t)
                                         (leased_task now w n t)\<rparr>)"
      by (rule wf_store [OF b1 t(1)])
        (use wf_lookup [OF b1 t(1)] leased_task_wf in \<open>auto simp: leased_task_def\<close>)
    then show ?thesis using assms(2) Some by (simp add: lease_eq [OF assms(1)] Let_def)
  qed
qed

lemma fail_wf:
  assumes "wf_backend b" "fail k w tok e b = (r, b')"
  shows "wf_backend b'"
proof (cases "dget (tasks b) k")
  case None
  with assms show ?thesis by (simp add: eff_simps)
next
  case (Some t)
  then show ?thesis
    using assms wf_lookup [OF assms(1) Some]
    by (auto simp: fail_def on_task_def on_entry_def fail_task_eq bnd_def upd_def ret_def
        wf_backend_def wf_task_def split: if_splits)
qed

lemma simple_ops_wf:
  "wf_backend b \<Longrightarrow> heartbeat now k w n b = (r, b') \<Longrightarrow> wf_backend b'"
  "wf_backend b \<Longrightarrow> cancel k b = (r, b') \<Longrightarrow> wf_backend b'"
  "wf_backend b \<Longrightarrow> mark_running k w tok b = (r, b') \<Longrightarrow> wf_backend b'"
  "wf_backend b \<Longrightarrow> assert_can_complete k w tok b = (r, b') \<Longrightarrow> wf_backend b'"
  "wf_backend b \<Longrightarrow> will_retry k b = (rb, b') \<Longrightarrow> wf_backend b'"
  unfolding heartbeat_def cancel_def mark_running_def owned_task_def assert_can_complete_def
    will_retry_def
  by (erule (1) on_task_wf,
      force simp: eff_simps wf_task_def task_transition_table split: if_splits)+

lemma assert_can_complete_eq:
  "assert_can_complete k w tok b = (case dget (tasks b) k of
       None \<Rightarrow> (Inl KeyError, b)
     | Some t \<Rightarrow> (if t_fencing_token t \<noteq> tok then Inl (StaleFencingTokenError (t_task_id t))
                 else if t_worker_id t \<noteq> Some w then Inl (TaskLeaseError (t_task_id t))
                 else Inr (), b))"
  by (auto simp: eff_simps AList.update_triv split: option.splits)

lemma complete_wf:
  assumes "wf_backend b" "complete k w tok b = (r, b')"
  shows "wf_backend b'"
proof (cases "assert_can_complete k w tok b")
  case (Pair r1 b1)
  then have b1: "b1 = b" by (auto simp: assert_can_complete_eq split: option.splits)
  obtain r2 b2 where
    m: "on_task k (seq (transition Task_succeeded) (set_status Task_succeeded)) b = (r2, b2)"
    by fastforce
  have "wf_backend b2"
    by (rule on_task_wf [OF assms(1) m])
      (auto simp: eff_simps wf_task_def task_transition_table split: if_splits)
  with assms m Pair b1 show ?thesis by (auto simp: complete_def seq_def bnd_def split: sum.splits)
qed

section \<open>Histories of the backend\<close>

datatype backend_op =
    Op_enqueue datetime task_payload
  | Op_lease datetime datetime string string int
  | Op_heartbeat datetime int string int
  | Op_mark_running int string int
  | Op_complete int string int
  | Op_fail int string int pydict
  | Op_cancel int
  | Op_reap datetime

fun exec_op :: "backend_op \<Rightarrow> in_memory_backend \<Rightarrow> in_memory_backend" where
  "exec_op (Op_enqueue now p) b = snd (enqueue now p b)"
| "exec_op (Op_lease now rn q w n) b = snd (lease now rn q w n b)"
| "exec_op (Op_heartbeat now k w n) b = snd (heartbeat now k w n b)"
| "exec_op (Op_mark_running k w tok) b = snd (mark_running k w tok b)"
| "exec_op (Op_complete k w tok) b = snd (complete k w tok b)"
| "exec_op (Op_fail k w tok e) b = snd (fail k w tok e b)"
| "exec_op (Op_cancel k) b = snd (cancel k b)"
| "exec_op (Op_reap now) b = snd (reap_expired_leases now b)"

definition run_ops :: "backend_op list \<Rightarrow> in_memory_backend \<Rightarrow> in_memory_backend" where
  "run_ops os b = fold exec_op os b"

inductive reachable :: "in_memory_backend \<Rightarrow> bool" where
  start: "reachable init_backend"
| step: "reachable b \<Longrightarrow> reachable (exec_op op b)"

lemma exec_op_wf: "wf_backend b \<Longrightarrow> wf_backend (exec_op op b)"
  by (cases op)
    (auto intro: enqueue_wf lease_wf simple_ops_wf complete_wf fail_wf reap_wf
      simp: prod_eq_iff)

lemma run_ops_wf: "wf_backend b \<Longrightarrow> wf_backend (run_ops os b)"
  by (induction os arbitrary: b) (auto simp: run_ops_def exec_op_wf)

text \<open>
  C18: In every state the in-memory backend can reach, by any interleaving of enqueues, leases,
  heartbeats, completions, failures, cancellations and reaps (successful or raising), task ids are
  distinct and below the id counter, every task is queued without an owner, held with an owner, a
  deadline and a positive fencing token, or final, and every dead-lettered task is in the
  dead-letter list.
\<close>

theorem reachable_wf_backend: "reachable b \<Longrightarrow> wf_backend b"
  by (induction rule: reachable.induct) (auto intro: wf_init exec_op_wf)

theorem reachable_wf_backend_witness:
  "let b = exec_op (Op_lease 5 5 ''default'' ''w1'' 30)
             (exec_op (Op_enqueue 0 (empty_payload\<lparr>p_run_id := Some 7\<rparr>)) init_backend)
   in reachable b \<and> wf_backend b"
proof -
  have "reachable (exec_op (Op_lease 5 5 ''default'' ''w1'' 30)
      (exec_op (Op_enqueue 0 (empty_payload\<lparr>p_run_id := Some 7\<rparr>)) init_backend))"
    by (intro reachable.intros)
  with reachable_wf_backend [OF this] show ?thesis by (simp only: Let_def simp_thms)
qed

section \<open>Leasing\<close>

lemma lease_spec:
  assumes "wf_backend b" and "lease now rn q w n b = (r, b')"
  shows "case lease_choice now q (after_reap rn b) of
      None \<Rightarrow> r = Inr None \<and> b' = after_reap rn b \<and>
        (\<forall>t \<in> set (dvals (tasks (after_reap rn b))). \<not> is_candidate now q t)
    | Some t \<Rightarrow> is_candidate now q t \<and> dget (tasks (after_reap rn b)) (t_task_id t) = Some t \<and>
        (\<forall>u \<in> set (dvals (tasks (after_reap rn b))).
           is_candidate now q u \<longrightarrow> lease_key t \<le> lease_key u) \<and>
        find (\<lambda>u. is_candidate now q u \<and> lease_key u = lease_key t)
          (dvals (tasks (after_reap rn b))) = Some t \<and>
        r = Inr (Some (snapshot (leased_task now w n t))) \<and>
        dget (tasks b') (t_task_id t) = Some (leased_task now w n t) \<and>
        (\<forall>k. k \<noteq> t_task_id t \<longrightarrow> dget (tasks b') k = dget (tasks (after_reap rn b)) k)"
proof (cases "lease_choice now q (after_reap rn b)")
  case None
  then have "filter (is_candidate now q) (dvals (tasks (after_reap rn b))) = []"
    unfolding lease_choice_def by simp
  then show ?thesis using None assms by (simp add: lease_eq filter_empty_conv)
next
  case (Some t)
  have b1: "wf_backend (after_reap rn b)" using assms(1) by (rule after_reap_wf)
  have "find (\<lambda>u. lease_key u = lease_key t)
          (filter (is_candidate now q) (dvals (tasks (after_reap rn b)))) = Some t"
    using Some unfolding lease_choice_def by (rule first_by_stable)
  then have "find (\<lambda>u. is_candidate now q u \<and> lease_key u = lease_key t)
          (dvals (tasks (after_reap rn b))) = Some t"
    by (simp add: find_filter conj_commute)
  then show ?thesis
    using Some assms(2) lease_choice_mem [OF b1 Some]
    by (auto simp: lease_eq [OF assms(1)] Let_def simp del: after_reap_simps)
qed

text \<open>
  C13: A lease first requeues every expired lease. It then returns nothing exactly when no task of
  the queue is queued and due; otherwise it leases the due queued task of highest priority, the
  oldest among equals and the earliest enqueued among those, gives it to the worker with the token
  one above the previous one and a deadline \<open>lease_seconds\<close> ahead, returns its snapshot, and
  changes no other task.
\<close>

theorem lease_functional:
  assumes "wf_backend b" and "lease now rn q w n b = (r, b')"
  shows "case lease_choice now q (after_reap rn b) of
      None \<Rightarrow> r = Inr None \<and> b' = after_reap rn b \<and>
        (\<forall>t \<in> set (dvals (tasks (after_reap rn b))). \<not> is_candidate now q t)
    | Some t \<Rightarrow> is_candidate now q t \<and> dget (tasks (after_reap rn b)) (t_task_id t) = Some t \<and>
        (\<forall>u \<in> set (dvals (tasks (after_reap rn b))).
           is_candidate now q u \<longrightarrow> lease_key t \<le> lease_key u) \<and>
        find (\<lambda>u. is_candidate now q u \<and> lease_key u = lease_key t)
          (dvals (tasks (after_reap rn b))) = Some t \<and>
        r = Inr (Some (snapshot (leased_task now w n t))) \<and>
        dget (tasks b') (t_task_id t) = Some (leased_task now w n t) \<and>
        (\<forall>k. k \<noteq> t_task_id t \<longrightarrow> dget (tasks b') k = dget (tasks (after_reap rn b)) k)"
  using assms by (rule lease_spec)

text \<open>A small backend for the concrete instances: two tasks, the second with the higher priority.\<close>

definition demo_backend :: in_memory_backend where
  "demo_backend = run_ops [Op_enqueue 0 (empty_payload\<lparr>p_run_id := Some 7\<rparr>),
     Op_enqueue 1 (empty_payload\<lparr>p_run_id := Some 8, p_priority := Some 5\<rparr>)] init_backend"

lemma demo_wf: "wf_backend demo_backend"
  unfolding demo_backend_def by (intro run_ops_wf wf_init)

lemma demo_choice: "map_option t_run_id (lease_choice 9 ''default'' (after_reap 9 demo_backend)) = Some 8"
  by code_simp

theorem lease_functional_witness:
  "\<exists>t b'. lease_choice 9 ''default'' (after_reap 9 demo_backend) = Some t \<and> t_run_id t = 8 \<and>
     lease 9 9 ''default'' ''w1'' 30 demo_backend =
       (Inr (Some (snapshot (leased_task 9 ''w1'' 30 t))), b') \<and>
     dget (tasks b') (t_task_id t) = Some (leased_task 9 ''w1'' 30 t)"
proof -
  obtain r b' where l: "lease 9 9 ''default'' ''w1'' 30 demo_backend = (r, b')" by fastforce
  obtain t where "lease_choice 9 ''default'' (after_reap 9 demo_backend) = Some t" "t_run_id t = 8"
    using demo_choice by auto
  with lease_functional [OF demo_wf l] l show ?thesis by auto
qed

section \<open>Fencing\<close>

text \<open>An operation that does not enqueue under an explicit id \<open>k\<close>.\<close>

definition keeps_id :: "int \<Rightarrow> backend_op \<Rightarrow> bool" where
  "keeps_id k op = (case op of Op_enqueue _ p \<Rightarrow> p_task_id p \<noteq> Some k | _ \<Rightarrow> True)"

definition token_at_least :: "int \<Rightarrow> int \<Rightarrow> in_memory_backend \<Rightarrow> bool" where
  "token_at_least k n b \<longleftrightarrow> (\<exists>t. dget (tasks b) k = Some t \<and> n \<le> t_fencing_token t)"

lemma on_task_token:
  assumes "token_at_least k n b" "on_task j m b = (r, b')"
    and "\<And>t r t'. m t = (r, t') \<Longrightarrow> t_fencing_token t \<le> t_fencing_token t'"
  shows "token_at_least k n b'"
proof (cases "dget (tasks b) j")
  case None
  with assms(1,2) show ?thesis by (simp add: eff_simps)
next
  case (Some t)
  then obtain t' where "m t = (r, t')" "b' = b\<lparr>tasks := dset (tasks b) j t'\<rparr>"
    using assms(2) by (auto simp: eff_simps split: prod.splits)
  with assms(1) assms(3) Some show ?thesis by (fastforce simp: token_at_least_def)
qed

lemma enqueue_token:
  "wf_backend b \<Longrightarrow> token_at_least k n b \<Longrightarrow> p_task_id p \<noteq> Some k \<Longrightarrow>
     token_at_least k n (snd (enqueue now p b))"
  by (auto simp: token_at_least_def enqueue_def Let_def or_id_def dest: wf_lookup
      split: option.splits)

lemma lease_token:
  "wf_backend b \<Longrightarrow> token_at_least k n b \<Longrightarrow> token_at_least k n (snd (lease now rn q w m b))"
  by (cases "lease_choice now q (after_reap rn b)")
    (auto simp: lease_eq Let_def token_at_least_def leased_task_def
      dest!: lease_choice_mem(1) [OF after_reap_wf, of b now q rn])

lemma simple_ops_token:
  "token_at_least k n b \<Longrightarrow> heartbeat now j w m b = (r, b') \<Longrightarrow> token_at_least k n b'"
  "token_at_least k n b \<Longrightarrow> cancel j b = (r, b') \<Longrightarrow> token_at_least k n b'"
  "token_at_least k n b \<Longrightarrow> mark_running j w tok b = (r, b') \<Longrightarrow> token_at_least k n b'"
  unfolding heartbeat_def cancel_def mark_running_def owned_task_def
  by (erule (1) on_task_token, force simp: eff_simps task_transition_table split: if_splits)+

lemma fail_token:
  "token_at_least k n b \<Longrightarrow> token_at_least k n (snd (fail j w tok e b))"
  by (auto simp: fail_def on_task_def on_entry_def fail_task_eq bnd_def upd_def ret_def
      token_at_least_def split: option.splits)

lemma complete_token:
  "token_at_least k n b \<Longrightarrow> token_at_least k n (snd (complete j w tok b))"
  by (auto simp: complete_def seq_def bnd_def assert_can_complete_eq token_at_least_def
      on_task_def on_entry_def transition_def set_status_def upd_def
      split: option.splits sum.splits if_splits)

lemma reap_token: "token_at_least k n b \<Longrightarrow> token_at_least k n (after_reap now b)"
  by (auto simp: token_at_least_def)

lemma exec_op_token:
  assumes "wf_backend b" "token_at_least k n b" "keeps_id k op"
  shows "token_at_least k n (exec_op op b)"
  using assms
  by (cases op)
    (auto simp: keeps_id_def enqueue_token lease_token fail_token complete_token
      reap_expired_leases_total reap_token intro: simple_ops_token simp: prod_eq_iff)

lemma run_ops_token:
  "wf_backend b \<Longrightarrow> token_at_least k n b \<Longrightarrow> \<forall>op \<in> set os. keeps_id k op \<Longrightarrow>
     token_at_least k n (run_ops os b)"
  by (induction os arbitrary: b) (auto simp: run_ops_def exec_op_wf exec_op_token)

lemma stale_refused:
  assumes "wf_backend b" "token_at_least k n b" "tok < n"
  shows "complete k w tok b = (Inl (StaleFencingTokenError k), b)"
    and "fail k w tok e b = (Inl (StaleFencingTokenError k), b)"
proof -
  obtain t where t: "dget (tasks b) k = Some t" "tok < t_fencing_token t"
    using assms(2,3) by (auto simp: token_at_least_def)
  moreover have "t_task_id t = k" using wf_lookup assms(1) t(1) by blast
  ultimately show "complete k w tok b = (Inl (StaleFencingTokenError k), b)"
    "fail k w tok e b = (Inl (StaleFencingTokenError k), b)"
    by (simp_all add: complete_def seq_def bnd_def assert_can_complete_eq fail_def on_task_def
        on_entry_def fail_task_eq AList.update_triv)
qed

text \<open>
  C8: Fencing. Once a lease has handed out a token for a task, no holder of a smaller token (an
  earlier lease that expired) can complete or fail that task, whatever operations any worker or the
  reaper performs in between: the attempt raises the stale-token error and leaves the backend as it
  is. The one proviso is that nobody enqueues a new task under the same explicit id.
\<close>

theorem fencing_safety:
  assumes "wf_backend b" and "lease now rn q w n b = (Inr (Some sn), b')"
    and "\<forall>op \<in> set os. keeps_id (sn_task_id sn) op" and "tok < sn_fencing_token sn"
  shows "complete (sn_task_id sn) w' tok (run_ops os b') =
           (Inl (StaleFencingTokenError (sn_task_id sn)), run_ops os b')
       \<and> fail (sn_task_id sn) w' tok e (run_ops os b') =
           (Inl (StaleFencingTokenError (sn_task_id sn)), run_ops os b')"
proof -
  have wf: "wf_backend b'" using assms(1,2) by (rule lease_wf)
  obtain t where t: "lease_choice now q (after_reap rn b) = Some t"
    and sn: "sn = snapshot (leased_task now w n t)"
    and b': "dget (tasks b') (t_task_id t) = Some (leased_task now w n t)"
    using lease_spec [OF assms(1,2)] by (auto split: option.splits)
  have id: "sn_task_id sn = t_task_id t" "sn_fencing_token sn = t_fencing_token t + 1"
    by (simp_all add: sn snapshot_def leased_task_def)
  have "token_at_least (sn_task_id sn) (sn_fencing_token sn) b'"
    unfolding token_at_least_def id using b' by (simp add: leased_task_def)
  then have "token_at_least (sn_task_id sn) (sn_fencing_token sn) (run_ops os b')"
    using run_ops_token wf assms(3) by blast
  with run_ops_wf [OF wf, of os] assms(4) show ?thesis by (simp add: stale_refused)
qed

text \<open>The second task is leased twice: by \<open>w1\<close>, whose lease expires, and then by \<open>w2\<close>.\<close>

definition demo_expired :: in_memory_backend where
  "demo_expired = run_ops [Op_lease 9 9 ''default'' ''w1'' 30] demo_backend"

lemma demo_expired_wf: "wf_backend demo_expired"
  unfolding demo_expired_def by (intro run_ops_wf demo_wf)

lemma demo_second_lease:
  "(case fst (lease 40000000 40000000 ''default'' ''w2'' 30 demo_expired) of
      Inr (Some sn) \<Rightarrow> sn_task_id sn = 2 \<and> sn_fencing_token sn = 2 | _ \<Rightarrow> False)"
  by code_simp

theorem fencing_safety_witness:
  "\<exists>sn b'. lease 40000000 40000000 ''default'' ''w2'' 30 demo_expired = (Inr (Some sn), b') \<and>
     sn_task_id sn = 2 \<and>
     complete 2 ''w1'' 1 (run_ops [Op_mark_running 2 ''w2'' 2] b') =
       (Inl (StaleFencingTokenError 2), run_ops [Op_mark_running 2 ''w2'' 2] b')"
proof -
  obtain sn b' where l: "lease 40000000 40000000 ''default'' ''w2'' 30 demo_expired =
      (Inr (Some sn), b')" and sn: "sn_task_id sn = 2" "sn_fencing_token sn = 2"
    using demo_second_lease
    by (cases "lease 40000000 40000000 ''default'' ''w2'' 30 demo_expired")
      (auto split: sum.splits option.splits)
  have "\<forall>op \<in> set [Op_mark_running 2 ''w2'' 2]. keeps_id (sn_task_id sn) op"
    by (simp add: keeps_id_def)
  from fencing_safety [OF demo_expired_wf l this, of 1 "''w1''" "[]"] l sn show ?thesis by auto
qed

section \<open>The retry budget\<close>

text \<open>One execution that fails: a lease followed by \<open>fail\<close> with the token it handed out.\<close>

fun fail_rounds ::
  "nat \<Rightarrow> datetime \<Rightarrow> string \<Rightarrow> int \<Rightarrow> pydict \<Rightarrow> in_memory_task \<Rightarrow> in_memory_task" where
  "fail_rounds 0 now w n e t = t"
| "fail_rounds (Suc k) now w n e t = fail_rounds k now w n e
     (snd (fail_task w (t_fencing_token t + 1) e (snd (lease_task now w n t))))"

lemma fail_round_queued:
  "t_status t = Task_queued \<Longrightarrow>
     snd (fail_task w (t_fencing_token t + 1) e (snd (lease_task now w n t))) =
       (if t_attempt t + 1 \<ge> t_max_attempts t
        then (leased_task now w n t)\<lparr>t_status := Task_dead_letter, t_error := Some e\<rparr>
        else (leased_task now w n t)\<lparr>t_status := Task_queued, t_error := Some e,
               t_attempt := t_attempt t + 1, t_worker_id := None, t_leased_until := None\<rparr>)"
  by (simp add: lease_task_queued fail_task_eq leased_task_def Let_def)

lemma fail_round_dead:
  "t_status t = Task_dead_letter \<Longrightarrow>
     t_status (snd (fail_task w (t_fencing_token t + 1) e (snd (lease_task now w n t)))) =
       Task_dead_letter"
  by (simp add: lease_task_def seq_def bnd_def transition_def task_transition_table fail_task_eq)

lemma fail_rounds_dead:
  "t_status t = Task_dead_letter \<Longrightarrow> t_status (fail_rounds k now w n e t) = Task_dead_letter"
  by (induction k arbitrary: t) (auto simp: fail_round_dead)

lemma fail_rounds_status:
  "t_status t = Task_queued \<Longrightarrow> t_status (fail_rounds k now w n e t) =
     (if int k < max 1 (t_max_attempts t - t_attempt t) then Task_queued else Task_dead_letter)"
proof (induction k arbitrary: t)
  case 0
  then show ?case by simp
next
  case (Suc k)
  show ?case
  proof (cases "t_attempt t + 1 \<ge> t_max_attempts t")
    case True
    then show ?thesis using Suc.prems by (simp add: fail_round_queued fail_rounds_dead)
  next
    case False
    then show ?thesis using Suc by (simp add: fail_round_queued leased_task_def)
  qed
qed

text \<open>
  C19: Retry budget. A queued task whose every execution fails is retried while fewer than
  \<open>max_attempts - attempt\<close> executions (and at least one) have failed, and is in the dead-letter
  status from then on: the number of executions is exactly the configured budget.
\<close>

theorem retry_budget:
  assumes "t_status t = Task_queued"
  shows "t_status (fail_rounds k now w n e t) =
     (if int k < max 1 (t_max_attempts t - t_attempt t) then Task_queued else Task_dead_letter)"
  using assms by (rule fail_rounds_status)

theorem retry_budget_witness:
  "t_status (fail_rounds 2 0 ''w'' 30 [] (snd (hd (tasks demo_backend)))) = Task_queued \<and>
   t_status (fail_rounds 3 0 ''w'' 30 [] (snd (hd (tasks demo_backend)))) = Task_dead_letter"
proof -
  have h: "t_status (snd (hd (tasks demo_backend))) = Task_queued" by code_simp
  have b: "t_max_attempts (snd (hd (tasks demo_backend))) = 3"
    "t_attempt (snd (hd (tasks demo_backend))) = 0" by code_simp+
  show ?thesis
    using retry_budget [OF h, of 2 0 "''w''" 30 "[]"] retry_budget [OF h, of 3 0 "''w''" 30 "[]"] b
    by simp
qed

text \<open>One execution whose worker dies: a lease, \<open>mark_running\<close>, and the reaper after the deadline.\<close>

fun crash_rounds :: "nat \<Rightarrow> datetime \<Rightarrow> string \<Rightarrow> int \<Rightarrow> in_memory_task \<Rightarrow> in_memory_task" where
  "crash_rounds 0 now w n t = t"
| "crash_rounds (Suc k) now w n t = crash_rounds k now w n
     (snd (reap_task (now + seconds n + 1)
       (snd (seq (lease_task now w n) (seq (transition Task_running) (set_status Task_running)) t))))"

lemma crash_round_queued:
  "t_status t = Task_queued \<Longrightarrow>
     snd (reap_task (now + seconds n + 1)
       (snd (seq (lease_task now w n) (seq (transition Task_running) (set_status Task_running)) t))) =
     t\<lparr>t_status := Task_queued, t_worker_id := None, t_leased_until := None,
       t_heartbeat_at := Some now, t_fencing_token := t_fencing_token t + 1\<rparr>"
  by (simp add: reap_task_total reaped_def expired_def seq_def bnd_def lease_task_queued Let_def
      transition_def set_status_def upd_def task_transition_table)



section \<open>The contract of the worker interface\<close>

definition in_memory_ops :: "datetime \<Rightarrow> datetime \<Rightarrow> in_memory_backend task_backend_ops" where
  "in_memory_ops now rn = \<lparr>op_lease = lease now rn, op_mark_running = mark_running,
     op_assert_can_complete = assert_can_complete, op_will_retry = will_retry,
     op_complete = complete, op_fail = fail\<rparr>"

definition task_view_of :: "in_memory_task \<Rightarrow> task_view" where
  "task_view_of t = \<lparr>v_run_id = t_run_id t, v_status = t_status t, v_worker_id = t_worker_id t,
     v_token = t_fencing_token t, v_attempt = t_attempt t, v_max_attempts = t_max_attempts t\<rparr>"

definition in_memory_view :: "in_memory_backend \<Rightarrow> int \<Rightarrow> task_view option" where
  "in_memory_view b k = map_option task_view_of (dget (tasks b) k)"

lemma view_check_in_memory:
  "wf_backend b \<Longrightarrow> assert_can_complete k w tok b = (view_check k w tok (in_memory_view b k), b)"
  by (auto simp: assert_can_complete_eq view_check_def in_memory_view_def task_view_of_def
      split: option.splits dest: wf_lookup)

lemma in_memory_view_dset:
  "in_memory_view (b\<lparr>tasks := dset (tasks b) k t\<rparr>) = (in_memory_view b)(k \<mapsto> task_view_of t)"
  by (auto simp: in_memory_view_def)

lemma in_memory_view_dead [simp]:
  "in_memory_view (b\<lparr>dead_letters := ds\<rparr>) = in_memory_view b"
  by (auto simp: in_memory_view_def)

lemma in_memory_lease_leases:
  assumes "wf_backend b" "lease now rn q w n b = (Inr (Some sn), b')"
  shows "\<exists>v. in_memory_view b' (sn_task_id sn) = Some v \<and> v_status v = Task_leased \<and>
     v_worker_id v = Some w \<and> v_token v = sn_fencing_token sn \<and> v_run_id v = sn_run_id sn"
  using lease_spec [OF assms]
  by (auto simp: in_memory_view_def task_view_of_def snapshot_def leased_task_def
      split: option.splits)

lemma in_memory_held:
  assumes "in_memory_view b k = Some v"
  obtains t where "dget (tasks b) k = Some t" "v = task_view_of t"
  using assms by (auto simp: in_memory_view_def)

lemma in_memory_mark_running:
  assumes "in_memory_view b k = Some v" "v_token v = tok" "v_worker_id v = Some w"
    "v_status v = Task_leased"
  shows "\<exists>b'. mark_running k w tok b = (Inr (), b') \<and>
     in_memory_view b' = (in_memory_view b)(k \<mapsto> v\<lparr>v_status := Task_running\<rparr>)"
proof -
  obtain t where t: "dget (tasks b) k = Some t" "v = task_view_of t"
    using assms(1) by (rule in_memory_held)
  with assms show ?thesis
    by (simp add: eff_simps task_transition_table in_memory_view_dset task_view_of_def)
qed

lemma in_memory_complete:
  assumes "in_memory_view b k = Some v" "v_token v = tok" "v_worker_id v = Some w"
    "v_status v = Task_running"
  shows "\<exists>b'. complete k w tok b = (Inr (), b') \<and>
     in_memory_view b' = (in_memory_view b)(k \<mapsto> v\<lparr>v_status := Task_succeeded\<rparr>)"
proof -
  obtain t where t: "dget (tasks b) k = Some t" "v = task_view_of t"
    using assms(1) by (rule in_memory_held)
  with assms show ?thesis
    by (simp add: eff_simps task_transition_table in_memory_view_dset task_view_of_def)
qed

lemma in_memory_fail:
  assumes "in_memory_view b k = Some v" "v_token v = tok" "v_worker_id v = Some w"
    "v_status v = Task_running"
  shows "\<exists>b'. fail k w tok e b = (Inr (), b') \<and>
     in_memory_view b' = (in_memory_view b)(k \<mapsto> view_failed v)"
proof -
  obtain t where t: "dget (tasks b) k = Some t" "v = task_view_of t"
    using assms(1) by (rule in_memory_held)
  with assms show ?thesis
    by (auto simp: fail_def on_task_def on_entry_def fail_task_eq bnd_def upd_def ret_def
        in_memory_view_dset task_view_of_def view_failed_def retries_left_def)
qed

interpretation in_memory: runtime_task_backend "in_memory_ops now rn" in_memory_view wf_backend
proof (unfold_locales, unfold in_memory_ops_def task_backend_ops.simps, goal_cases)
  case 1 then show ?case by (rule in_memory_lease_leases)
next
  case 2 then show ?case by (rule lease_wf)
next
  case 3 then show ?case by (rule view_check_in_memory)
next
  case (4 b tid v)
  then show ?case
    by (auto simp: eff_simps in_memory_view_def task_view_of_def retries_left_def AList.update_triv)
next
  case 5 then show ?case using in_memory_mark_running simple_ops_wf(3) by metis
next
  case 6 then show ?case using in_memory_complete complete_wf by metis
next
  case 7 then show ?case using in_memory_fail fail_wf by metis
next
  case (8 b tid w tok x)
  then show ?case by (simp add: complete_def seq_def bnd_def view_check_in_memory)
next
  case (9 b tid w tok x e)
  then show ?case
    by (auto simp: fail_def on_task_def on_entry_def fail_task_eq bnd_def view_check_def
        in_memory_view_def task_view_of_def AList.update_triv wf_lookup
        split: option.splits if_splits)
qed

end
