(* ===== verification/Reaper.thy ===== *)
theory Reaper
  imports In_Memory_Backend
begin

text \<open>
  The lease reaper of \<open>scheduler/reaper.py\<close>: it asks a backend to requeue expired leases, reports
  which tasks were requeued when the backend exposes its tasks, and records a heartbeat. The backend
  is either the in-memory one, whose tasks are visible, or one that only returns a count.
\<close>

record ReaperHeartbeat =
  hb_reaper_id :: string
  hb_status :: string
  hb_heartbeat_at :: datetime
  hb_reaped_count :: int

definition init_reaper :: "string \<Rightarrow> datetime \<Rightarrow> ReaperHeartbeat" where
  "init_reaper rid now = \<lparr>hb_reaper_id = rid, hb_status = ''starting'', hb_heartbeat_at = now,
     hb_reaped_count = 0\<rparr>"

definition record_heartbeat :: "datetime \<Rightarrow> int \<Rightarrow> ReaperHeartbeat \<Rightarrow> ReaperHeartbeat" where
  "record_heartbeat now count hb = \<lparr>hb_reaper_id = hb_reaper_id hb, hb_status = ''running'',
     hb_heartbeat_at = now, hb_reaped_count = count\<rparr>"

text \<open>Tasks held under a lease, before the reaping.\<close>

definition held_before :: "in_memory_backend \<Rightarrow> int list" where
  "held_before b = map fst (filter (\<lambda>(k, t).
     t_status t \<in> {Task_leased, Task_running} \<and> t_leased_until t \<noteq> None) (tasks b))"

text \<open>
  \<open>reap\<close> on a backend with a \<open>tasks\<close> attribute. The Python collects the ids in a set and lists them
  in an order the language leaves open; the model lists them in dictionary order.
\<close>

definition reap ::
  "datetime \<Rightarrow> datetime \<Rightarrow> in_memory_backend \<Rightarrow> ReaperHeartbeat \<Rightarrow>
     (exn + int list) \<times> in_memory_backend \<times> ReaperHeartbeat" where
  "reap now hb_now b hb =
     (let before = held_before b in
      case reap_expired_leases now b of
        (Inl e, b') \<Rightarrow> (Inl e, b', hb)
      | (Inr _, b') \<Rightarrow>
          let reaped_ids = filter (\<lambda>k. case dget (tasks b') k of
                 None \<Rightarrow> False
               | Some t \<Rightarrow> t_status t = Task_queued \<and> t_worker_id t = None) before
          in (Inr reaped_ids, b', record_heartbeat hb_now (int (length reaped_ids)) hb))"

text \<open>\<open>reap\<close> on a backend without that attribute: only the count is recorded.\<close>

definition reap_counting ::
  "('b, int) eff \<Rightarrow> datetime \<Rightarrow> 'b \<Rightarrow> ReaperHeartbeat \<Rightarrow>
     (exn + int list) \<times> 'b \<times> ReaperHeartbeat" where
  "reap_counting reap_backend hb_now b hb =
     (case reap_backend b of
        (Inl e, b') \<Rightarrow> (Inl e, b', hb)
      | (Inr n, b') \<Rightarrow> (Inr [], b', record_heartbeat hb_now n hb))"

lemma reaped_held_iff:
  assumes "wf_task t" "t_status t \<in> {Task_leased, Task_running}"
  shows "t_status (reaped now t) = Task_queued \<and> t_worker_id (reaped now t) = None \<longleftrightarrow> expired now t"
  using assms by (auto simp: reaped_def)

text \<open>
  C21: The reaper is exact. On a well-formed backend it raises nothing, returns the ids of precisely
  the tasks whose lease had expired, records their number in its heartbeat, queues each of them
  without an owner, leaves every other task as it was, and afterwards no lease is expired any more.
\<close>

theorem reap_exact:
  assumes "wf_backend b"
  shows "\<exists>ids b' hb'. reap now hb_now b hb = (Inr ids, b', hb') \<and>
     distinct ids \<and>
     set ids = {k. \<exists>t. dget (tasks b) k = Some t \<and> expired now t} \<and>
     hb_reaped_count hb' = int (length ids) \<and>
     (\<forall>k t. dget (tasks b) k = Some t \<longrightarrow>
        dget (tasks b') k = Some (if k \<in> set ids
          then t\<lparr>t_status := Task_queued, t_worker_id := None, t_leased_until := None\<rparr> else t)) \<and>
     (\<forall>k t. dget (tasks b') k = Some t \<longrightarrow> \<not> expired now t)"
proof -
  define ids where "ids = filter (\<lambda>k. case dget (tasks (after_reap now b)) k of
       None \<Rightarrow> False | Some t \<Rightarrow> t_status t = Task_queued \<and> t_worker_id t = None) (held_before b)"
  have d: "distinct (dkeys (tasks b))" using assms by (simp add: wf_backend_def)
  have held: "k \<in> set (held_before b) \<longleftrightarrow> (\<exists>t. dget (tasks b) k = Some t \<and>
      t_status t \<in> {Task_leased, Task_running} \<and> t_leased_until t \<noteq> None)" for k
    using d by (force simp: held_before_def dest: dget_of_mem map_of_SomeD)
  have expired_held: "expired now t \<Longrightarrow> t_status t \<in> {Task_leased, Task_running} \<and>
      t_leased_until t \<noteq> None" for t
    by (auto simp: expired_def split: option.splits)
  have set: "k \<in> set ids \<longleftrightarrow> (\<exists>t. dget (tasks b) k = Some t \<and> expired now t)" for k
    using held [of k] reaped_held_iff wf_lookup [OF assms] expired_held
    by (fastforce simp: ids_def)
  have "distinct (held_before b)"
    using d by (auto simp: held_before_def distinct_map inj_on_def intro: distinct_filter)
  then have "distinct ids" by (simp add: ids_def)
  moreover have "reap now hb_now b hb =
      (Inr ids, after_reap now b, record_heartbeat hb_now (int (length ids)) hb)"
    by (simp add: reap_def reap_expired_leases_total ids_def Let_def)
  moreover have "dget (tasks (after_reap now b)) k = Some (if k \<in> set ids
      then t\<lparr>t_status := Task_queued, t_worker_id := None, t_leased_until := None\<rparr> else t)"
    if "dget (tasks b) k = Some t" for k t
    using that set [of k] by (auto simp: reaped_def)
  moreover have "\<not> expired now t" if "dget (tasks (after_reap now b)) k = Some t" for k t
    using that by auto
  ultimately show ?thesis using set by (auto simp: record_heartbeat_def)
qed

theorem reap_exact_witness:
  "\<exists>ids b' hb'. reap 40000000 40000000 demo_expired (init_reaper ''lease_reaper'' 0) =
     (Inr ids, b', hb') \<and> set ids = {k. \<exists>t. dget (tasks demo_expired) k = Some t \<and> expired 40000000 t} \<and>
     2 \<in> set ids"
proof -
  have "\<exists>t. dget (tasks demo_expired) 2 = Some t \<and> expired 40000000 t"
  proof -
    have "(case dget (tasks demo_expired) 2 of None \<Rightarrow> False | Some t \<Rightarrow> expired 40000000 t)"
      by code_simp
    then show ?thesis by (auto split: option.splits)
  qed
  with reap_exact [OF demo_expired_wf, of 40000000 40000000 "init_reaper ''lease_reaper'' 0"]
  show ?thesis by blast
qed

end
