(* ===== verification/Json.thy ===== *)
theory Json
  imports Prelude "HOL-Library.Char_ord" "HOL-Library.List_Lexorder"
begin

text \<open>
  What the modelled modules use of Python's \<open>json\<close>: \<open>json.dumps(value, separators=(",", ":"))\<close>, with
  or without \<open>sort_keys=True\<close>, and \<open>json.loads\<close>. The printed text is pure ASCII (the default
  \<open>ensure_ascii\<close>), so its length in characters is its length in bytes. \<open>loads\<close> recurses with fuel
  bounded by the length of the text, which every nested call shortens; \<open>None\<close> is the \<open>ValueError\<close>, and
  also covers numbers with a fraction and characters above 255, which the values here do not hold.
\<close>

section \<open>Printing\<close>

definition hex_char :: "nat \<Rightarrow> char" where
  "hex_char d = (if d < 10 then char_of (48 + d) else char_of (87 + d))"

definition esc_char :: "char \<Rightarrow> string" where
  "esc_char c = (let n = (of_char c :: nat) in
     if n = 34 then [char_of (92 :: nat), c]
     else if n = 92 then [c, c]
     else if 32 \<le> n \<and> n \<le> 126 then [c]
     else if n = 8 then [char_of (92 :: nat), CHR ''b'']
     else if n = 9 then [char_of (92 :: nat), CHR ''t'']
     else if n = 10 then [char_of (92 :: nat), CHR ''n'']
     else if n = 12 then [char_of (92 :: nat), CHR ''f'']
     else if n = 13 then [char_of (92 :: nat), CHR ''r'']
     else [char_of (92 :: nat), CHR ''u'', CHR ''0'', CHR ''0'', hex_char (n div 16), hex_char (n mod 16)])"

definition dq :: char where
  "dq = char_of (34 :: nat)"

definition quote :: "string \<Rightarrow> string" where
  "quote s = dq # concat (map esc_char s) @ [dq]"

fun commas :: "string list \<Rightarrow> string" where
  "commas [] = []"
| "commas [x] = x"
| "commas (x # y # zs) = x @ CHR '','' # commas (y # zs)"

fun dumps :: "pyval \<Rightarrow> string" where
  "dumps VNone = ''null''"
| "dumps (VBool b) = (if b then ''true'' else ''false'')"
| "dumps (VInt i) = dec_int i"
| "dumps (VStr s) = quote s"
| "dumps (VList xs) = CHR ''['' # commas (map dumps xs) @ '']''"
| "dumps (VDict kvs) =
     CHR ''{'' # commas (map (\<lambda>(k, v). quote k @ CHR '':'' # dumps v) kvs) @ ''}''"

text \<open>\<open>sort_keys=True\<close>: the entries of every dictionary in the order of their keys.\<close>

fun sort_keys :: "pyval \<Rightarrow> pyval" where
  "sort_keys (VList xs) = VList (map sort_keys xs)"
| "sort_keys (VDict kvs) = VDict (sort_key fst (map (\<lambda>(k, v). (k, sort_keys v)) kvs))"
| "sort_keys v = v"

definition dumps_sorted :: "pyval \<Rightarrow> string" where
  "dumps_sorted v = dumps (sort_keys v)"

section \<open>Reading\<close>

definition unhex :: "char \<Rightarrow> nat option" where
  "unhex c = (let n = (of_char c :: nat) in
     if 48 \<le> n \<and> n \<le> 57 then Some (n - 48)
     else if 97 \<le> n \<and> n \<le> 102 then Some (n - 87)
     else if 65 \<le> n \<and> n \<le> 70 then Some (n - 55)
     else None)"

definition unescape :: "char \<Rightarrow> char option" where
  "unescape c = (let n = (of_char c :: nat) in
     if n = 34 \<or> n = 92 \<or> n = 47 then Some c
     else if c = CHR ''b'' then Some (char_of (8 :: nat))
     else if c = CHR ''t'' then Some (char_of (9 :: nat))
     else if c = CHR ''n'' then Some (char_of (10 :: nat))
     else if c = CHR ''f'' then Some (char_of (12 :: nat))
     else if c = CHR ''r'' then Some (char_of (13 :: nat))
     else None)"

definition code_unit :: "char \<Rightarrow> char \<Rightarrow> char \<Rightarrow> char \<Rightarrow> char option" where
  "code_unit a b c d = (case (unhex a, unhex b, unhex c, unhex d) of
       (Some i, Some j, Some k, Some l) \<Rightarrow>
         if i = 0 \<and> j = 0 then Some (char_of (16 * k + l)) else None
     | _ \<Rightarrow> None)"

fun parse_str :: "string \<Rightarrow> (string \<times> string) option" where
  "parse_str [] = None"
| "parse_str (c # cs) =
    (if of_char c = (34 :: nat) then Some ([], cs)
     else if of_char c = (92 :: nat) then
       (case cs of
          a # b # d # e # f # ds \<Rightarrow>
            if a = CHR ''u'' then
              (case code_unit b d e f of
                 None \<Rightarrow> None
               | Some x \<Rightarrow> map_option (\<lambda>(s, r). (x # s, r)) (parse_str ds))
            else (case unescape a of
                 None \<Rightarrow> None
               | Some x \<Rightarrow> map_option (\<lambda>(s, r). (x # s, r)) (parse_str (b # d # e # f # ds)))
        | a # ds \<Rightarrow> (case unescape a of
                 None \<Rightarrow> None
               | Some x \<Rightarrow> map_option (\<lambda>(s, r). (x # s, r)) (parse_str ds))
        | [] \<Rightarrow> None)
     else if of_char c < (32 :: nat) then None
     else map_option (\<lambda>(s, r). (c # s, r)) (parse_str cs))"

declare parse_str.simps(2) [simp del]

definition json_space :: "char \<Rightarrow> bool" where
  "json_space c \<longleftrightarrow> c = CHR '' '' \<or> of_char c \<in> {9, 10, 13 :: nat}"

definition skip :: "string \<Rightarrow> string" where
  "skip = dropWhile json_space"

definition parse_number :: "string \<Rightarrow> (pyval \<times> string) option" where
  "parse_number s = (let (neg, t) = (case s of [] \<Rightarrow> (False, []) | c # cs \<Rightarrow>
                                      if c = CHR ''-'' then (True, cs) else (False, s));
                         ds = takeWhile is_digit t; r = dropWhile is_digit t in
     if ds = [] \<or> (hd ds = CHR ''0'' \<and> tl ds \<noteq> []) then None
     else if r \<noteq> [] \<and> hd r \<in> {CHR ''.'', CHR ''e'', CHR ''E''} then None
     else Some (VInt (if neg then - int (undec 0 ds) else int (undec 0 ds)), r))"

definition drop_prefix :: "string \<Rightarrow> string \<Rightarrow> string option" where
  "drop_prefix p s = (if take (length p) s = p then Some (drop (length p) s) else None)"

definition parse_atom :: "string \<Rightarrow> (pyval \<times> string) option" where
  "parse_atom s = (case drop_prefix ''null'' s of Some r \<Rightarrow> Some (VNone, r) | None \<Rightarrow>
     (case drop_prefix ''true'' s of Some r \<Rightarrow> Some (VBool True, r) | None \<Rightarrow>
     (case drop_prefix ''false'' s of Some r \<Rightarrow> Some (VBool False, r) | None \<Rightarrow> parse_number s)))"

text \<open>
  \<open>parse_elems\<close> and \<open>parse_members\<close> read what follows the opening bracket of a non-empty container.
\<close>

fun parse_val :: "nat \<Rightarrow> string \<Rightarrow> (pyval \<times> string) option"
  and parse_elems :: "nat \<Rightarrow> string \<Rightarrow> (pyval list \<times> string) option"
  and parse_members :: "nat \<Rightarrow> string \<Rightarrow> (pydict \<times> string) option" where
  "parse_val 0 s = None"
| "parse_val (Suc n) s = (case skip s of
       [] \<Rightarrow> None
     | c # cs \<Rightarrow>
         if c = CHR ''['' then
           (case skip cs of
              [] \<Rightarrow> None
            | d # ds \<Rightarrow> if d = CHR '']'' then Some (VList [], ds)
                       else map_option (\<lambda>(xs, r). (VList xs, r)) (parse_elems n (d # ds)))
         else if c = CHR ''{'' then
           (case skip cs of
              [] \<Rightarrow> None
            | d # ds \<Rightarrow> if d = CHR ''}'' then Some (VDict [], ds)
                       else map_option (\<lambda>(kvs, r). (VDict (dmerge [] kvs), r)) (parse_members n (d # ds)))
         else if c = dq then map_option (\<lambda>(t, r). (VStr t, r)) (parse_str cs)
         else parse_atom (c # cs))"
| "parse_elems 0 s = None"
| "parse_elems (Suc n) s = (case parse_val n s of
       None \<Rightarrow> None
     | Some (x, r) \<Rightarrow> (case skip r of
           [] \<Rightarrow> None
         | c # cs \<Rightarrow> if c = CHR '']'' then Some ([x], cs)
                    else if c = CHR '','' then map_option (\<lambda>(xs, t). (x # xs, t)) (parse_elems n cs)
                    else None))"
| "parse_members 0 s = None"
| "parse_members (Suc n) s = (case skip s of
       [] \<Rightarrow> None
     | q # cs \<Rightarrow> if q \<noteq> dq then None else
         (case parse_str cs of
            None \<Rightarrow> None
          | Some (k, r) \<Rightarrow> (case skip r of
                [] \<Rightarrow> None
              | e # ds \<Rightarrow> if e \<noteq> CHR '':'' then None else
                  (case parse_val n ds of
                     None \<Rightarrow> None
                   | Some (v, t) \<Rightarrow> (case skip t of
                         [] \<Rightarrow> None
                       | c # us \<Rightarrow> if c = CHR ''}'' then Some ([(k, v)], us)
                                  else if c = CHR '','' then
                                    map_option (\<lambda>(kvs, w). ((k, v) # kvs, w)) (parse_members n us)
                                  else None)))))"

definition loads :: "string \<Rightarrow> pyval option" where
  "loads s = (case parse_val (Suc (length s)) s of
       None \<Rightarrow> None
     | Some (v, r) \<Rightarrow> if skip r = [] then Some v else None)"

section \<open>Reading back what was printed\<close>

lemma unhex_hex [simp]: "d < 16 \<Longrightarrow> unhex (hex_char d) = Some d"
proof -
  assume "d < 16"
  then have "(of_char (hex_char d) :: nat) = (if d < 10 then 48 + d else 87 + d)"
    by (simp add: hex_char_def)
  then show ?thesis using \<open>d < 16\<close> by (auto simp: unhex_def Let_def)
qed

lemma code_unit_hex:
  "code_unit (CHR ''0'') (CHR ''0'') (hex_char (of_char c div 16)) (hex_char (of_char c mod 16)) = Some c"
proof -
  have "(of_char c :: nat) div 16 < 16" using nat_of_char_less_256 [of c] by linarith
  moreover have "unhex (CHR ''0'') = Some 0" by (simp add: unhex_def)
  ultimately show ?thesis by (simp add: code_unit_def)
qed

lemma parse_str_short:
  assumes "a \<noteq> CHR ''u''" "of_char b = (92 :: nat)"
  shows "parse_str (b # a # ds) = (case unescape a of
     None \<Rightarrow> None | Some x \<Rightarrow> map_option (\<lambda>(s, r). (x # s, r)) (parse_str ds))"
  using assms by (subst parse_str.simps(2)) (auto split: list.splits)

lemma parse_str_unit:
  "of_char b = (92 :: nat) \<Longrightarrow> parse_str (b # CHR ''u'' # c # d # e # f # ds) = (case code_unit c d e f of
     None \<Rightarrow> None | Some x \<Rightarrow> map_option (\<lambda>(s, r). (x # s, r)) (parse_str ds))"
  by (subst parse_str.simps(2)) simp

lemma char_eqI: "(of_char c :: nat) = n \<Longrightarrow> c = char_of n"
  by auto

lemma parse_str_esc:
  "parse_str (esc_char c @ rest) = map_option (\<lambda>(s, r). (c # s, r)) (parse_str rest)"
proof -
  let ?n = "of_char c :: nat"
  consider "?n = 34 \<or> ?n = 92" | "?n \<noteq> 34" "?n \<noteq> 92" "32 \<le> ?n" "?n \<le> 126"
    | "?n \<in> {8, 9, 10, 12, 13}" | "\<not> (32 \<le> ?n \<and> ?n \<le> 126)" "?n \<notin> {8, 9, 10, 12, 13}"
    by fastforce
  then show ?thesis
  proof cases
    case 1
    then have "c \<noteq> CHR ''u''" by auto
    with 1 show ?thesis by (auto simp: esc_char_def Let_def parse_str_short unescape_def)
  next
    case 2
    then show ?thesis by (subst esc_char_def) (simp add: Let_def parse_str.simps(2))
  next
    case 3
    then have "c \<in> {char_of (8::nat), char_of (9::nat), char_of (10::nat), char_of (12::nat), char_of (13::nat)}"
      using char_eqI by fastforce
    then show ?thesis by (auto simp: esc_char_def Let_def parse_str_short unescape_def)
  next
    case 4
    then have "esc_char c = [char_of (92 :: nat), CHR ''u'', CHR ''0'', CHR ''0'',
        hex_char (?n div 16), hex_char (?n mod 16)]"
      by (auto simp: esc_char_def Let_def)
    then show ?thesis by (simp add: parse_str_unit code_unit_hex)
  qed
qed

lemma parse_str_quote: "parse_str (concat (map esc_char s) @ dq # rest) = Some (s, rest)"
  by (induction s) (simp_all add: parse_str_esc parse_str.simps(2) dq_def)

text \<open>The text that may follow a value inside a printed document.\<close>

definition ends_value :: "string \<Rightarrow> bool" where
  "ends_value r \<longleftrightarrow> r = [] \<or> hd r \<in> {CHR '','', CHR '']'', CHR ''}''}"

lemma dec_nat_no_leading_zero: "0 < n \<Longrightarrow> hd (dec_nat n) \<noteq> CHR ''0''"
proof (induction n rule: dec_nat.induct)
  case (1 n)
  show ?case
  proof (cases "n < 10")
    case True
    have "digit_char n \<noteq> CHR ''0''"
      using of_char_digit [OF True] 1(2) by auto
    with True show ?thesis by (subst dec_nat.simps) simp
  next
    case False
    with 1 show ?thesis by (subst dec_nat.simps) simp
  qed
qed

lemma dec_nat_span:
  assumes "ends_value r"
  shows "takeWhile is_digit (dec_nat n @ r) = dec_nat n" "dropWhile is_digit (dec_nat n @ r) = r"
proof -
  have "r = [] \<or> \<not> is_digit (hd r)" using assms by (auto simp: ends_value_def is_digit_def)
  then show "takeWhile is_digit (dec_nat n @ r) = dec_nat n" "dropWhile is_digit (dec_nat n @ r) = r"
    using dec_nat_digits [of n] by (cases r; simp add: takeWhile_append dropWhile_append3)+
qed

lemma parse_number_nat:
  assumes "ends_value r" "dec_nat n = c # cs"
  shows "\<not> (c = CHR ''0'' \<and> cs \<noteq> [])" "c \<noteq> CHR ''-''"
proof -
  show "\<not> (c = CHR ''0'' \<and> cs \<noteq> [])"
    using dec_nat_no_leading_zero [of n] assms(2) dec_nat.simps [of n]
    by (cases "n = 0") auto
  show "c \<noteq> CHR ''-''" using dec_nat_digits [of n] assms(2) is_digit_not_sign by auto
qed

lemma parse_number_dec:
  assumes "ends_value r"
  shows "parse_number (dec_int i @ r) = Some (VInt i, r)"
proof -
  have r: "\<not> (r \<noteq> [] \<and> hd r \<in> {CHR ''.'', CHR ''e'', CHR ''E''})"
    using assms by (auto simp: ends_value_def)
  obtain c cs where c: "dec_nat (nat \<bar>i\<bar>) = c # cs" by (cases "dec_nat (nat \<bar>i\<bar>)") auto
  note n = parse_number_nat [OF assms c]
  have "takeWhile is_digit (c # cs @ r) = c # cs" "dropWhile is_digit (c # cs @ r) = r"
    using dec_nat_span [OF assms, of "nat \<bar>i\<bar>"] c by simp_all
  moreover have "undec 0 (c # cs) = nat \<bar>i\<bar>" using undec_dec_nat [of "nat \<bar>i\<bar>"] c by simp
  moreover have "dec_int i = (if i < 0 then CHR ''-'' # c # cs else c # cs)"
    using c by (auto simp: dec_int_def)
  ultimately show ?thesis
    using n r by (auto simp: parse_number_def Let_def)
qed

text \<open>Python dictionaries have distinct keys, at every level of a value.\<close>

fun proper_val :: "pyval \<Rightarrow> bool" where
  "proper_val (VList xs) = (\<forall>x \<in> set xs. proper_val x)"
| "proper_val (VDict kvs) = (distinct (map fst kvs) \<and> (\<forall>(k, v) \<in> set kvs. proper_val v))"
| "proper_val _ = True"

text \<open>What is read back: of two entries with the same key, the later one.\<close>

fun json_canon :: "pyval \<Rightarrow> pyval" where
  "json_canon (VList xs) = VList (map json_canon xs)"
| "json_canon (VDict kvs) = VDict (dmerge [] (map (\<lambda>(k, v). (k, json_canon v)) kvs))"
| "json_canon v = v"

definition starts_value :: "string \<Rightarrow> bool" where
  "starts_value s \<longleftrightarrow> s \<noteq> [] \<and> \<not> json_space (hd s) \<and> hd s \<noteq> CHR '']'' \<and> hd s \<noteq> CHR ''}''"

lemma dec_int_first: "\<exists>c cs. dec_int i = c # cs \<and> (is_digit c \<or> c = CHR ''-'')"
proof -
  obtain c cs where "dec_nat (nat i) = c # cs" by (cases "dec_nat (nat i)") auto
  moreover have "is_digit c" using dec_nat_digits [of "nat i"] calculation by auto
  ultimately show ?thesis by (auto simp: dec_int_def)
qed

lemma of_char_dq [simp]: "of_char dq = (34 :: nat)"
  by (simp add: dq_def)

lemma dq_neq [simp]:
  "dq \<noteq> CHR ''-''" "dq \<noteq> CHR '']''" "dq \<noteq> CHR ''}''" "dq \<noteq> CHR ''[''" "dq \<noteq> CHR ''{''" "dq \<noteq> CHR '' ''"
  "CHR ''n'' \<noteq> dq" "CHR ''t'' \<noteq> dq" "CHR ''f'' \<noteq> dq"
  by code_simp+

lemma number_first:
  assumes "is_digit c \<or> c = CHR ''-''"
  shows "\<not> json_space c" "c \<noteq> CHR '']''" "c \<noteq> CHR ''}''" "c \<noteq> CHR ''[''" "c \<noteq> CHR ''{''" "c \<noteq> dq"
    "c \<noteq> CHR ''n''" "c \<noteq> CHR ''t''" "c \<noteq> CHR ''f''"
  using assms by (auto simp: is_digit_def json_space_def)

lemma starts_number: "starts_value (dec_int i)"
proof -
  obtain c cs where c: "dec_int i = c # cs" "is_digit c \<or> c = CHR ''-''" using dec_int_first by blast
  then show ?thesis using number_first [OF c(2)] by (simp add: starts_value_def)
qed

lemma starts_dumps: "starts_value (dumps v)"
proof (cases v)
  case (VInt i)
  then show ?thesis by (simp add: starts_number)
qed (simp_all add: starts_value_def json_space_def quote_def)

lemma starts_append: "starts_value s \<Longrightarrow> starts_value (s @ r)"
  by (auto simp: starts_value_def)

lemma skip_starts [simp]: "starts_value s \<Longrightarrow> skip s = s"
  by (cases s) (auto simp: starts_value_def skip_def)

lemma skip_punct [simp]:
  "skip (CHR '','' # r) = CHR '','' # r" "skip (CHR '']'' # r) = CHR '']'' # r"
  "skip (CHR ''}'' # r) = CHR ''}'' # r" "skip (CHR '':'' # r) = CHR '':'' # r" "skip (dq # r) = dq # r"
  by (simp_all add: skip_def json_space_def)

lemma ends_punct [simp]:
  "ends_value (CHR '','' # r)" "ends_value (CHR '']'' # r)" "ends_value (CHR ''}'' # r)" "ends_value []"
  by (simp_all add: ends_value_def)

lemma parse_atom_number:
  assumes "ends_value r"
  shows "parse_atom (dec_int i @ r) = Some (VInt i, r)"
proof -
  obtain c cs where c: "dec_int i = c # cs" "is_digit c \<or> c = CHR ''-''" using dec_int_first by blast
  then have "drop_prefix (d # ds) (dec_int i @ r) = None" if "d \<noteq> c" for d ds
    using that by (auto simp: drop_prefix_def)
  then have "drop_prefix ''null'' (dec_int i @ r) = None" "drop_prefix ''true'' (dec_int i @ r) = None"
    "drop_prefix ''false'' (dec_int i @ r) = None"
    using number_first(7-9) [OF c(2)] by simp_all
  then show ?thesis using parse_number_dec [OF assms] by (simp add: parse_atom_def)
qed

lemma parse_val_number:
  assumes "ends_value r"
  shows "parse_val (Suc n) (dec_int i @ r) = Some (VInt i, r)"
proof -
  obtain c cs where c: "dec_int i = c # cs" "is_digit c \<or> c = CHR ''-''" using dec_int_first by blast
  then show ?thesis
    using parse_atom_number [OF assms, of i] number_first [OF c(2)] by (simp add: skip_def)
qed

text \<open>The texts a value is read back from, given enough fuel.\<close>

definition reads :: "pyval \<Rightarrow> bool" where
  "reads v \<longleftrightarrow> (\<forall>n r. ends_value r \<longrightarrow> length (dumps v) < n \<longrightarrow> parse_val n (dumps v @ r) = Some (json_canon v, r))"

lemma readsD: "reads v \<Longrightarrow> ends_value r \<Longrightarrow> length (dumps v) < n \<Longrightarrow> parse_val n (dumps v @ r) = Some (json_canon v, r)"
  by (simp add: reads_def)

lemma parse_elems_commas:
  assumes "\<forall>x \<in> set xs. reads x" "xs \<noteq> []" "length (commas (map dumps xs)) + 1 < n"
  shows "parse_elems n (commas (map dumps xs) @ CHR '']'' # r) = Some (map json_canon xs, r)"
  using assms
proof (induction xs arbitrary: n)
  case (Cons x xs)
  then obtain m where n: "n = Suc m" by (cases n) auto
  show ?case
  proof (cases xs)
    case Nil
    then show ?thesis using Cons.prems readsD [of x "CHR '']'' # r" m] by (simp add: n)
  next
    case (Cons y ys)
    have "reads x" "length (dumps x) < m" using Cons.prems by (simp_all add: n \<open>xs = y # ys\<close>)
    then have "parse_val m (dumps x @ CHR '','' # commas (map dumps xs) @ CHR '']'' # r) =
        Some (json_canon x, CHR '','' # commas (map dumps xs) @ CHR '']'' # r)"
      by (simp add: readsD)
    moreover have "parse_elems m (commas (map dumps xs) @ CHR '']'' # r) = Some (map json_canon xs, r)"
      using Cons.prems by (intro Cons.IH) (auto simp: n \<open>xs = y # ys\<close>)
    ultimately show ?thesis by (simp add: n \<open>xs = y # ys\<close>)
  qed
qed simp

definition member_text :: "string \<times> pyval \<Rightarrow> string" where
  "member_text = (\<lambda>(k, v). quote k @ CHR '':'' # dumps v)"

lemma parse_members_commas:
  assumes "\<forall>(k, v) \<in> set kvs. reads v" "kvs \<noteq> []" "length (commas (map member_text kvs)) + 1 < n"
  shows "parse_members n (commas (map member_text kvs) @ CHR ''}'' # r) = Some (map (\<lambda>(k, v). (k, json_canon v)) kvs, r)"
  using assms
proof (induction kvs arbitrary: n)
  case (Cons kv kvs)
  obtain k v where kv: "kv = (k, v)" by (cases kv)
  obtain m where n: "n = Suc m" using Cons.prems by (cases n) auto
  have rv: "reads v" using Cons.prems by (auto simp: kv)
  have str: "parse_str (concat (map esc_char k) @ dq # t) = Some (k, t)" for t
    by (rule parse_str_quote)
  show ?case
  proof (cases kvs)
    case Nil
    then show ?thesis
      using Cons.prems readsD [OF rv, of "CHR ''}'' # r" m]
      by (simp add: n kv member_text_def quote_def str)
  next
    case (Cons y ys)
    let ?t = "commas (map member_text kvs) @ CHR ''}'' # r"
    have "length (dumps v) < m"
      using Cons.prems by (simp add: n kv \<open>kvs = y # ys\<close> member_text_def quote_def)
    then have "parse_val m (dumps v @ CHR '','' # ?t) = Some (json_canon v, CHR '','' # ?t)"
      using rv by (simp add: readsD)
    moreover have "parse_members m ?t = Some (map (\<lambda>(k, v). (k, json_canon v)) kvs, r)"
      using Cons.prems by (intro Cons.IH) (auto simp: n kv member_text_def \<open>kvs = y # ys\<close>)
    ultimately show ?thesis
      by (simp add: n kv member_text_def quote_def str \<open>kvs = y # ys\<close>)
  qed
qed simp

lemma dmerge_distinct: "distinct (dkeys (a @ b)) \<Longrightarrow> dmerge a b = a @ b"
  by (induction b arbitrary: a) (auto simp: dset_new)

lemma commas_nonempty: "xs \<noteq> [] \<Longrightarrow> starts_value (hd xs) \<Longrightarrow> starts_value (commas xs)"
  by (induction xs rule: commas.induct) (auto intro: starts_append)

lemma parse_val_container:
  "parse_val (Suc n) (CHR ''['' # CHR '']'' # r) = Some (VList [], r)"
  "parse_val (Suc n) (CHR ''{'' # CHR ''}'' # r) = Some (VDict [], r)"
  "starts_value s \<Longrightarrow> parse_val (Suc n) (CHR ''['' # s) = map_option (\<lambda>(xs, r). (VList xs, r)) (parse_elems n s)"
  "starts_value s \<Longrightarrow>
     parse_val (Suc n) (CHR ''{'' # s) = map_option (\<lambda>(kvs, r). (VDict (dmerge [] kvs), r)) (parse_members n s)"
  by (simp_all add: skip_def json_space_def) (cases s; auto simp: starts_value_def json_space_def)+

lemma starts_member: "starts_value (member_text kv)"
  by (simp add: member_text_def quote_def starts_value_def json_space_def split: prod.splits)

lemma reads_list:
  assumes "\<forall>x \<in> set xs. reads x"
  shows "reads (VList xs)"
  unfolding reads_def
proof (intro allI impI)
  fix n r
  assume r: "ends_value r" and n: "length (dumps (VList xs)) < n"
  obtain m where m: "n = Suc m" using n by (cases n) auto
  show "parse_val n (dumps (VList xs) @ r) = Some (json_canon (VList xs), r)"
  proof (cases "xs = []")
    case False
    then have "starts_value (commas (map dumps xs) @ CHR '']'' # r)"
      by (intro starts_append commas_nonempty) (auto simp: starts_dumps hd_map)
    then show ?thesis
      using parse_elems_commas [OF assms False, of m r] n by (simp add: m parse_val_container(3) del: parse_val.simps)
  qed (simp add: m parse_val_container(1) del: parse_val.simps)
qed

lemma reads_dict:
  assumes "\<forall>(k, v) \<in> set kvs. reads v"
  shows "reads (VDict kvs)"
  unfolding reads_def
proof (intro allI impI)
  fix n r
  assume r: "ends_value r" and n: "length (dumps (VDict kvs)) < n"
  have d: "dumps (VDict kvs) = CHR ''{'' # commas (map member_text kvs) @ ''}''"
    by (simp add: member_text_def)
  obtain m where m: "n = Suc m" using n by (cases n) auto
  show "parse_val n (dumps (VDict kvs) @ r) = Some (json_canon (VDict kvs), r)"
  proof (cases "kvs = []")
    case False
    then have "starts_value (commas (map member_text kvs) @ CHR ''}'' # r)"
      by (intro starts_append commas_nonempty) (auto simp: starts_member hd_map)
    then show ?thesis
      using parse_members_commas [OF assms False, of m r] n
      unfolding d by (simp add: m parse_val_container(4) del: parse_val.simps)
  qed (simp add: m parse_val_container(2) del: parse_val.simps)
qed

lemma parse_val_word:
  "parse_val (Suc n) (''null'' @ r) = Some (VNone, r)"
  "parse_val (Suc n) (''true'' @ r) = Some (VBool True, r)"
  "parse_val (Suc n) (''false'' @ r) = Some (VBool False, r)"
  by (simp_all add: skip_def json_space_def parse_atom_def drop_prefix_def)

lemma readsI: "(\<And>n r. ends_value r \<Longrightarrow> parse_val (Suc n) (dumps v @ r) = Some (json_canon v, r)) \<Longrightarrow> reads v"
  unfolding reads_def by (metis less_nat_zero_code not0_implies_Suc)

lemma parse_val_quote: "parse_val (Suc n) (quote s @ r) = Some (VStr s, r)"
  using parse_str_quote [of s r] by (simp add: quote_def)

lemma reads_atoms: "reads VNone" "reads (VBool b)" "reads (VInt i)" "reads (VStr s)"
  by (rule readsI; cases b; simp only: dumps.simps json_canon.simps parse_val_word parse_val_number parse_val_quote if_True if_False)+

lemma reads_all: "reads v"
proof (induction v rule: json_canon.induct)
  case (1 xs)
  then show ?case by (auto intro: reads_list)
next
  case (2 kvs)
  then show ?case by (fastforce intro: reads_dict)
qed (simp_all add: reads_atoms)

lemma loads_dumps_canon: "loads (dumps v) = Some (json_canon v)"
  using readsD [OF reads_all, of "[]" v "Suc (length (dumps v))"]
  by (simp add: loads_def skip_def del: parse_val.simps)

lemma json_canon_proper: "proper_val v \<Longrightarrow> json_canon v = v"
proof (induction v rule: json_canon.induct)
  case (1 xs)
  then show ?case by (simp add: map_idI)
next
  case (2 kvs)
  then have "map (\<lambda>(k, v). (k, json_canon v)) kvs = kvs" by (intro map_idI) fastforce
  then show ?case using 2(2) dmerge_distinct [of "[]" kvs] by simp
qed simp_all

lemma loads_dumps [simp]: "proper_val v \<Longrightarrow> loads (dumps v) = Some v"
  by (simp add: loads_dumps_canon json_canon_proper)

lemma distinct_sort_key: "distinct (map f xs) \<Longrightarrow> distinct (map f (sort_key g xs))"
  by (metis card_distinct distinct_card length_map length_sort set_map set_sort)

lemma proper_sort_keys: "proper_val v \<Longrightarrow> proper_val (sort_keys v)"
proof (induction v rule: sort_keys.induct)
  case (2 kvs)
  have "map fst (map (\<lambda>(k, v). (k, sort_keys v)) kvs) = map fst kvs" by (induction kvs) auto
  with 2 show ?case by (auto simp del: map_map intro: distinct_sort_key)
qed auto

lemma loads_dumps_sorted [simp]: "proper_val v \<Longrightarrow> loads (dumps_sorted v) = Some (sort_keys v)"
  by (simp add: dumps_sorted_def proper_sort_keys)

text \<open>Printed text holds no control character: it never contains a line break.\<close>

lemma esc_char_cases:
  "esc_char c = [c] \<and> (32 :: nat) \<le> of_char c \<or> (\<exists>e. (32 :: nat) \<le> of_char e \<and> esc_char c = [char_of (92 :: nat), e]) \<or>
   esc_char c = [char_of (92 :: nat), CHR ''u'', CHR ''0'', CHR ''0'', hex_char (of_char c div 16),
     hex_char (of_char c mod 16)]"
  using char_eqI [of c 92] by (simp add: esc_char_def Let_def)

lemma esc_char_printable: "CHR 0x0A \<notin> set (esc_char c)"
proof -
  have "\<forall>d \<in> set [0..<16]. hex_char d \<noteq> CHR 0x0A" by code_simp
  then have h: "d < 16 \<Longrightarrow> hex_char d \<noteq> CHR 0x0A" for d by simp
  have d: "(of_char c :: nat) div 16 < 16" using nat_of_char_less_256 [of c] by linarith
  have "char_of (92 :: nat) \<noteq> CHR 0x0A" by code_simp
  then show ?thesis
    using esc_char_cases [of c] h [OF d, symmetric] h [of "of_char c mod 16", symmetric]
    by (elim disjE) auto
qed

lemma commas_set: "set (commas xs) \<subseteq> insert (CHR '','') (\<Union>x \<in> set xs. set x)"
  by (induction xs rule: commas.induct) auto

lemma quote_no_newline: "CHR 0x0A \<notin> set (quote s)"
proof
  assume "CHR 0x0A \<in> set (quote s)"
  moreover have "CHR 0x0A \<noteq> dq" by code_simp
  ultimately obtain c where "CHR 0x0A \<in> set (esc_char c)" by (auto simp: quote_def)
  then show False using esc_char_printable by simp
qed

lemma dumps_no_newline: "CHR 0x0A \<notin> set (dumps v)"
proof (induction v rule: dumps.induct)
  case (3 i)
  have "c \<in> set (dec_nat n) \<Longrightarrow> c \<noteq> CHR 0x0A" for c n
    using dec_nat_digits [of n] by (auto simp: is_digit_def)
  then show ?case by (auto simp: dec_int_def)
next
  case (5 xs)
  then show ?case using commas_set [of "map dumps xs"] by auto
next
  case (6 kvs)
  have "CHR 0x0A \<notin> set (quote k @ CHR '':'' # dumps v)" if "(k, v) \<in> set kvs" for k v
    using 6 that quote_no_newline by auto
  then show ?case
    using commas_set [of "map (\<lambda>(k, v). quote k @ CHR '':'' # dumps v) kvs"] by fastforce
qed (simp_all add: quote_no_newline)

end
