(* ===== verification/Events.thy ===== *)
theory Events
  imports Json
begin

text \<open>
  Events and results of \<open>core/events.py\<close>, and their server-sent-event form of \<open>streaming/sse.py\<close>.
\<close>

section \<open>Events\<close>

record AgentEvent =
  ev_type :: string
  ev_payload :: pydict
  ev_run_id :: "int option"
  ev_attempt_id :: "int option"
  ev_sequence :: "int option"
  ev_event_id :: "string option"
  ev_framework :: "string option"
  ev_created_at :: datetime
  ev_visibility_level :: string

record AgentResult =
  res_output :: pydict
  res_events :: "AgentEvent list"
  res_metadata :: pydict

text \<open>\<open>f"{run_id}:{sequence}"\<close>\<close>

definition event_id_of :: "int \<Rightarrow> int \<Rightarrow> string" where
  "event_id_of run_id sequence = dec_int run_id @ CHR '':'' # dec_int sequence"

definition post_init :: "AgentEvent \<Rightarrow> AgentEvent" where
  "post_init e = (case (ev_event_id e, ev_run_id e, ev_sequence e) of
       (None, Some r, Some n) \<Rightarrow> e\<lparr>ev_event_id := Some (event_id_of r n)\<rparr>
     | _ \<Rightarrow> e)"

text \<open>\<open>AgentEvent(type=..., payload=...)\<close> with the other fields at their defaults.\<close>

definition new_event :: "datetime \<Rightarrow> string \<Rightarrow> pydict \<Rightarrow> AgentEvent" where
  "new_event now ty payload = post_init \<lparr>ev_type = ty, ev_payload = payload, ev_run_id = None,
     ev_attempt_id = None, ev_sequence = None, ev_event_id = None, ev_framework = None,
     ev_created_at = now, ev_visibility_level = ''internal''\<rparr>"

definition new_result :: "pydict \<Rightarrow> AgentResult" where
  "new_result output = \<lparr>res_output = output, res_events = [], res_metadata = []\<rparr>"

lemma event_id_of_inj: "event_id_of r n = event_id_of r' n' \<longleftrightarrow> r = r' \<and> n = n'"
  using split_at_sep [of "dec_int r" "CHR '':''" "dec_int n" "dec_int r'" "dec_int n'"]
  by (auto simp: event_id_of_def dec_int_no_colon dest: dec_int_inj)

section \<open>Server-sent events\<close>

definition nl :: char where
  "nl = CHR 0x0A"

text \<open>\<open>"\n".join(lines)\<close>\<close>

fun join_lines :: "string list \<Rightarrow> string" where
  "join_lines [] = []"
| "join_lines [l] = l"
| "join_lines (l # m # ls) = l @ nl # join_lines (m # ls)"

definition encode_sse_event :: "AgentEvent \<Rightarrow> string" where
  "encode_sse_event event =
     (let lines = (case ev_event_id event of None \<Rightarrow> [] | Some i \<Rightarrow> [''id: '' @ i]) @
                  [''event: '' @ ev_type event, ''data: '' @ dumps (VDict (ev_payload event))]
      in join_lines lines @ [nl, nl])"

text \<open>How a client cuts the text into lines.\<close>

fun split_lines :: "string \<Rightarrow> string list" where
  "split_lines [] = [[]]"
| "split_lines (c # cs) = (if c = nl then [] # split_lines cs
     else (case split_lines cs of [] \<Rightarrow> [[c]] | l # ls \<Rightarrow> (c # l) # ls))"

lemma split_lines_nonempty [simp]: "split_lines s \<noteq> []"
  by (induction s) (auto split: list.splits)

lemma split_lines_line: "nl \<notin> set l \<Longrightarrow> split_lines l = [l]"
  by (induction l) auto

lemma split_lines_append: "nl \<notin> set l \<Longrightarrow> split_lines (l @ nl # s) = l # split_lines s"
  by (induction l) auto

lemma split_join:
  "ls \<noteq> [] \<Longrightarrow> \<forall>l \<in> set ls. nl \<notin> set l \<Longrightarrow> split_lines (join_lines ls @ nl # s) = ls @ split_lines s"
  by (induction ls rule: join_lines.induct) (auto simp: split_lines_append)

text \<open>
  C25: An event whose id and type hold no line break is framed correctly, whatever its payload is:
  the encoded text consists of exactly the id line (when there is an id), the event line, one data
  line and the blank line that ends the frame, and parsing the text after \<open>data: \<close> as JSON gives the
  payload back. A payload can never break out of its frame.
\<close>

theorem sse_framing:
  assumes "nl \<notin> set (ev_type e)" "\<forall>i. ev_event_id e = Some i \<longrightarrow> nl \<notin> set i"
    "proper_val (VDict (ev_payload e))"
  shows "\<exists>d. split_lines (encode_sse_event e) =
      (case ev_event_id e of None \<Rightarrow> [] | Some i \<Rightarrow> [''id: '' @ i]) @
      [''event: '' @ ev_type e, ''data: '' @ d, [], []] \<and> loads d = Some (VDict (ev_payload e))"
proof (intro exI conjI)
  let ?ls = "(case ev_event_id e of None \<Rightarrow> [] | Some i \<Rightarrow> [''id: '' @ i]) @
      [''event: '' @ ev_type e, ''data: '' @ dumps (VDict (ev_payload e))]"
  have "\<forall>l \<in> set ?ls. nl \<notin> set l"
    using assms(1,2) dumps_no_newline [of "VDict (ev_payload e)"]
    by (auto simp: nl_def simp del: dumps.simps split: option.splits)
  then have "split_lines (join_lines ?ls @ nl # [nl]) = ?ls @ split_lines [nl]"
    by (intro split_join) auto
  then show "split_lines (encode_sse_event e) =
      (case ev_event_id e of None \<Rightarrow> [] | Some i \<Rightarrow> [''id: '' @ i]) @
      [''event: '' @ ev_type e, ''data: '' @ dumps (VDict (ev_payload e)), [], []]"
    by (simp add: encode_sse_event_def Let_def del: dumps.simps)
  show "loads (dumps (VDict (ev_payload e))) = Some (VDict (ev_payload e))"
    using assms(3) by (rule loads_dumps)
qed

definition demo_event :: AgentEvent where
  "demo_event = (new_event 7 ''run.note'' [(''text'', VStr [CHR ''a'', nl, nl, CHR ''b''])])
     \<lparr>ev_event_id := Some ''3:1''\<rparr>"

theorem sse_framing_witness:
  "\<exists>d. split_lines (encode_sse_event demo_event) =
      [''id: 3:1'', ''event: run.note'', ''data: '' @ d, [], []] \<and>
      loads d = Some (VDict [(''text'', VStr [CHR ''a'', nl, nl, CHR ''b''])])"
proof -
  have "nl \<notin> set (ev_type demo_event)" "proper_val (VDict (ev_payload demo_event))"
    by (simp_all add: demo_event_def new_event_def post_init_def nl_def)
  moreover have "\<forall>i. ev_event_id demo_event = Some i \<longrightarrow> nl \<notin> set i"
    by (simp add: demo_event_def nl_def)
  ultimately show ?thesis
    using sse_framing [of demo_event]
    by (simp add: demo_event_def new_event_def post_init_def)
qed

end
