(* ===== verification/Fanout.thy ===== *)
theory Fanout
  imports Events
begin

text \<open>
  The in-process fan-out hub of \<open>streaming/fanout.py\<close>. A subscriber object is shared by the hub and
  by the connection that drains it, so the objects live in an explicit store under addresses and the
  hub's dictionaries hold addresses: a subscriber that is dropped by the hub keeps its buffer.
\<close>

section \<open>Subscribers\<close>

record StreamSubscriber =
  sub_subscriber_id :: string
  sub_max_buffer_size :: int
  sub_buffer :: "AgentEvent list"
  sub_disconnected :: bool
  sub_disconnect_reason :: "string option"

definition push :: "AgentEvent \<Rightarrow> (StreamSubscriber, unit) eff" where
  "push event s =
     (if sub_disconnected s then (Inr (), s)
      else if int (length (sub_buffer s)) \<ge> sub_max_buffer_size s
      then (Inl (StreamBackpressureError (sub_subscriber_id s)),
            s\<lparr>sub_disconnected := True, sub_disconnect_reason := Some ''stream_backpressure''\<rparr>)
      else (Inr (), s\<lparr>sub_buffer := sub_buffer s @ [event]\<rparr>))"

definition drain :: "StreamSubscriber \<Rightarrow> AgentEvent list \<times> StreamSubscriber" where
  "drain s = (sub_buffer s, s\<lparr>sub_buffer := []\<rparr>)"

section \<open>The hub\<close>

record fanout_hub =
  fh_max_buffer_size :: int
  fh_subscribers :: "(int \<times> (string \<times> nat) list) list"
  fh_store :: "(nat \<times> StreamSubscriber) list"
  fh_next :: nat

definition init_hub :: "int \<Rightarrow> fanout_hub" where
  "init_hub n = \<lparr>fh_max_buffer_size = n, fh_subscribers = [], fh_store = [], fh_next = 0\<rparr>"

definition subs_of :: "fanout_hub \<Rightarrow> int \<Rightarrow> (string \<times> nat) list" where
  "subs_of hub run_id = or_else (dget (fh_subscribers hub) run_id) []"

definition subscribe :: "int \<Rightarrow> string \<Rightarrow> fanout_hub \<Rightarrow> nat \<times> fanout_hub" where
  "subscribe run_id subscriber_id hub =
     (let subscriber = \<lparr>sub_subscriber_id = subscriber_id,
            sub_max_buffer_size = fh_max_buffer_size hub, sub_buffer = [],
            sub_disconnected = False, sub_disconnect_reason = None\<rparr>;
          a = fh_next hub
      in (a, hub\<lparr>fh_store := dset (fh_store hub) a subscriber, fh_next := a + 1,
                 fh_subscribers := dset (fh_subscribers hub) run_id
                   (dset (subs_of hub run_id) subscriber_id a)\<rparr>))"

definition unsubscribe :: "int \<Rightarrow> string \<Rightarrow> fanout_hub \<Rightarrow> fanout_hub" where
  "unsubscribe run_id subscriber_id hub = (case dget (fh_subscribers hub) run_id of
       None \<Rightarrow> hub
     | Some subs \<Rightarrow> hub\<lparr>fh_subscribers :=
         dset (fh_subscribers hub) run_id (ddel subs subscriber_id)\<rparr>)"

fun publish_to :: "int \<Rightarrow> AgentEvent \<Rightarrow> nat list \<Rightarrow> int \<Rightarrow> fanout_hub \<Rightarrow> int \<times> fanout_hub" where
  "publish_to run_id event [] delivered hub = (delivered, hub)"
| "publish_to run_id event (a # as) delivered hub =
    (case dget (fh_store hub) a of
       None \<Rightarrow> publish_to run_id event as delivered hub
     | Some s \<Rightarrow> (case push event s of
           (Inr _, s') \<Rightarrow> publish_to run_id event as (delivered + 1)
                            (hub\<lparr>fh_store := dset (fh_store hub) a s'\<rparr>)
         | (Inl _, s') \<Rightarrow> publish_to run_id event as delivered
                            (unsubscribe run_id (sub_subscriber_id s')
                              (hub\<lparr>fh_store := dset (fh_store hub) a s'\<rparr>))))"

definition publish :: "int \<Rightarrow> AgentEvent \<Rightarrow> fanout_hub \<Rightarrow> int \<times> fanout_hub" where
  "publish run_id event hub = publish_to run_id event (dvals (subs_of hub run_id)) 0 hub"

definition subscriber_count :: "int \<Rightarrow> fanout_hub \<Rightarrow> int" where
  "subscriber_count run_id hub = int (length (subs_of hub run_id))"

text \<open>A connection drains its own subscriber object.\<close>

definition drain_at :: "nat \<Rightarrow> fanout_hub \<Rightarrow> AgentEvent list \<times> fanout_hub" where
  "drain_at a hub = (case dget (fh_store hub) a of
       None \<Rightarrow> ([], hub)
     | Some s \<Rightarrow> (case drain s of (es, s') \<Rightarrow> (es, hub\<lparr>fh_store := dset (fh_store hub) a s'\<rparr>)))"

section \<open>Invariant\<close>

text \<open>
  Every registered address holds a connected subscriber of that id, no address is registered twice,
  and no buffer exceeds its limit.
\<close>

definition has_room :: "StreamSubscriber \<Rightarrow> bool" where
  "has_room s \<longleftrightarrow> int (length (sub_buffer s)) < sub_max_buffer_size s"

definition registered :: "fanout_hub \<Rightarrow> int \<Rightarrow> string \<Rightarrow> nat \<Rightarrow> bool" where
  "registered hub run sid a \<longleftrightarrow> (sid, a) \<in> set (subs_of hub run)"

definition wf_hub :: "fanout_hub \<Rightarrow> bool" where
  "wf_hub hub \<longleftrightarrow>
     (\<forall>run. distinct (dkeys (subs_of hub run))) \<and>
     (\<forall>a s. dget (fh_store hub) a = Some s \<longrightarrow> a < fh_next hub \<and>
        int (length (sub_buffer s)) \<le> max 0 (sub_max_buffer_size s)) \<and>
     (\<forall>run sid a. registered hub run sid a \<longrightarrow>
        (\<exists>s. dget (fh_store hub) a = Some s \<and> sub_subscriber_id s = sid \<and> \<not> sub_disconnected s)) \<and>
     (\<forall>run sid run' sid' a. registered hub run sid a \<and> registered hub run' sid' a \<longrightarrow>
        run = run' \<and> sid = sid')"

lemma wf_init_hub: "wf_hub (init_hub n)"
  by (simp add: wf_hub_def init_hub_def registered_def subs_of_def)

text \<open>What one publication does to a subscriber.\<close>

definition pushed :: "AgentEvent \<Rightarrow> StreamSubscriber \<Rightarrow> StreamSubscriber" where
  "pushed e s = (if has_room s then s\<lparr>sub_buffer := sub_buffer s @ [e]\<rparr>
     else s\<lparr>sub_disconnected := True, sub_disconnect_reason := Some ''stream_backpressure''\<rparr>)"

lemma push_connected:
  "\<not> sub_disconnected s \<Longrightarrow> push e s =
     (if has_room s then Inr () else Inl (StreamBackpressureError (sub_subscriber_id s)), pushed e s)"
  by (simp add: push_def pushed_def has_room_def)

lemma pushed_id [simp]: "sub_subscriber_id (pushed e s) = sub_subscriber_id s"
  by (simp add: pushed_def)

definition room_at :: "fanout_hub \<Rightarrow> nat \<Rightarrow> bool" where
  "room_at hub a \<longleftrightarrow> (case dget (fh_store hub) a of None \<Rightarrow> False | Some s \<Rightarrow> has_room s)"

lemma unsubscribe_frame [simp]:
  "fh_store (unsubscribe r sid hub) = fh_store hub" "fh_next (unsubscribe r sid hub) = fh_next hub"
  "fh_max_buffer_size (unsubscribe r sid hub) = fh_max_buffer_size hub"
  by (auto simp: unsubscribe_def split: option.splits)

lemma subs_of_unsubscribe:
  "subs_of (unsubscribe r sid hub) r' = (if r' = r then ddel (subs_of hub r) sid else subs_of hub r')"
  by (auto simp: unsubscribe_def subs_of_def or_else_def split: option.splits)

lemma subs_of_store [simp]: "subs_of (hub\<lparr>fh_store := st\<rparr>) r = subs_of hub r"
  by (simp add: subs_of_def)

section \<open>Publishing\<close>

definition dropped :: "fanout_hub \<Rightarrow> nat list \<Rightarrow> string set" where
  "dropped hub as = {sub_subscriber_id s |s a. a \<in> set as \<and> dget (fh_store hub) a = Some s \<and> \<not> has_room s}"

definition after_publish :: "int \<Rightarrow> AgentEvent \<Rightarrow> nat list \<Rightarrow> fanout_hub \<Rightarrow> fanout_hub \<Rightarrow> bool" where
  "after_publish r e as hub hub' \<longleftrightarrow>
     (\<forall>a. dget (fh_store hub') a =
        (if a \<in> set as then map_option (pushed e) (dget (fh_store hub) a) else dget (fh_store hub) a)) \<and>
     subs_of hub' r = filter (\<lambda>(sid, _). sid \<notin> dropped hub as) (subs_of hub r) \<and>
     (\<forall>r'. r' \<noteq> r \<longrightarrow> subs_of hub' r' = subs_of hub r') \<and> fh_next hub' = fh_next hub"

lemma publish_to_spec:
  assumes "distinct as" "\<And>a. a \<in> set as \<Longrightarrow> \<exists>s. dget (fh_store hub) a = Some s \<and> \<not> sub_disconnected s"
  shows "\<exists>hub'. publish_to r e as d hub = (d + int (length (filter (room_at hub) as)), hub') \<and>
     after_publish r e as hub hub'"
  using assms
proof (induction as arbitrary: d hub)
  case Nil
  then show ?case by (simp add: after_publish_def dropped_def)
next
  case (Cons a as)
  obtain s where s: "dget (fh_store hub) a = Some s" "\<not> sub_disconnected s" using Cons.prems by auto
  define h2 where "h2 = (let h1 = hub\<lparr>fh_store := dset (fh_store hub) a (pushed e s)\<rparr> in
    if has_room s then h1 else unsubscribe r (sub_subscriber_id s) h1)"
  have st: "dget (fh_store h2) b = (if b = a then Some (pushed e s) else dget (fh_store hub) b)" for b
    by (auto simp: h2_def Let_def)
  have sub: "subs_of h2 r' = (if r' = r \<and> \<not> has_room s
      then filter (\<lambda>(k, _). sub_subscriber_id s \<noteq> k) (subs_of hub r) else subs_of hub r')" for r'
    by (auto simp: h2_def Let_def subs_of_unsubscribe AList.delete_eq)
  have nx: "fh_next h2 = fh_next hub" by (simp add: h2_def Let_def)
  have "\<exists>x. dget (fh_store h2) b = Some x \<and> \<not> sub_disconnected x" if "b \<in> set as" for b
    using Cons.prems that by (subst st) auto
  then obtain hub' where h: "publish_to r e as (d + (if has_room s then 1 else 0)) h2 =
      (d + (if has_room s then 1 else 0) + int (length (filter (room_at h2) as)), hub')"
    "after_publish r e as h2 hub'"
    using Cons.IH [of h2 "d + (if has_room s then 1 else 0)"] Cons.prems by auto
  have room: "filter (room_at h2) as = filter (room_at hub) as"
    using Cons.prems by (intro filter_cong refl) (auto simp: room_at_def st)
  have "(b \<in> set as \<and> dget (fh_store h2) b = Some x \<and> P) = (b \<in> set as \<and> dget (fh_store hub) b = Some x \<and> P)"
    for b x P using Cons.prems by (auto simp: st)
  then have "dropped h2 as = dropped hub as" unfolding dropped_def by (simp only:)
  then have dr: "dropped hub (a # as) = dropped h2 as \<union> (if has_room s then {} else {sub_subscriber_id s})"
    using s by (auto simp: dropped_def)
  have "subs_of hub' r = filter (\<lambda>(sid, _). sid \<notin> dropped hub (a # as)) (subs_of hub r)"
    using h(2) unfolding dr by (auto simp: after_publish_def sub intro!: filter_cong)
  then have "after_publish r e (a # as) hub hub'"
    using h(2) Cons.prems(1) s by (auto simp: after_publish_def st sub nx)
  moreover have "publish_to r e (a # as) d hub = publish_to r e as (d + (if has_room s then 1 else 0)) h2"
    using s by (simp add: push_connected h2_def Let_def)
  moreover have "room_at hub a = has_room s" using s by (simp add: room_at_def)
  ultimately show ?case using h(1) room by (simp del: publish_to.simps)
qed

lemma wf_hub_subs:
  assumes "wf_hub hub" "(sid, a) \<in> set (subs_of hub r)"
  shows "\<exists>s. dget (fh_store hub) a = Some s \<and> sub_subscriber_id s = sid \<and> \<not> sub_disconnected s"
  using assms by (auto simp: wf_hub_def registered_def)

lemma wf_hub_unique:
  "wf_hub hub \<Longrightarrow> registered hub run sid a \<Longrightarrow> registered hub run' sid' a \<Longrightarrow> run = run' \<and> sid = sid'"
  unfolding wf_hub_def by blast

lemma wf_hub_distinct:
  assumes "wf_hub hub"
  shows "distinct (dvals (subs_of hub r))"
proof -
  have "distinct (subs_of hub r)" using assms by (simp add: wf_hub_def distinct_map)
  moreover have "inj_on snd (set (subs_of hub r))"
    using assms unfolding wf_hub_def registered_def inj_on_def by (metis prod.collapse)
  ultimately show ?thesis by (simp add: distinct_map)
qed

lemma dropped_subs:
  assumes "wf_hub hub" "(sid, a) \<in> set (subs_of hub r)"
  shows "sid \<in> dropped hub (dvals (subs_of hub r)) \<longleftrightarrow> \<not> room_at hub a"
proof
  assume "sid \<in> dropped hub (dvals (subs_of hub r))"
  then obtain b sid' s where b: "(sid', b) \<in> set (subs_of hub r)" "dget (fh_store hub) b = Some s"
    "\<not> has_room s" "sub_subscriber_id s = sid"
    by (auto simp: dropped_def)
  then have "sid' = sid" using wf_hub_subs [OF assms(1) b(1)] by auto
  then have "b = a"
    using assms b(1) by (metis wf_hub_def eq_key_imp_eq_value)
  then show "\<not> room_at hub a" using b by (simp add: room_at_def)
next
  assume "\<not> room_at hub a"
  then show "sid \<in> dropped hub (dvals (subs_of hub r))"
    using wf_hub_subs [OF assms] assms(2) unfolding dropped_def room_at_def
    by (force split: option.splits)
qed

lemma publish_spec:
  assumes "wf_hub hub"
  shows "\<exists>hub'. publish r e hub = (int (length (filter (room_at hub) (dvals (subs_of hub r)))), hub') \<and>
     (\<forall>a. dget (fh_store hub') a = (if a \<in> set (dvals (subs_of hub r))
        then map_option (pushed e) (dget (fh_store hub) a) else dget (fh_store hub) a)) \<and>
     subs_of hub' r = filter (\<lambda>(_, a). room_at hub a) (subs_of hub r) \<and>
     (\<forall>r'. r' \<noteq> r \<longrightarrow> subs_of hub' r' = subs_of hub r') \<and> fh_next hub' = fh_next hub"
proof -
  have "\<exists>s. dget (fh_store hub) a = Some s \<and> \<not> sub_disconnected s" if "a \<in> set (dvals (subs_of hub r))" for a
    using wf_hub_subs [OF assms] that by fastforce
  from publish_to_spec [OF wf_hub_distinct [OF assms] this, of r r e 0]
  obtain hub' where h: "publish r e hub = (int (length (filter (room_at hub) (dvals (subs_of hub r)))), hub')"
    "after_publish r e (dvals (subs_of hub r)) hub hub'"
    by (auto simp: publish_def)
  have "filter (\<lambda>(sid, _). sid \<notin> dropped hub (dvals (subs_of hub r))) (subs_of hub r) =
      filter (\<lambda>(_, a). room_at hub a) (subs_of hub r)"
    using dropped_subs [OF assms] by (intro filter_cong) auto
  with h show ?thesis by (auto simp: after_publish_def)
qed

text \<open>
  Publishing reaches exactly the subscribers of the run that have room: each of them gets the
  event at the end of its buffer and stays registered. A subscriber whose buffer is full is marked
  disconnected for backpressure, keeps what it had buffered and is removed from the hub. Every other
  subscriber object and every other run is untouched, and the returned number counts the deliveries.
\<close>

lemma publish_exact:
  assumes "wf_hub hub" "publish r e hub = (n, hub')"
  shows "n = int (length (filter (room_at hub) (dvals (subs_of hub r)))) \<and>
     subs_of hub' r = filter (\<lambda>(_, a). room_at hub a) (subs_of hub r) \<and>
     (\<forall>a. dget (fh_store hub') a = (if a \<in> set (dvals (subs_of hub r))
        then map_option (\<lambda>s. if has_room s then s\<lparr>sub_buffer := sub_buffer s @ [e]\<rparr>
          else s\<lparr>sub_disconnected := True, sub_disconnect_reason := Some ''stream_backpressure''\<rparr>)
            (dget (fh_store hub) a)
        else dget (fh_store hub) a)) \<and>
     (\<forall>r'. r' \<noteq> r \<longrightarrow> subs_of hub' r' = subs_of hub r')"
proof -
  have "pushed e = (\<lambda>s. if has_room s then s\<lparr>sub_buffer := sub_buffer s @ [e]\<rparr>
      else s\<lparr>sub_disconnected := True, sub_disconnect_reason := Some ''stream_backpressure''\<rparr>)"
    by (simp add: fun_eq_iff pushed_def)
  with publish_spec [OF assms(1), of r e] assms(2) show ?thesis by auto
qed

section \<open>Every operation keeps the invariant\<close>

lemma publish_wf:
  assumes "wf_hub hub" "publish r e hub = (n, hub')"
  shows "wf_hub hub'"
proof -
  obtain st: "\<And>a. dget (fh_store hub') a = (if a \<in> set (dvals (subs_of hub r))
        then map_option (pushed e) (dget (fh_store hub) a) else dget (fh_store hub) a)"
    and su: "subs_of hub' r = filter (\<lambda>(_, a). room_at hub a) (subs_of hub r)"
      "\<And>r'. r' \<noteq> r \<Longrightarrow> subs_of hub' r' = subs_of hub r'" and nx: "fh_next hub' = fh_next hub"
    using publish_spec [OF assms(1), of r e] assms(2) by auto
  have reg: "registered hub' run sid a \<longleftrightarrow> registered hub run sid a \<and> (run = r \<longrightarrow> room_at hub a)"
    for run sid a using su by (cases "run = r") (auto simp: registered_def)
  have 1: "distinct (dkeys (subs_of hub' run))" for run
    using assms(1) su by (cases "run = r") (auto simp: wf_hub_def distinct_map intro: inj_on_subset)
  have 2: "a < fh_next hub' \<and> int (length (sub_buffer s)) \<le> max 0 (sub_max_buffer_size s)"
    if "dget (fh_store hub') a = Some s" for a s
  proof -
    obtain s0 where "dget (fh_store hub) a = Some s0" "s = s0 \<or> s = pushed e s0"
      using \<open>dget (fh_store hub') a = Some s\<close> by (auto simp: st split: if_splits)
    then show ?thesis
      using assms(1) nx by (fastforce simp: wf_hub_def pushed_def has_room_def)
  qed
  have 3: "\<exists>s. dget (fh_store hub') a = Some s \<and> sub_subscriber_id s = sid \<and> \<not> sub_disconnected s"
    if "registered hub' run sid a" for run sid a
  proof -
    have r0: "registered hub run sid a" "run = r \<longrightarrow> room_at hub a" using that reg by auto
    then obtain s where s: "dget (fh_store hub) a = Some s" "sub_subscriber_id s = sid" "\<not> sub_disconnected s"
      using wf_hub_subs [OF assms(1)] by (metis registered_def)
    have "run = r" if "a \<in> set (dvals (subs_of hub r))"
      using that wf_hub_unique [OF assms(1) r0(1)] by (auto simp: registered_def)
    then show ?thesis using s r0(2) by (auto simp: st room_at_def pushed_def)
  qed
  show ?thesis
    using assms(1) 1 2 3 unfolding wf_hub_def reg by blast
qed

lemma fresh_not_registered: "wf_hub hub \<Longrightarrow> \<not> registered hub run sid (fh_next hub)"
  unfolding wf_hub_def by (metis less_irrefl)

lemma subs_of_subscribe:
  "subs_of (snd (subscribe r sid hub)) r' =
     (if r' = r then dset (subs_of hub r) sid (fh_next hub) else subs_of hub r')"
  by (simp add: subscribe_def Let_def subs_of_def or_else_def)

lemma subscribe_wf:
  assumes wf: "wf_hub hub"
  shows "wf_hub (snd (subscribe r sid hub))"
proof -
  let ?h = "snd (subscribe r sid hub)"
  have d: "distinct (dkeys (subs_of hub run))" for run using wf by (simp add: wf_hub_def)
  have reg: "registered ?h run k a \<longleftrightarrow>
      (if run = r \<and> k = sid then a = fh_next hub else registered hub run k a)" for run k a
    using in_dset_iff [OF d] by (auto simp: registered_def subs_of_subscribe)
  have st: "dget (fh_store ?h) a = (if a = fh_next hub
      then Some \<lparr>sub_subscriber_id = sid, sub_max_buffer_size = fh_max_buffer_size hub,
        sub_buffer = [], sub_disconnected = False, sub_disconnect_reason = None\<rparr>
      else dget (fh_store hub) a)" for a
    by (simp add: subscribe_def Let_def)
  have nx: "fh_next ?h = fh_next hub + 1" by (simp add: subscribe_def Let_def)
  have 1: "distinct (dkeys (subs_of ?h run))" for run using d by (simp add: subs_of_subscribe)
  have 2: "a < fh_next ?h \<and> int (length (sub_buffer s)) \<le> max 0 (sub_max_buffer_size s)"
    if "dget (fh_store ?h) a = Some s" for a s
    using that wf by (auto simp: st nx wf_hub_def less_Suc_eq split: if_splits)
  have 3: "\<exists>s. dget (fh_store ?h) a = Some s \<and> sub_subscriber_id s = k \<and> \<not> sub_disconnected s"
    if "registered ?h run k a" for run k a
    using that wf_hub_subs [OF wf] fresh_not_registered [OF wf] unfolding reg st
    by (auto simp: registered_def split: if_splits)
  have 4: "run = run' \<and> k = k'" if "registered ?h run k a" "registered ?h run' k' a" for run k run' k' a
    using that wf fresh_not_registered [OF wf] unfolding reg wf_hub_def by (metis (no_types))
  show ?thesis using 1 2 3 4 unfolding wf_hub_def by blast
qed

lemma unsubscribe_wf:
  assumes "wf_hub hub"
  shows "wf_hub (unsubscribe r sid hub)"
proof -
  have reg: "registered (unsubscribe r sid hub) run k a \<Longrightarrow> registered hub run k a" for run k a
    by (auto simp: registered_def subs_of_unsubscribe AList.delete_eq split: if_splits)
  have "distinct (dkeys (subs_of (unsubscribe r sid hub) run))" for run
    using assms by (simp add: wf_hub_def subs_of_unsubscribe)
  with assms show ?thesis unfolding wf_hub_def unsubscribe_frame using reg by (metis (no_types))
qed

lemma drain_wf:
  assumes "wf_hub hub"
  shows "wf_hub (snd (drain_at a hub))"
proof (cases "dget (fh_store hub) a")
  case (Some s)
  have reg: "registered (snd (drain_at a hub)) = registered hub"
    by (simp add: fun_eq_iff registered_def drain_at_def drain_def Some)
  have "dget (fh_store (snd (drain_at a hub))) b =
      (if b = a then Some (s\<lparr>sub_buffer := []\<rparr>) else dget (fh_store hub) b)" for b
    by (simp add: drain_at_def drain_def Some)
  moreover have "subs_of (snd (drain_at a hub)) = subs_of hub" "fh_next (snd (drain_at a hub)) = fh_next hub"
    by (simp_all add: fun_eq_iff drain_at_def drain_def Some)
  moreover have "\<exists>x. dget (fh_store hub) b = Some x \<and> sub_subscriber_id x = sid \<and> \<not> sub_disconnected x"
    if "registered hub run sid b" for run sid b
    using that wf_hub_subs [OF assms] by (simp add: registered_def)
  then have "sub_subscriber_id s = sid \<and> \<not> sub_disconnected s" if "registered hub run sid a" for run sid
    using that Some by fastforce
  ultimately show ?thesis using assms Some unfolding wf_hub_def reg by auto
qed (simp add: drain_at_def assms)

datatype hub_op =
    Hub_subscribe int string
  | Hub_unsubscribe int string
  | Hub_publish int AgentEvent
  | Hub_drain nat

fun exec_hub :: "hub_op \<Rightarrow> fanout_hub \<Rightarrow> fanout_hub" where
  "exec_hub (Hub_subscribe r sid) hub = snd (subscribe r sid hub)"
| "exec_hub (Hub_unsubscribe r sid) hub = unsubscribe r sid hub"
| "exec_hub (Hub_publish r e) hub = snd (publish r e hub)"
| "exec_hub (Hub_drain a) hub = snd (drain_at a hub)"

lemma exec_hub_wf: "wf_hub hub \<Longrightarrow> wf_hub (exec_hub op hub)"
  by (cases op) (simp_all add: subscribe_wf unsubscribe_wf drain_wf publish_wf [OF _ surjective_pairing])

lemma run_hub_wf: "wf_hub hub \<Longrightarrow> wf_hub (fold exec_hub os hub)"
  by (induction os arbitrary: hub) (simp_all add: exec_hub_wf)

text \<open>
  C24: In every hub reached by any interleaving of subscriptions, publications, drains and
  unsubscriptions, no subscriber buffers more events than its limit, and everything the hub still
  delivers to is a connected subscriber registered under its own id for one run only.
\<close>

theorem hub_bounded:
  assumes "dget (fh_store (fold exec_hub os (init_hub n))) a = Some s"
  shows "int (length (sub_buffer s)) \<le> max 0 (sub_max_buffer_size s) \<and>
     (\<forall>run sid. registered (fold exec_hub os (init_hub n)) run sid a \<longrightarrow>
        sub_subscriber_id s = sid \<and> \<not> sub_disconnected s)"
  using assms run_hub_wf [OF wf_init_hub, of os n] unfolding wf_hub_def
  by (metis option.inject)

definition demo_hub_ops :: "hub_op list" where
  "demo_hub_ops = [Hub_subscribe 1 ''a'', Hub_subscribe 1 ''b'', Hub_publish 1 demo_event, Hub_drain 1]"

theorem hub_bounded_witness:
  "map_option sub_subscriber_id (dget (fh_store (fold exec_hub demo_hub_ops (init_hub 1))) 0) = Some ''a'' \<and>
   map_option (\<lambda>s. int (length (sub_buffer s)) \<le> max 0 (sub_max_buffer_size s))
     (dget (fh_store (fold exec_hub demo_hub_ops (init_hub 1))) 0) = Some True"
proof -
  have "map_option sub_subscriber_id (dget (fh_store (fold exec_hub demo_hub_ops (init_hub 1))) 0) = Some ''a''"
    by code_simp
  then show ?thesis using hub_bounded [of demo_hub_ops 1 0] by auto
qed

end
