(* ===== verification/Redis_Fanout.thy ===== *)
theory Redis_Fanout
  imports Fanout
begin

text \<open>
  The Redis bridge of \<open>streaming/fanout.py\<close>: events are written to a stream as sorted JSON, published
  on a channel, read back on replay and relayed from the channel into a hub. The Redis client is a
  parameter: a record of the calls the bridge makes, on a client state the model does not look into.
\<close>

section \<open>Wire format\<close>

definition opt_int :: "int option \<Rightarrow> pyval" where
  "opt_int x = (case x of None \<Rightarrow> VNone | Some i \<Rightarrow> VInt i)"

definition opt_str :: "string option \<Rightarrow> pyval" where
  "opt_str x = (case x of None \<Rightarrow> VNone | Some s \<Rightarrow> VStr s)"

definition wire_payload :: "int \<Rightarrow> AgentEvent \<Rightarrow> pydict" where
  "wire_payload run_id event =
     [(''run_id'', VInt run_id),
      (''attempt_id'', opt_int (ev_attempt_id event)),
      (''sequence'', opt_int (ev_sequence event)),
      (''event_id'', opt_str (ev_event_id event)),
      (''type'', VStr (ev_type event)),
      (''payload'', VDict (ev_payload event)),
      (''visibility_level'', VStr (ev_visibility_level event))]"

text \<open>\<open>json.loads(str(value))\<close> of the entry's field; the text of a missing field is \<open>None\<close>.\<close>

definition loads_dict :: "string \<Rightarrow> exn + pydict" where
  "loads_dict text = (case loads text of
       None \<Rightarrow> Inl (ValueError ''json'')
     | Some (VDict d) \<Rightarrow> Inr d
     | Some _ \<Rightarrow> Inl AttributeError)"

definition event_payload :: "(string \<times> string) list \<Rightarrow> exn + pydict" where
  "event_payload flds = loads_dict (or_else (dget flds ''event'') ''None'')"

text \<open>\<open>int(x) if x is not None else None\<close>\<close>

definition int_or_none :: "pyval option \<Rightarrow> exn + int option" where
  "int_or_none x = (case x of
       None \<Rightarrow> Inr None
     | Some VNone \<Rightarrow> Inr None
     | Some (VInt i) \<Rightarrow> Inr (Some i)
     | Some (VBool b) \<Rightarrow> Inr (Some (if b then 1 else 0))
     | Some (VStr s) \<Rightarrow> (case parse_int s of None \<Rightarrow> Inl (ValueError s) | Some i \<Rightarrow> Inr (Some i))
     | Some _ \<Rightarrow> Inl TypeError)"

text \<open>
  Fields the dataclass annotates as strings or a dictionary and that hold another kind of value are
  outside the represented events and count as a \<open>TypeError\<close>.
\<close>

definition str_field :: "pyval \<Rightarrow> exn + string" where
  "str_field v = (case v of VStr s \<Rightarrow> Inr s | _ \<Rightarrow> Inl TypeError)"

definition str_or_none :: "pyval option \<Rightarrow> exn + string option" where
  "str_or_none x = (case x of
       None \<Rightarrow> Inr None | Some VNone \<Rightarrow> Inr None | Some (VStr s) \<Rightarrow> Inr (Some s) | _ \<Rightarrow> Inl TypeError)"

definition dict_or_empty :: "pyval option \<Rightarrow> exn + pydict" where
  "dict_or_empty x = (case x of
       None \<Rightarrow> Inr []
     | Some v \<Rightarrow> if \<not> truthy v then Inr [] else (case v of VDict d \<Rightarrow> Inr d | _ \<Rightarrow> Inl TypeError))"

definition bind_sum :: "exn + 'a \<Rightarrow> ('a \<Rightarrow> exn + 'b) \<Rightarrow> exn + 'b" where
  [eff_simps]: "bind_sum m f = (case m of Inl e \<Rightarrow> Inl e | Inr x \<Rightarrow> f x)"

definition event_from_payload :: "datetime \<Rightarrow> pydict \<Rightarrow> exn + AgentEvent" where
  "event_from_payload now payload =
     bind_sum (case dget payload ''type'' of None \<Rightarrow> Inl KeyError | Some v \<Rightarrow> str_field v) (\<lambda>ty.
     bind_sum (dict_or_empty (dget payload ''payload'')) (\<lambda>pl.
     bind_sum (int_or_none (dget payload ''run_id'')) (\<lambda>run_id.
     bind_sum (int_or_none (dget payload ''attempt_id'')) (\<lambda>attempt_id.
     bind_sum (int_or_none (dget payload ''sequence'')) (\<lambda>sequence.
     bind_sum (str_or_none (dget payload ''event_id'')) (\<lambda>event_id.
     bind_sum (str_field (or_else (dget payload ''visibility_level'') (VStr ''internal''))) (\<lambda>vis.
       Inr (post_init \<lparr>ev_type = ty, ev_payload = pl, ev_run_id = run_id,
         ev_attempt_id = attempt_id, ev_sequence = sequence, ev_event_id = event_id,
         ev_framework = None, ev_created_at = now, ev_visibility_level = vis\<rparr>))))))))"

section \<open>The bridge\<close>

record 'c redis_stream_client =
  rc_xadd :: "string \<Rightarrow> (string \<times> string) list \<Rightarrow> 'c \<Rightarrow> string option \<times> 'c"
  rc_publish :: "(string \<Rightarrow> string \<Rightarrow> 'c \<Rightarrow> 'c) option"
  rc_xrange :: "string \<Rightarrow> string \<Rightarrow> string \<Rightarrow> 'c \<Rightarrow> (string \<times> (string \<times> string) list) list"
  rc_pubsub :: "string \<Rightarrow> 'c \<Rightarrow> nat \<times> 'c"
  rc_get_message :: "nat \<Rightarrow> 'c \<Rightarrow> string option \<times> 'c"

record 'c redis_bridge =
  br_client :: 'c
  br_stream_prefix :: string
  br_channel_prefix :: string
  br_pubsubs :: "(int \<times> nat) list"

definition init_bridge :: "'c \<Rightarrow> 'c redis_bridge" where
  "init_bridge c = \<lparr>br_client = c, br_stream_prefix = ''dimoorun:stream'',
     br_channel_prefix = ''dimoorun:fanout'', br_pubsubs = []\<rparr>"

definition run_key :: "string \<Rightarrow> int \<Rightarrow> string" where
  "run_key pre run_id = pre @ '':'' @ dec_int run_id"

definition bridge_publish ::
  "'c redis_stream_client \<Rightarrow> int \<Rightarrow> AgentEvent \<Rightarrow> 'c redis_bridge \<Rightarrow> string option \<times> 'c redis_bridge" where
  "bridge_publish rc run_id event b =
     (let text = dumps_sorted (VDict (wire_payload run_id event));
          (stream_id, c1) = rc_xadd rc (run_key (br_stream_prefix b) run_id) [(''event'', text)] (br_client b);
          c2 = (case rc_publish rc of
                  None \<Rightarrow> c1
                | Some pub \<Rightarrow> pub (run_key (br_channel_prefix b) run_id) text c1)
      in (stream_id, b\<lparr>br_client := c2\<rparr>))"

fun collect :: "(exn + 'a) list \<Rightarrow> exn + 'a list" where
  "collect [] = Inr []"
| "collect (Inl e # xs) = Inl e"
| "collect (Inr x # xs) = (case collect xs of Inl e \<Rightarrow> Inl e | Inr ys \<Rightarrow> Inr (x # ys))"

definition bridge_replay ::
  "'c redis_stream_client \<Rightarrow> datetime \<Rightarrow> int \<Rightarrow> string option \<Rightarrow> 'c redis_bridge \<Rightarrow> exn + AgentEvent list" where
  "bridge_replay rc now run_id last_event_id b =
     (let start = (case last_event_id of None \<Rightarrow> ''-'' | Some i \<Rightarrow> CHR ''('' # i);
          entries = rc_xrange rc (run_key (br_stream_prefix b) run_id) start ''+'' (br_client b)
      in collect (map (\<lambda>(_, flds). bind_sum (event_payload flds) (event_from_payload now)) entries))"

definition relay_once ::
  "'c redis_stream_client \<Rightarrow> datetime \<Rightarrow> int \<Rightarrow> 'c redis_bridge \<Rightarrow> fanout_hub \<Rightarrow>
     (exn + int) \<times> 'c redis_bridge \<times> fanout_hub" where
  "relay_once rc now run_id b hub =
     (let (ps, b1) = (case dget (br_pubsubs b) run_id of
            Some p \<Rightarrow> (p, b)
          | None \<Rightarrow> (case rc_pubsub rc (run_key (br_channel_prefix b) run_id) (br_client b) of
              (p, c) \<Rightarrow> (p, b\<lparr>br_client := c, br_pubsubs := dset (br_pubsubs b) run_id p\<rparr>)));
          (message, c2) = rc_get_message rc ps (br_client b1);
          b2 = b1\<lparr>br_client := c2\<rparr>
      in case message of
           None \<Rightarrow> (Inr 0, b2, hub)
         | Some data \<Rightarrow> (case bind_sum (loads_dict data) (event_from_payload now) of
             Inl e \<Rightarrow> (Inl e, b2, hub)
           | Inr event \<Rightarrow> (case publish run_id event hub of (n, hub') \<Rightarrow> (Inr n, b2, hub'))))"

section \<open>Round trip\<close>

text \<open>The event as a reader of the stream gets it.\<close>

definition received :: "datetime \<Rightarrow> int \<Rightarrow> AgentEvent \<Rightarrow> AgentEvent" where
  "received now run_id e = post_init \<lparr>ev_type = ev_type e,
     ev_payload = (case sort_keys (VDict (ev_payload e)) of VDict d \<Rightarrow> d | _ \<Rightarrow> []),
     ev_run_id = Some run_id, ev_attempt_id = ev_attempt_id e, ev_sequence = ev_sequence e,
     ev_event_id = ev_event_id e, ev_framework = None, ev_created_at = now,
     ev_visibility_level = ev_visibility_level e\<rparr>"

lemma opt_vals [simp]:
  "sort_keys (opt_int x) = opt_int x" "sort_keys (opt_str y) = opt_str y"
  "proper_val (opt_int x)" "proper_val (opt_str y)"
  "int_or_none (Some (opt_int x)) = Inr x" "str_or_none (Some (opt_str y)) = Inr y"
  by (simp_all add: opt_int_def opt_str_def int_or_none_def str_or_none_def split: option.splits)

lemma int_or_none_int [simp]: "int_or_none (Some (VInt i)) = Inr (Some i)"
  by (simp add: int_or_none_def)

lemma wire_proper: "proper_val (VDict (ev_payload e)) \<Longrightarrow> proper_val (VDict (wire_payload r e))"
  by (simp add: wire_payload_def)

lemma dget_sort_key: "distinct (dkeys d) \<Longrightarrow> dget (sort_key fst d) k = dget d k"
  by (metis distinct_sort_key map_of_eqI map_of_is_SomeI dget_Some_in not_None_eq set_sort)

lemma wire_round_trip:
  assumes "proper_val (VDict (ev_payload e))"
  shows "bind_sum (loads_dict (dumps_sorted (VDict (wire_payload r e)))) (event_from_payload now) =
     Inr (received now r e)"
proof -
  let ?w = "map (\<lambda>(k, v). (k, sort_keys v)) (wire_payload r e)"
  have "loads_dict (dumps_sorted (VDict (wire_payload r e))) = Inr (sort_key fst ?w)"
    using wire_proper [OF assms] by (simp add: loads_dict_def)
  moreover have "distinct (dkeys ?w)" by (simp add: wire_payload_def)
  then have "dget (sort_key fst ?w) k = dget ?w k" for k by (rule dget_sort_key)
  ultimately show ?thesis
    by (simp add: eff_simps event_from_payload_def dget_map_vals wire_payload_def str_field_def
        dict_or_empty_def received_def)
qed

text \<open>
  What Redis documents about streams: \<open>XADD\<close> appends one entry to the named stream and changes no
  other stream, \<open>XRANGE - +\<close> lists all entries oldest first, and \<open>PUBLISH\<close> touches no stream.
\<close>

definition stream_laws :: "'c redis_stream_client \<Rightarrow> bool" where
  "stream_laws rc \<longleftrightarrow>
     (\<forall>k f c k'. map snd (rc_xrange rc k' ''-'' ''+'' (snd (rc_xadd rc k f c))) =
        map snd (rc_xrange rc k' ''-'' ''+'' c) @ (if k = k' then [f] else [])) \<and>
     (\<forall>pub ch t c k'. rc_publish rc = Some pub \<longrightarrow>
        rc_xrange rc k' ''-'' ''+'' (pub ch t c) = rc_xrange rc k' ''-'' ''+'' c)"

definition publish_all :: "'c redis_stream_client \<Rightarrow> (int \<times> AgentEvent) list \<Rightarrow> 'c redis_bridge \<Rightarrow> 'c redis_bridge" where
  "publish_all rc = fold (\<lambda>(r, e) b. snd (bridge_publish rc r e b))"

definition entry_of :: "int \<Rightarrow> AgentEvent \<Rightarrow> (string \<times> string) list" where
  "entry_of r e = [(''event'', dumps_sorted (VDict (wire_payload r e)))]"

lemma run_key_inj: "run_key p r = run_key p r' \<longleftrightarrow> r = r'"
  by (auto simp: run_key_def dest: dec_int_inj)

lemma stream_laws_xadd:
  "stream_laws rc \<Longrightarrow> rc_xadd rc k f c = (i, c1) \<Longrightarrow> map snd (rc_xrange rc k' ''-'' ''+'' c1) =
     map snd (rc_xrange rc k' ''-'' ''+'' c) @ (if k = k' then [f] else [])"
  unfolding stream_laws_def by (metis snd_conv)

lemma stream_laws_publish:
  "stream_laws rc \<Longrightarrow> rc_publish rc = Some pub \<Longrightarrow>
     rc_xrange rc k' ''-'' ''+'' (pub ch t c) = rc_xrange rc k' ''-'' ''+'' c"
  unfolding stream_laws_def by blast

lemma bridge_publish_stream:
  assumes "stream_laws rc" "br_stream_prefix b = p"
  shows "map snd (rc_xrange rc (run_key p r) ''-'' ''+'' (br_client (snd (bridge_publish rc r' e b)))) =
      map snd (rc_xrange rc (run_key p r) ''-'' ''+'' (br_client b)) @ (if r' = r then [entry_of r e] else [])"
    "br_stream_prefix (snd (bridge_publish rc r' e b)) = p"
proof -
  let ?k = "run_key p r'" and ?f = "entry_of r' e"
  obtain i c1 where x: "rc_xadd rc ?k ?f (br_client b) = (i, c1)" by fastforce
  have c1: "map snd (rc_xrange rc (run_key p r) ''-'' ''+'' c1) =
      map snd (rc_xrange rc (run_key p r) ''-'' ''+'' (br_client b)) @ (if r' = r then [entry_of r e] else [])"
    using stream_laws_xadd [OF assms(1) x, of "run_key p r"] by (simp add: run_key_inj)
  have "rc_xrange rc (run_key p r) ''-'' ''+'' (br_client (snd (bridge_publish rc r' e b))) =
      rc_xrange rc (run_key p r) ''-'' ''+'' c1"
    using assms(2) x stream_laws_publish [OF assms(1)]
    by (simp add: bridge_publish_def Let_def entry_of_def split: option.splits)
  with c1 show "map snd (rc_xrange rc (run_key p r) ''-'' ''+'' (br_client (snd (bridge_publish rc r' e b)))) =
      map snd (rc_xrange rc (run_key p r) ''-'' ''+'' (br_client b)) @ (if r' = r then [entry_of r e] else [])"
    by simp
  show "br_stream_prefix (snd (bridge_publish rc r' e b)) = p"
    using assms(2) by (simp add: bridge_publish_def Let_def split: prod.splits)
qed

lemma publish_all_stream:
  assumes "stream_laws rc" "br_stream_prefix b = p"
  shows "map snd (rc_xrange rc (run_key p r) ''-'' ''+'' (br_client (publish_all rc msgs b))) =
      map snd (rc_xrange rc (run_key p r) ''-'' ''+'' (br_client b)) @
      map (\<lambda>(_, e). entry_of r e) (filter (\<lambda>(r', _). r' = r) msgs) \<and>
     br_stream_prefix (publish_all rc msgs b) = p"
  using assms(2)
proof (induction msgs arbitrary: b)
  case Nil
  then show ?case by (simp add: publish_all_def)
next
  case (Cons m msgs)
  obtain r' e where m: "m = (r', e)" by (cases m)
  note step = bridge_publish_stream(1) [OF assms(1) Cons.prems, of r r' e]
    bridge_publish_stream(2) [OF assms(1) Cons.prems, of r' e]
  show ?case using Cons.IH [OF step(2)] step by (auto simp: publish_all_def m)
qed

lemma collect_Inr: "collect (map (\<lambda>x. Inr (f x)) xs) = Inr (map f xs)"
  by (induction xs) auto

lemma event_payload_entry:
  "proper_val (VDict (ev_payload e)) \<Longrightarrow>
     bind_sum (event_payload (entry_of r e)) (event_from_payload now) = Inr (received now r e)"
  using wire_round_trip [of e r now] by (simp add: event_payload_def entry_of_def)


text \<open>A client that keeps its streams in lists, as Redis does.\<close>

type_synonym listed_streams = "(string \<times> (string \<times> (string \<times> string) list) list) list"

definition listed_client :: "listed_streams redis_stream_client" where
  "listed_client = \<lparr>
     rc_xadd = (\<lambda>k f c. let es = or_else (dget c k) []; i = dec_int (int (length es) + 1) @ ''-0''
                        in (Some i, dset c k (es @ [(i, f)]))),
     rc_publish = Some (\<lambda>ch t c. c),
     rc_xrange = (\<lambda>k lo hi c. let es = or_else (dget c k) [] in
        if lo = ''-'' then es else drop 1 (dropWhile (\<lambda>(i, _). i \<noteq> drop 1 lo) es)),
     rc_pubsub = (\<lambda>ch c. (0, c)),
     rc_get_message = (\<lambda>n c. (None, c))\<rparr>"

lemma listed_client_laws: "stream_laws listed_client"
  by (auto simp: stream_laws_def listed_client_def Let_def or_else_def split: option.splits)


end
