(* ===== verification/Run_Store.thy ===== *)
theory Run_Store
  imports State_Machine
begin

text \<open>
  Runs and attempts of \<open>runtime/run_manager.py\<close>: the dataclasses, the in-memory run store with its
  guarded status changes, and the contract \<open>RuntimeRunStore\<close> a worker relies on. Operations on a run
  or an attempt are computations on its record, so an operation that raises keeps the assignments
  made before the raise.
\<close>

section \<open>Runs, attempts and the store\<close>

record RuntimeRun =
  r_run_id :: int
  r_tenant_id :: int
  r_project_id :: int
  r_agent_id :: int
  r_agent_version_id :: int
  r_deployment_id :: "int option"
  r_input_data :: pydict
  r_override_config :: pydict
  r_status :: RunStatus
  r_thread_id :: "string option"
  r_output :: "pydict option"
  r_error :: "pydict option"
  r_created_at :: datetime

record RuntimeAttempt =
  a_attempt_id :: int
  a_run_id :: int
  a_task_id :: int
  a_worker_id :: string
  a_attempt_no :: int
  a_status :: RunAttemptStatus
  a_started_at :: datetime
  a_finished_at :: "datetime option"
  a_error :: "pydict option"

record run_store =
  runs :: "(int \<times> RuntimeRun) list"
  attempts :: "(int \<times> RuntimeAttempt) list"
  next_run_id :: int
  next_attempt_id :: int

definition init_run_store :: run_store where
  "init_run_store = \<lparr>runs = [], attempts = [], next_run_id = 1, next_attempt_id = 1\<rparr>"

section \<open>Operations\<close>

definition create_run ::
  "datetime \<Rightarrow> int \<Rightarrow> int \<Rightarrow> int \<Rightarrow> int \<Rightarrow> int option \<Rightarrow> pydict \<Rightarrow> pydict option \<Rightarrow> string option \<Rightarrow>
     int option \<Rightarrow> (run_store, RuntimeRun) eff" where
  "create_run now tenant project agent version deployment input_data override_config thread run_id s =
     (let run = \<lparr>r_run_id = or_id run_id (next_run_id s), r_tenant_id = tenant,
                 r_project_id = project, r_agent_id = agent, r_agent_version_id = version,
                 r_deployment_id = deployment, r_input_data = input_data,
                 r_override_config = or_else override_config [], r_status = Run_pending,
                 r_thread_id = thread, r_output = None, r_error = None, r_created_at = now\<rparr>;
          s1 = (case run_id of
                  None \<Rightarrow> s\<lparr>next_run_id := next_run_id s + 1\<rparr>
                | Some i \<Rightarrow> s\<lparr>next_run_id := max (next_run_id s) (i + 1)\<rparr>)
      in (Inr run, s1\<lparr>runs := dset (runs s1) (r_run_id run) run\<rparr>))"

definition on_run :: "int \<Rightarrow> (RuntimeRun, 'a) eff \<Rightarrow> (run_store, 'a) eff" where
  [eff_simps]: "on_run = on_entry runs (\<lambda>rs s. s\<lparr>runs := rs\<rparr>)"

definition on_attempt :: "int \<Rightarrow> (RuntimeAttempt, 'a) eff \<Rightarrow> (run_store, 'a) eff" where
  [eff_simps]: "on_attempt = on_entry attempts (\<lambda>as s. s\<lparr>attempts := as\<rparr>)"

definition run_transition :: "RunStatus \<Rightarrow> (RuntimeRun, unit) eff" where
  [eff_simps]: "run_transition target = (\<lambda>r. (assert_run_transition (r_status r) target, r))"

definition set_run_status :: "RunStatus \<Rightarrow> (RuntimeRun, unit) eff" where
  [eff_simps]: "set_run_status st = upd (\<lambda>r. r\<lparr>r_status := st\<rparr>)"

definition attempt_transition :: "RunAttemptStatus \<Rightarrow> (RuntimeAttempt, unit) eff" where
  [eff_simps]:
  "attempt_transition target = (\<lambda>a. (assert_run_attempt_transition (a_status a) target, a))"

definition start_run :: "(RuntimeRun, unit) eff" where
  [eff_simps]: "start_run = when_st (\<lambda>r. r_status r \<noteq> Run_running)
     (seq (run_transition Run_running) (set_run_status Run_running))"

definition create_attempt ::
  "datetime \<Rightarrow> int \<Rightarrow> int \<Rightarrow> string \<Rightarrow> (run_store, RuntimeAttempt) eff" where
  "create_attempt now run_id task_id worker_id s =
     (let attempt_no = int (length (filter (\<lambda>a. a_run_id a = run_id) (dvals (attempts s)))) + 1;
          attempt = \<lparr>a_attempt_id = next_attempt_id s, a_run_id = run_id, a_task_id = task_id,
                     a_worker_id = worker_id, a_attempt_no = attempt_no,
                     a_status = Attempt_running, a_started_at = now, a_finished_at = None,
                     a_error = None\<rparr>;
          s1 = s\<lparr>next_attempt_id := next_attempt_id s + 1,
                 attempts := dset (attempts s) (next_attempt_id s) attempt\<rparr>
      in bnd (on_run run_id start_run) (\<lambda>_. ret attempt) s1)"

definition get_run :: "int \<Rightarrow> (run_store, RuntimeRun) eff" where
  [eff_simps]: "get_run run_id = on_run run_id (gets id)"

text \<open>A pending run is first marked running, as \<open>complete_run\<close>, \<open>fail_run\<close> and \<open>timeout_run\<close> do.\<close>

definition promote_pending :: "(RuntimeRun, unit) eff" where
  [eff_simps]: "promote_pending = when_st (\<lambda>r. r_status r = Run_pending)
     (seq (run_transition Run_running) (set_run_status Run_running))"

definition complete_run :: "int \<Rightarrow> pydict \<Rightarrow> (run_store, unit) eff" where
  [eff_simps]: "complete_run run_id output = on_run run_id
     (seq promote_pending (seq (run_transition Run_succeeded)
       (upd (\<lambda>r. r\<lparr>r_status := Run_succeeded, r_output := Some output\<rparr>))))"

definition fail_run :: "int \<Rightarrow> pydict \<Rightarrow> (run_store, unit) eff" where
  [eff_simps]: "fail_run run_id error = on_run run_id
     (seq promote_pending (seq (run_transition Run_failed)
       (upd (\<lambda>r. r\<lparr>r_status := Run_failed, r_error := Some error\<rparr>))))"

definition timeout_run :: "int \<Rightarrow> pydict \<Rightarrow> (run_store, unit) eff" where
  [eff_simps]: "timeout_run run_id error = on_run run_id
     (seq promote_pending (seq (run_transition Run_timeout)
       (upd (\<lambda>r. r\<lparr>r_status := Run_timeout, r_error := Some error\<rparr>))))"

definition mark_run_running :: "int \<Rightarrow> (run_store, unit) eff" where
  [eff_simps]: "mark_run_running run_id = on_run run_id start_run"

definition cancel_run :: "int \<Rightarrow> (run_store, unit) eff" where
  [eff_simps]: "cancel_run run_id = on_run run_id
     (seq (run_transition Run_cancelled) (set_run_status Run_cancelled))"

definition delete_run :: "int \<Rightarrow> (run_store, unit) eff" where
  [eff_simps]: "delete_run run_id = upd (\<lambda>s. s\<lparr>runs := ddel (runs s) run_id\<rparr>)"

definition complete_attempt :: "datetime \<Rightarrow> int \<Rightarrow> (run_store, unit) eff" where
  [eff_simps]: "complete_attempt now attempt_id = on_attempt attempt_id
     (seq (attempt_transition Attempt_succeeded)
       (upd (\<lambda>a. a\<lparr>a_status := Attempt_succeeded, a_finished_at := Some now\<rparr>)))"

definition fail_attempt :: "datetime \<Rightarrow> int \<Rightarrow> pydict \<Rightarrow> (run_store, unit) eff" where
  [eff_simps]: "fail_attempt now attempt_id error = on_attempt attempt_id
     (seq (attempt_transition Attempt_failed)
       (upd (\<lambda>a. a\<lparr>a_status := Attempt_failed, a_error := Some error,
                    a_finished_at := Some now\<rparr>)))"

definition timeout_attempt :: "datetime \<Rightarrow> int \<Rightarrow> pydict \<Rightarrow> (run_store, unit) eff" where
  [eff_simps]: "timeout_attempt now attempt_id error = on_attempt attempt_id
     (seq (attempt_transition Attempt_timeout)
       (upd (\<lambda>a. a\<lparr>a_status := Attempt_timeout, a_error := Some error,
                    a_finished_at := Some now\<rparr>)))"

section \<open>Governance bundle\<close>

record RuntimeGovernanceBundle =
  g_secret_provider :: "pyval option"
  g_model_gateway :: "pyval option"
  g_tool_gateway :: "pyval option"

definition governance_services :: "RuntimeGovernanceBundle \<Rightarrow> pydict" where
  "governance_services g = List.map_filter (\<lambda>(k, v). map_option (\<lambda>x. (k, x)) v)
     [(''secrets'', g_secret_provider g), (''model_gateway'', g_model_gateway g),
      (''tools'', g_tool_gateway g)]"

definition apply_bundle :: "RuntimeGovernanceBundle \<Rightarrow> pydict \<Rightarrow> pydict" where
  "apply_bundle g runtime_config =
     (let services = governance_services g
      in if services = [] then runtime_config
         else dset runtime_config ''governance'' (VDict services))"

section \<open>Invariant\<close>

text \<open>
  Ids are distinct and below the counters, an attempt is unfinished exactly while it is running, and
  the attempts of a run are numbered 1, 2, 3, \<dots> in the order they were created.
\<close>

definition attempt_nos :: "int \<Rightarrow> (int \<times> RuntimeAttempt) list \<Rightarrow> int list" where
  "attempt_nos rid as = map a_attempt_no (filter (\<lambda>a. a_run_id a = rid) (dvals as))"

definition numbered :: "(int \<times> RuntimeAttempt) list \<Rightarrow> bool" where
  "numbered as \<longleftrightarrow>
     (\<forall>rid. attempt_nos rid as = map (\<lambda>i. int i + 1) [0..<length (attempt_nos rid as)])"

definition wf_run :: "int \<Rightarrow> int \<Rightarrow> RuntimeRun \<Rightarrow> bool" where
  "wf_run n k r \<longleftrightarrow> r_run_id r = k \<and> k < n"

definition wf_attempt :: "int \<Rightarrow> int \<Rightarrow> RuntimeAttempt \<Rightarrow> bool" where
  "wf_attempt n k a \<longleftrightarrow> a_attempt_id a = k \<and> k < n \<and>
     (a_finished_at a = None \<longleftrightarrow> a_status a = Attempt_running)"

definition wf_store :: "run_store \<Rightarrow> bool" where
  "wf_store s \<longleftrightarrow> distinct (dkeys (runs s)) \<and> distinct (dkeys (attempts s)) \<and>
     all_entries (wf_run (next_run_id s)) (runs s) \<and>
     all_entries (wf_attempt (next_attempt_id s)) (attempts s) \<and> numbered (attempts s)"

lemma wf_init_store: "wf_store init_run_store"
  by (simp add: wf_store_def init_run_store_def numbered_def attempt_nos_def)

lemma wf_store_run:
  "wf_store s \<Longrightarrow> dget (runs s) k = Some r \<Longrightarrow> r_run_id r = k \<and> k < next_run_id s"
  by (auto simp: wf_store_def wf_run_def dest: all_entriesD)

lemma wf_store_attempt:
  "wf_store s \<Longrightarrow> dget (attempts s) k = Some a \<Longrightarrow> wf_attempt (next_attempt_id s) k a"
  by (auto simp: wf_store_def dest: all_entriesD)

lemma on_run_frame:
  "on_run k m s = (r, s') \<Longrightarrow> attempts s' = attempts s \<and> next_run_id s' = next_run_id s \<and>
     next_attempt_id s' = next_attempt_id s"
  by (auto simp: eff_simps split: option.splits prod.splits)

lemma on_attempt_frame:
  "on_attempt k m s = (r, s') \<Longrightarrow> runs s' = runs s \<and> next_run_id s' = next_run_id s \<and>
     next_attempt_id s' = next_attempt_id s"
  by (auto simp: eff_simps split: option.splits prod.splits)

lemma on_run_wf:
  assumes "wf_store s" "on_run k m s = (r, s')"
    and "\<And>x r x'. m x = (r, x') \<Longrightarrow> r_run_id x' = r_run_id x"
  shows "wf_store s'"
proof (cases "dget (runs s) k")
  case None
  with assms show ?thesis by (simp add: eff_simps)
next
  case (Some x)
  then obtain x' where "m x = (r, x')" "s' = s\<lparr>runs := dset (runs s) k x'\<rparr>"
    using assms(2) by (auto simp: eff_simps split: prod.splits)
  with assms(1) assms(3) wf_store_run [OF assms(1) Some] show ?thesis
    by (auto simp: wf_store_def wf_run_def)
qed

lemma on_attempt_wf:
  assumes "wf_store s" "on_attempt k m s = (r, s')"
    and "\<And>x r x'. m x = (r, x') \<Longrightarrow> a_attempt_id x' = a_attempt_id x \<and> a_run_id x' = a_run_id x \<and>
           a_attempt_no x' = a_attempt_no x \<and>
           ((a_finished_at x = None \<longleftrightarrow> a_status x = Attempt_running) \<longrightarrow>
            (a_finished_at x' = None \<longleftrightarrow> a_status x' = Attempt_running))"
  shows "wf_store s'"
proof (cases "dget (attempts s) k")
  case None
  with assms show ?thesis by (simp add: eff_simps)
next
  case (Some x)
  then obtain x' where x': "m x = (r, x')" and s': "s' = s\<lparr>attempts := dset (attempts s) k x'\<rparr>"
    using assms(2) by (auto simp: eff_simps split: prod.splits)
  have "attempt_nos rid (attempts s') = attempt_nos rid (attempts s)" for rid
    using assms(1) Some assms(3) [OF x'] unfolding attempt_nos_def s'
    by (simp add: map_filter_dset wf_store_def)
  then have "numbered (attempts s')" using assms(1) by (simp add: numbered_def wf_store_def)
  with assms(1) assms(3) [OF x'] wf_store_attempt [OF assms(1) Some] show ?thesis
    by (auto simp: wf_store_def s' wf_attempt_def)
qed

lemma run_stored_wf:
  assumes "wf_store s" "r_run_id r < n" "next_run_id s \<le> n"
  shows "wf_store (s\<lparr>next_run_id := n, runs := dset (runs s) (r_run_id r) r\<rparr>)"
proof -
  have "all_entries (wf_run n) (runs s)"
    using assms(1,3) by (auto simp: wf_store_def wf_run_def intro: all_entries_mono)
  then have "all_entries (wf_run n) (dset (runs s) (r_run_id r) r)"
    using assms(2) by (auto simp: wf_run_def)
  then show ?thesis using assms(1) by (simp add: wf_store_def)
qed

lemma create_run_eq:
  "\<exists>run. r_run_id run = or_id run_id (next_run_id s) \<and> r_status run = Run_pending \<and>
     r_tenant_id run = tn \<and> r_project_id run = pj \<and> r_agent_id run = ag \<and>
     r_agent_version_id run = ve \<and> r_deployment_id run = dp \<and> r_input_data run = inp \<and>
     create_run now tn pj ag ve dp inp ov th run_id s = (Inr run,
       s\<lparr>next_run_id := (case run_id of None \<Rightarrow> next_run_id s + 1
                         | Some i \<Rightarrow> max (next_run_id s) (i + 1)),
         runs := dset (runs s) (r_run_id run) run\<rparr>)"
  by (auto simp: create_run_def Let_def split: option.splits)

lemma create_run_wf:
  assumes "wf_store s" "run_id \<noteq> Some 0"
    "create_run now tn pj ag ve dp inp ov th run_id s = (r, s')"
  shows "wf_store s'"
proof -
  obtain run where "r_run_id run = or_id run_id (next_run_id s)"
    and "s' = s\<lparr>next_run_id := (case run_id of None \<Rightarrow> next_run_id s + 1
                         | Some i \<Rightarrow> max (next_run_id s) (i + 1)),
         runs := dset (runs s) (r_run_id run) run\<rparr>"
    using create_run_eq [of run_id s tn pj ag ve dp inp now ov th] assms(3) by auto
  moreover have "or_id run_id (next_run_id s) < (case run_id of None \<Rightarrow> next_run_id s + 1
                         | Some i \<Rightarrow> max (next_run_id s) (i + 1))"
    "next_run_id s \<le> (case run_id of None \<Rightarrow> next_run_id s + 1
                         | Some i \<Rightarrow> max (next_run_id s) (i + 1))"
    using assms(2) by (auto simp: or_id_def split: option.splits)
  ultimately show ?thesis using run_stored_wf [OF assms(1)] by metis
qed

lemma delete_run_wf: "wf_store s \<Longrightarrow> delete_run k s = (r, s') \<Longrightarrow> wf_store s'"
  by (auto simp: wf_store_def delete_run_def upd_def)

lemma run_ops_wf_store:
  "wf_store s \<Longrightarrow> complete_run k d s = (r, s') \<Longrightarrow> wf_store s'"
  "wf_store s \<Longrightarrow> fail_run k d s = (r, s') \<Longrightarrow> wf_store s'"
  "wf_store s \<Longrightarrow> timeout_run k d s = (r, s') \<Longrightarrow> wf_store s'"
  "wf_store s \<Longrightarrow> mark_run_running k s = (r, s') \<Longrightarrow> wf_store s'"
  "wf_store s \<Longrightarrow> cancel_run k s = (r, s') \<Longrightarrow> wf_store s'"
  unfolding complete_run_def fail_run_def timeout_run_def mark_run_running_def cancel_run_def
  by (erule (1) on_run_wf, force simp: eff_simps run_transition_table split: if_splits)+

lemma attempt_ops_wf_store:
  "wf_store s \<Longrightarrow> complete_attempt now k s = (r, s') \<Longrightarrow> wf_store s'"
  "wf_store s \<Longrightarrow> fail_attempt now k d s = (r, s') \<Longrightarrow> wf_store s'"
  "wf_store s \<Longrightarrow> timeout_attempt now k d s = (r, s') \<Longrightarrow> wf_store s'"
  unfolding complete_attempt_def fail_attempt_def timeout_attempt_def
  by (erule (1) on_attempt_wf, force simp: eff_simps attempt_transition_table split: if_splits)+

lemma next_attempt_new:
  "wf_store s \<Longrightarrow> dget (attempts s) (next_attempt_id s) = None"
  by (cases "dget (attempts s) (next_attempt_id s)") (auto simp: wf_attempt_def dest: wf_store_attempt)

definition new_attempt :: "datetime \<Rightarrow> int \<Rightarrow> int \<Rightarrow> string \<Rightarrow> run_store \<Rightarrow> RuntimeAttempt" where
  "new_attempt now rid tid w s = \<lparr>a_attempt_id = next_attempt_id s, a_run_id = rid, a_task_id = tid,
     a_worker_id = w, a_attempt_no = int (length (attempt_nos rid (attempts s))) + 1,
     a_status = Attempt_running, a_started_at = now, a_finished_at = None, a_error = None\<rparr>"

definition with_attempt :: "RuntimeAttempt \<Rightarrow> run_store \<Rightarrow> run_store" where
  "with_attempt a s = s\<lparr>next_attempt_id := next_attempt_id s + 1,
     attempts := dset (attempts s) (next_attempt_id s) a\<rparr>"

lemma create_attempt_eq:
  "create_attempt now rid tid w s = bnd (on_run rid start_run)
     (\<lambda>_. ret (new_attempt now rid tid w s)) (with_attempt (new_attempt now rid tid w s) s)"
  by (simp add: create_attempt_def Let_def attempt_nos_def new_attempt_def with_attempt_def)

lemma numbered_snoc:
  assumes "numbered as" "k \<notin> set (dkeys as)"
    "a_attempt_no a = int (length (attempt_nos (a_run_id a) as)) + 1"
  shows "numbered (dset as k a)"
proof -
  have nos: "attempt_nos rid (dset as k a) =
      attempt_nos rid as @ (if a_run_id a = rid then [a_attempt_no a] else [])" for rid
    using assms(2) by (simp add: attempt_nos_def dset_new)
  show ?thesis
    unfolding numbered_def nos using assms(1,3) by (auto simp: numbered_def)
qed

lemma with_attempt_wf:
  assumes "wf_store s"
  shows "wf_store (with_attempt (new_attempt now rid tid w s) s)"
proof -
  have "next_attempt_id s \<notin> set (dkeys (attempts s))"
    using next_attempt_new [OF assms] by (simp add: map_of_eq_None_iff)
  then have "numbered (dset (attempts s) (next_attempt_id s) (new_attempt now rid tid w s))"
    using assms by (intro numbered_snoc) (simp_all add: new_attempt_def wf_store_def)
  moreover have "all_entries (wf_attempt (next_attempt_id s + 1)) (attempts s)"
    using assms by (auto simp: wf_store_def wf_attempt_def intro: all_entries_mono)
  then have "all_entries (wf_attempt (next_attempt_id s + 1))
      (dset (attempts s) (next_attempt_id s) (new_attempt now rid tid w s))"
    by (auto simp: wf_attempt_def new_attempt_def)
  ultimately show ?thesis using assms by (simp add: wf_store_def with_attempt_def)
qed

lemma create_attempt_wf:
  assumes "wf_store s" "create_attempt now rid tid w s = (r, s')"
  shows "wf_store s'"
proof -
  let ?s1 = "with_attempt (new_attempt now rid tid w s) s"
  have s1: "wf_store ?s1" using assms(1) by (rule with_attempt_wf)
  obtain r1 s2 where m: "on_run rid start_run ?s1 = (r1, s2)" by fastforce
  have "wf_store s2"
    by (rule on_run_wf [OF s1 m]) (force simp: eff_simps run_transition_table split: if_splits)
  then show ?thesis
    using assms(2) m by (auto simp: create_attempt_eq bnd_def ret_def split: sum.splits)
qed

section \<open>Histories of the store\<close>

datatype store_op =
    St_create_run datetime int int int int "int option" pydict "pydict option" "string option"
      "int option"
  | St_create_attempt datetime int int string
  | St_complete_run int pydict
  | St_fail_run int pydict
  | St_timeout_run int pydict
  | St_mark_run_running int
  | St_cancel_run int
  | St_delete_run int
  | St_complete_attempt datetime int
  | St_fail_attempt datetime int pydict
  | St_timeout_attempt datetime int pydict

fun exec_store :: "store_op \<Rightarrow> run_store \<Rightarrow> run_store" where
  "exec_store (St_create_run now tn pj ag ve dp inp ov th rid) s =
     snd (create_run now tn pj ag ve dp inp ov th rid s)"
| "exec_store (St_create_attempt now rid tid w) s = snd (create_attempt now rid tid w s)"
| "exec_store (St_complete_run rid d) s = snd (complete_run rid d s)"
| "exec_store (St_fail_run rid d) s = snd (fail_run rid d s)"
| "exec_store (St_timeout_run rid d) s = snd (timeout_run rid d s)"
| "exec_store (St_mark_run_running rid) s = snd (mark_run_running rid s)"
| "exec_store (St_cancel_run rid) s = snd (cancel_run rid s)"
| "exec_store (St_delete_run rid) s = snd (delete_run rid s)"
| "exec_store (St_complete_attempt now aid) s = snd (complete_attempt now aid s)"
| "exec_store (St_fail_attempt now aid d) s = snd (fail_attempt now aid d s)"
| "exec_store (St_timeout_attempt now aid d) s = snd (timeout_attempt now aid d s)"

definition run_store_ops :: "store_op list \<Rightarrow> run_store \<Rightarrow> run_store" where
  "run_store_ops os s = fold exec_store os s"

text \<open>A run id given by the caller is not zero.\<close>

definition proper_op :: "store_op \<Rightarrow> bool" where
  "proper_op op = (case op of St_create_run _ _ _ _ _ _ _ _ _ rid \<Rightarrow> rid \<noteq> Some 0 | _ \<Rightarrow> True)"

text \<open>Neither re-creates the run under its explicit id nor deletes it.\<close>

definition keeps_run :: "int \<Rightarrow> store_op \<Rightarrow> bool" where
  "keeps_run k op = (case op of
       St_create_run _ _ _ _ _ _ _ _ _ rid \<Rightarrow> rid \<noteq> Some k
     | St_delete_run j \<Rightarrow> j \<noteq> k
     | _ \<Rightarrow> True)"

lemmas store_wf_snd =
  run_ops_wf_store [OF _ surjective_pairing] attempt_ops_wf_store [OF _ surjective_pairing]
  create_run_wf [OF _ _ surjective_pairing] create_attempt_wf [OF _ surjective_pairing]
  delete_run_wf [OF _ surjective_pairing]

lemma exec_store_wf: "wf_store s \<Longrightarrow> proper_op op \<Longrightarrow> wf_store (exec_store op s)"
  by (cases op) (simp_all only: exec_store.simps proper_op_def store_op.case store_wf_snd simp_thms)

lemma run_store_ops_wf: "wf_store s \<Longrightarrow> \<forall>op \<in> set os. proper_op op \<Longrightarrow> wf_store (run_store_ops os s)"
  by (induction os arbitrary: s) (auto simp: run_store_ops_def exec_store_wf)

text \<open>A guarded computation leaves a final run alone.\<close>

lemma on_run_stays:
  "dget (runs s) k = Some r \<Longrightarrow> snd (m r) = r \<Longrightarrow> dget (runs (snd (on_run j m s))) k = Some r"
  by (cases "m r") (auto simp: eff_simps split: option.splits prod.splits)

lemma on_attempt_stays:
  "dget (attempts s) k = Some a \<Longrightarrow> snd (m a) = a \<Longrightarrow>
     dget (attempts (snd (on_attempt j m s))) k = Some a"
  by (cases "m a") (auto simp: eff_simps split: option.splits prod.splits)

lemma on_run_attempts [simp]: "attempts (snd (on_run j m s)) = attempts s"
  by (auto simp: eff_simps split: option.splits prod.splits)

lemma on_attempt_runs [simp]: "runs (snd (on_attempt j m s)) = runs s"
  by (auto simp: eff_simps split: option.splits prod.splits)

lemma delete_run_snd [simp]: "snd (delete_run k s) = s\<lparr>runs := ddel (runs s) k\<rparr>"
  by (simp add: delete_run_def upd_def)

lemmas store_defs = complete_run_def fail_run_def timeout_run_def mark_run_running_def
  cancel_run_def complete_attempt_def fail_attempt_def timeout_attempt_def

lemma run_frozen:
  assumes "run_terminal (r_status r)"
  shows "snd (start_run r) = r" "snd (promote_pending r) = r"
    "snd (seq promote_pending (seq (run_transition t) m) r) = r"
    "snd (seq (run_transition t) m r) = r"
  using assms by (auto simp: eff_simps run_transition_table run_terminal_def)

lemma attempt_frozen: "a_status a \<noteq> Attempt_running \<Longrightarrow> snd (seq (attempt_transition t) m a) = a"
  by (auto simp: eff_simps attempt_transition_table)

lemma create_attempt_snd:
  "snd (create_attempt now rid tid w s) =
     snd (on_run rid start_run (with_attempt (new_attempt now rid tid w s) s))"
  by (auto simp: create_attempt_eq bnd_def ret_def split: prod.splits sum.splits)

lemma create_run_keeps:
  assumes "wf_store s" "dget (runs s) k = Some r" "rid \<noteq> Some k"
  shows "dget (runs (snd (create_run now tn pj ag ve dp inp ov th rid s))) k = Some r"
proof -
  have "or_id rid (next_run_id s) \<noteq> k"
    using wf_store_run [OF assms(1,2)] assms(3) by (auto simp: or_id_def split: option.splits if_splits)
  then show ?thesis
    using create_run_eq [of rid s tn pj ag ve dp inp now ov th] assms(2) by auto
qed

lemma exec_store_final_run:
  assumes "wf_store s" "dget (runs s) k = Some r" "run_terminal (r_status r)" "keeps_run k op"
  shows "dget (runs (exec_store op s)) k = Some r"
proof (cases op)
  case (St_create_attempt now rid tid w)
  have "dget (runs (with_attempt (new_attempt now rid tid w s) s)) k = Some r"
    using assms(2) by (simp add: with_attempt_def)
  then show ?thesis
    using run_frozen [OF assms(3)] by (simp add: St_create_attempt create_attempt_snd on_run_stays)
qed (use assms in \<open>simp_all add: keeps_run_def store_defs on_run_stays create_run_keeps run_frozen\<close>)

lemma exec_store_final_attempt:
  assumes "wf_store s" "dget (attempts s) k = Some a" "a_status a \<noteq> Attempt_running"
  shows "dget (attempts (exec_store op s)) k = Some a"
proof (cases op)
  case (St_create_attempt now rid tid w)
  have "k \<noteq> next_attempt_id s" using next_attempt_new [OF assms(1)] assms(2) by auto
  then show ?thesis
    using assms(2) by (simp add: St_create_attempt create_attempt_snd with_attempt_def)
next
  case (St_create_run now tn pj ag ve dp inp ov th rid)
  then show ?thesis
    using create_run_eq [of rid s tn pj ag ve dp inp now ov th] assms(2) by auto
qed (use assms in \<open>simp_all add: store_defs on_attempt_stays attempt_frozen\<close>)

text \<open>
  After any history of operations on a new store, the attempts of every run carry the numbers
  1, 2, 3, \<dots> in the order they were created, ids never clash, and an attempt has a finishing time
  exactly when it is no longer running.
\<close>

lemma attempts_numbered:
  assumes "\<forall>op \<in> set os. proper_op op"
  shows "wf_store (run_store_ops os init_run_store) \<and>
     attempt_nos rid (attempts (run_store_ops os init_run_store)) =
       map (\<lambda>i. int i + 1) [0..<length (attempt_nos rid (attempts (run_store_ops os init_run_store)))]"
  using run_store_ops_wf [OF wf_init_store assms] by (simp add: wf_store_def numbered_def)

text \<open>
  C22: A run that has succeeded or been cancelled, and an attempt that has finished, never change
  again: whatever operations are run afterwards, also ones that raise, its record stays exactly as it
  is, as long as the run is not deleted or created again under its own id.
\<close>

theorem final_frozen:
  assumes "wf_store s" "\<forall>op \<in> set os. proper_op op"
  shows "(dget (runs s) k = Some r \<and> run_terminal (r_status r) \<and> (\<forall>op \<in> set os. keeps_run k op)
       \<longrightarrow> dget (runs (run_store_ops os s)) k = Some r) \<and>
     (dget (attempts s) j = Some a \<and> a_status a \<noteq> Attempt_running
       \<longrightarrow> dget (attempts (run_store_ops os s)) j = Some a)"
  using assms
proof (induction os arbitrary: s)
  case Nil
  then show ?case by (simp add: run_store_ops_def)
next
  case (Cons op os)
  have "wf_store (exec_store op s)" using Cons.prems by (simp add: exec_store_wf)
  with Cons show ?case
    using exec_store_final_run [OF Cons.prems(1)] exec_store_final_attempt [OF Cons.prems(1)]
    by (simp add: run_store_ops_def)
qed

definition demo_ops :: "store_op list" where
  "demo_ops = [St_create_run 0 1 1 7 70 None [] None None None, St_create_attempt 5 1 40 ''w1'',
     St_fail_attempt 6 1 [], St_create_attempt 7 1 40 ''w2'', St_complete_run 1 [],
     St_complete_attempt 8 2]"

theorem final_frozen_witness:
  "wf_store (run_store_ops demo_ops init_run_store) \<and>
   map_option a_status (dget (attempts (run_store_ops [St_timeout_attempt 9 1 []]
     (run_store_ops demo_ops init_run_store))) 1) = Some Attempt_failed \<and>
   map_option r_status (dget (runs (run_store_ops [St_cancel_run 1]
     (run_store_ops demo_ops init_run_store))) 1) = Some Run_succeeded"
proof -
  let ?s = "run_store_ops demo_ops init_run_store"
  have wf: "wf_store ?s"
    by (rule run_store_ops_wf [OF wf_init_store]) (simp add: demo_ops_def proper_op_def)
  have "map_option a_status (dget (attempts ?s) 1) = Some Attempt_failed" by code_simp
  then obtain a where a: "dget (attempts ?s) 1 = Some a" "a_status a = Attempt_failed" by blast
  have "map_option r_status (dget (runs ?s) 1) = Some Run_succeeded" by code_simp
  then obtain r where r: "dget (runs ?s) 1 = Some r" "r_status r = Run_succeeded" by blast
  have "dget (attempts (run_store_ops [St_timeout_attempt 9 1 []] ?s)) 1 = Some a"
    using final_frozen [OF wf, of "[St_timeout_attempt 9 1 []]" 0 r 1 a] a
    by (simp add: proper_op_def)
  moreover have "dget (runs (run_store_ops [St_cancel_run 1] ?s)) 1 = Some r"
    using final_frozen [OF wf, of "[St_cancel_run 1]" 1 r 0 a] r
    by (simp add: proper_op_def keeps_run_def run_terminal_def)
  ultimately show ?thesis using wf a r by simp
qed

section \<open>The contract RuntimeRunStore\<close>

text \<open>
  The operations of \<open>RuntimeRunStore\<close> that a worker and the run manager call, with the clock
  readings they make already fixed, and what they promise about the stored runs and attempts. A store
  hands an output back as \<open>stored\<close> says, and keeps of an error what it likes. That a deleted run is
  gone is a promise of its own.
\<close>

record 's runtime_run_store_ops =
  so_create_run :: "int \<Rightarrow> int \<Rightarrow> int \<Rightarrow> int \<Rightarrow> int option \<Rightarrow> pydict \<Rightarrow> pydict option \<Rightarrow> string option \<Rightarrow>
     int option \<Rightarrow> ('s, RuntimeRun) eff"
  so_delete_run :: "int \<Rightarrow> ('s, unit) eff"
  so_get_run :: "int \<Rightarrow> ('s, RuntimeRun) eff"
  so_create_attempt :: "int \<Rightarrow> int \<Rightarrow> string \<Rightarrow> ('s, RuntimeAttempt) eff"
  so_complete_run :: "int \<Rightarrow> pydict \<Rightarrow> ('s, unit) eff"
  so_fail_run :: "int \<Rightarrow> pydict \<Rightarrow> ('s, unit) eff"
  so_timeout_run :: "int \<Rightarrow> pydict \<Rightarrow> ('s, unit) eff"
  so_complete_attempt :: "int \<Rightarrow> ('s, unit) eff"
  so_fail_attempt :: "int \<Rightarrow> pydict \<Rightarrow> ('s, unit) eff"
  so_timeout_attempt :: "int \<Rightarrow> pydict \<Rightarrow> ('s, unit) eff"

definition startable :: "RunStatus \<Rightarrow> bool" where
  "startable st \<longleftrightarrow> st \<notin> {Run_succeeded, Run_cancelled}"

locale runtime_run_store =
  fixes sops :: "'s runtime_run_store_ops"
    and run_of :: "'s \<Rightarrow> int \<Rightarrow> RuntimeRun option"
    and attempt_of :: "'s \<Rightarrow> int \<Rightarrow> RuntimeAttempt option"
    and sinv :: "'s \<Rightarrow> bool"
    and stored :: "pydict \<Rightarrow> pydict"
  assumes get_run_law:
      "sinv s \<Longrightarrow> so_get_run sops k s = (case run_of s k of None \<Rightarrow> Inl KeyError | Some r \<Rightarrow> Inr r, s)"
    and create_run_law:
      "sinv s \<Longrightarrow> \<exists>r s'. so_create_run sops tn pj ag ve dp inp ov th None s = (Inr r, s') \<and> sinv s' \<and>
         run_of s (r_run_id r) = None \<and> r_status r = Run_pending \<and>
         run_of s' = (run_of s)(r_run_id r \<mapsto> r) \<and> attempt_of s' = attempt_of s"
    and create_attempt_law:
      "sinv s \<Longrightarrow> run_of s k = Some r \<Longrightarrow> startable (r_status r) \<Longrightarrow>
         \<exists>a s'. so_create_attempt sops k tid w s = (Inr a, s') \<and> sinv s' \<and>
           attempt_of s (a_attempt_id a) = None \<and> a_run_id a = k \<and> a_task_id a = tid \<and>
           a_worker_id a = w \<and> a_status a = Attempt_running \<and>
           run_of s' = (run_of s)(k \<mapsto> r\<lparr>r_status := Run_running\<rparr>) \<and>
           attempt_of s' = (attempt_of s)(a_attempt_id a \<mapsto> a)"
    and complete_run_law:
      "sinv s \<Longrightarrow> run_of s k = Some r \<Longrightarrow> r_status r = Run_running \<Longrightarrow>
         \<exists>s'. so_complete_run sops k d s = (Inr (), s') \<and> sinv s' \<and> attempt_of s' = attempt_of s \<and>
           run_of s' = (run_of s)(k \<mapsto> r\<lparr>r_status := Run_succeeded, r_output := Some (stored d)\<rparr>)"
    and fail_run_law:
      "sinv s \<Longrightarrow> run_of s k = Some r \<Longrightarrow> r_status r = Run_running \<Longrightarrow>
         \<exists>s' e. so_fail_run sops k d s = (Inr (), s') \<and> sinv s' \<and> attempt_of s' = attempt_of s \<and>
           run_of s' = (run_of s)(k \<mapsto> r\<lparr>r_status := Run_failed, r_error := e\<rparr>)"
    and timeout_run_law:
      "sinv s \<Longrightarrow> run_of s k = Some r \<Longrightarrow> r_status r = Run_running \<Longrightarrow>
         \<exists>s' e. so_timeout_run sops k d s = (Inr (), s') \<and> sinv s' \<and> attempt_of s' = attempt_of s \<and>
           run_of s' = (run_of s)(k \<mapsto> r\<lparr>r_status := Run_timeout, r_error := e\<rparr>)"
    and complete_attempt_law:
      "sinv s \<Longrightarrow> attempt_of s j = Some a \<Longrightarrow> a_status a = Attempt_running \<Longrightarrow>
         \<exists>s' t. so_complete_attempt sops j s = (Inr (), s') \<and> sinv s' \<and> run_of s' = run_of s \<and>
           attempt_of s' = (attempt_of s)
             (j \<mapsto> a\<lparr>a_status := Attempt_succeeded, a_finished_at := Some t\<rparr>)"
    and fail_attempt_law:
      "sinv s \<Longrightarrow> attempt_of s j = Some a \<Longrightarrow> a_status a = Attempt_running \<Longrightarrow>
         \<exists>s' t e. so_fail_attempt sops j d s = (Inr (), s') \<and> sinv s' \<and> run_of s' = run_of s \<and>
           attempt_of s' = (attempt_of s)
             (j \<mapsto> a\<lparr>a_status := Attempt_failed, a_error := e, a_finished_at := Some t\<rparr>)"
    and timeout_attempt_law:
      "sinv s \<Longrightarrow> attempt_of s j = Some a \<Longrightarrow> a_status a = Attempt_running \<Longrightarrow>
         \<exists>s' t e. so_timeout_attempt sops j d s = (Inr (), s') \<and> sinv s' \<and> run_of s' = run_of s \<and>
           attempt_of s' = (attempt_of s)
             (j \<mapsto> a\<lparr>a_status := Attempt_timeout, a_error := e, a_finished_at := Some t\<rparr>)"
begin

text \<open>The three ways one attempt of a run ends, as the contract gives them.\<close>

definition open_attempt :: "int \<Rightarrow> int \<Rightarrow> 's \<Rightarrow> bool" where
  "open_attempt k j s \<longleftrightarrow> sinv s \<and>
     (\<exists>r. run_of s k = Some r \<and> r_status r = Run_running) \<and>
     (\<exists>a. attempt_of s j = Some a \<and> a_status a = Attempt_running \<and> a_run_id a = k)"

definition closed_as :: "int \<Rightarrow> int \<Rightarrow> RunStatus \<Rightarrow> RunAttemptStatus \<Rightarrow> 's \<Rightarrow> bool" where
  "closed_as k j rst ast s \<longleftrightarrow> sinv s \<and>
     map_option r_status (run_of s k) = Some rst \<and>
     map_option a_status (attempt_of s j) = Some ast"

lemma attempt_opens:
  assumes "sinv s" "run_of s k = Some r" "startable (r_status r)"
  shows "\<exists>a s'. so_create_attempt sops k tid w s = (Inr a, s') \<and> open_attempt k (a_attempt_id a) s' \<and>
     run_of s' k = Some (r\<lparr>r_status := Run_running\<rparr>)"
  using create_attempt_law [OF assms, of tid w] by (force simp: open_attempt_def)

lemma attempt_completes:
  assumes "open_attempt k j s"
  shows "\<exists>s1 s2. so_complete_run sops k d s = (Inr (), s1) \<and> so_complete_attempt sops j s1 = (Inr (), s2) \<and>
     closed_as k j Run_succeeded Attempt_succeeded s2 \<and> map_option r_output (run_of s2 k) = Some (Some (stored d))"
proof -
  obtain r a where r: "sinv s" "run_of s k = Some r" "r_status r = Run_running"
    and a: "attempt_of s j = Some a" "a_status a = Attempt_running"
    using assms by (auto simp: open_attempt_def)
  obtain s1 where s1: "so_complete_run sops k d s = (Inr (), s1)" "sinv s1"
      "attempt_of s1 = attempt_of s"
      "run_of s1 = (run_of s)(k \<mapsto> r\<lparr>r_status := Run_succeeded, r_output := Some (stored d)\<rparr>)"
    using complete_run_law [OF r] by blast
  then show ?thesis
    using complete_attempt_law [OF s1(2), of j a] a by (fastforce simp: closed_as_def)
qed

lemma attempt_ends:
  assumes "open_attempt k j s"
  shows "\<exists>s1. so_fail_attempt sops j d s = (Inr (), s1) \<and> closed_as k j Run_running Attempt_failed s1"
    "\<exists>s1. so_timeout_attempt sops j d s = (Inr (), s1) \<and> closed_as k j Run_running Attempt_timeout s1"
proof -
  obtain r a where "run_of s k = Some r" "r_status r = Run_running"
    and a: "sinv s" "attempt_of s j = Some a" "a_status a = Attempt_running"
    using assms by (auto simp: open_attempt_def)
  then show "\<exists>s1. so_fail_attempt sops j d s = (Inr (), s1) \<and> closed_as k j Run_running Attempt_failed s1"
    "\<exists>s1. so_timeout_attempt sops j d s = (Inr (), s1) \<and> closed_as k j Run_running Attempt_timeout s1"
    using fail_attempt_law [OF a, of d] timeout_attempt_law [OF a, of d] by (fastforce simp: closed_as_def)+
qed

lemma run_ends:
  assumes "closed_as k j Run_running ast s"
  shows "\<exists>s1. so_fail_run sops k d s = (Inr (), s1) \<and> closed_as k j Run_failed ast s1"
    "\<exists>s1. so_timeout_run sops k d s = (Inr (), s1) \<and> closed_as k j Run_timeout ast s1"
proof -
  obtain r where r: "sinv s" "run_of s k = Some r" "r_status r = Run_running"
    using assms by (auto simp: closed_as_def)
  then show "\<exists>s1. so_fail_run sops k d s = (Inr (), s1) \<and> closed_as k j Run_failed ast s1"
    "\<exists>s1. so_timeout_run sops k d s = (Inr (), s1) \<and> closed_as k j Run_timeout ast s1"
    using assms fail_run_law [OF r, of d] timeout_run_law [OF r, of d] by (fastforce simp: closed_as_def)+
qed

end

locale erasing_run_store = runtime_run_store +
  assumes delete_run_law:
      "sinv s \<Longrightarrow> \<exists>s'. so_delete_run sops k s = (Inr (), s') \<and> sinv s' \<and>
         run_of s' = (run_of s)(k := None) \<and> attempt_of s' = attempt_of s"

section \<open>The in-memory store keeps the contract\<close>

definition in_memory_store_ops :: "datetime \<Rightarrow> run_store runtime_run_store_ops" where
  "in_memory_store_ops now = \<lparr>so_create_run = create_run now, so_delete_run = delete_run,
     so_get_run = get_run, so_create_attempt = create_attempt now, so_complete_run = complete_run,
     so_fail_run = fail_run, so_timeout_run = timeout_run,
     so_complete_attempt = complete_attempt now, so_fail_attempt = fail_attempt now,
     so_timeout_attempt = timeout_attempt now\<rparr>"

lemma in_memory_store_ops_simps [simp]:
  "so_create_run (in_memory_store_ops now) = create_run now"
  "so_delete_run (in_memory_store_ops now) = delete_run"
  "so_get_run (in_memory_store_ops now) = get_run"
  "so_create_attempt (in_memory_store_ops now) = create_attempt now"
  "so_complete_run (in_memory_store_ops now) = complete_run"
  "so_fail_run (in_memory_store_ops now) = fail_run"
  "so_timeout_run (in_memory_store_ops now) = timeout_run"
  "so_complete_attempt (in_memory_store_ops now) = complete_attempt now"
  "so_fail_attempt (in_memory_store_ops now) = fail_attempt now"
  "so_timeout_attempt (in_memory_store_ops now) = timeout_attempt now"
  by (simp_all add: in_memory_store_ops_def)

abbreviation run_in :: "run_store \<Rightarrow> int \<Rightarrow> RuntimeRun option" where
  "run_in s \<equiv> dget (runs s)"

abbreviation attempt_in :: "run_store \<Rightarrow> int \<Rightarrow> RuntimeAttempt option" where
  "attempt_in s \<equiv> dget (attempts s)"

lemma on_run_run:
  "run_in s k = Some r \<Longrightarrow> m r = (Inr x, r') \<Longrightarrow>
     on_run k m s = (Inr x, s\<lparr>runs := dset (runs s) k r'\<rparr>)"
  by (simp add: eff_simps)

lemma on_attempt_run:
  "attempt_in s j = Some a \<Longrightarrow> m a = (Inr x, a') \<Longrightarrow>
     on_attempt j m s = (Inr x, s\<lparr>attempts := dset (attempts s) j a'\<rparr>)"
  by (simp add: eff_simps)

lemma run_computations:
  "r_status r = Run_running \<Longrightarrow>
     seq promote_pending (seq (run_transition Run_succeeded) (upd f)) r = (Inr (), f r)"
  "r_status r = Run_running \<Longrightarrow>
     seq promote_pending (seq (run_transition Run_failed) (upd f)) r = (Inr (), f r)"
  "r_status r = Run_running \<Longrightarrow>
     seq promote_pending (seq (run_transition Run_timeout) (upd f)) r = (Inr (), f r)"
  "startable (r_status r) \<Longrightarrow> start_run r = (Inr (), r\<lparr>r_status := Run_running\<rparr>)"
  by (auto simp: eff_simps run_transition_table startable_def) (cases "r_status r"; simp)+

lemma attempt_computations:
  "a_status a = Attempt_running \<Longrightarrow> t \<noteq> Attempt_running \<Longrightarrow>
     seq (attempt_transition t) (upd f) a = (Inr (), f a)"
  by (simp add: eff_simps attempt_transition_table)

lemma run_outcomes:
  assumes "run_in s k = Some r" "r_status r = Run_running"
  shows "complete_run k d s =
      (Inr (), s\<lparr>runs := dset (runs s) k (r\<lparr>r_status := Run_succeeded, r_output := Some d\<rparr>)\<rparr>)"
    "fail_run k d s =
      (Inr (), s\<lparr>runs := dset (runs s) k (r\<lparr>r_status := Run_failed, r_error := Some d\<rparr>)\<rparr>)"
    "timeout_run k d s =
      (Inr (), s\<lparr>runs := dset (runs s) k (r\<lparr>r_status := Run_timeout, r_error := Some d\<rparr>)\<rparr>)"
  using assms by (simp_all add: store_defs on_run_run run_computations)

lemma attempt_outcomes:
  assumes "attempt_in s j = Some a" "a_status a = Attempt_running"
  shows "complete_attempt now j s = (Inr (), s\<lparr>attempts := dset (attempts s) j
      (a\<lparr>a_status := Attempt_succeeded, a_finished_at := Some now\<rparr>)\<rparr>)"
    "fail_attempt now j d s = (Inr (), s\<lparr>attempts := dset (attempts s) j
      (a\<lparr>a_status := Attempt_failed, a_error := Some d, a_finished_at := Some now\<rparr>)\<rparr>)"
    "timeout_attempt now j d s = (Inr (), s\<lparr>attempts := dset (attempts s) j
      (a\<lparr>a_status := Attempt_timeout, a_error := Some d, a_finished_at := Some now\<rparr>)\<rparr>)"
  using assms by (simp_all add: store_defs on_attempt_run attempt_computations)

lemma run_law:
  assumes "f s = (Inr (), s\<lparr>runs := dset (runs s) k r'\<rparr>)" "wf_store (snd (f s))"
  shows "\<exists>s'. f s = (Inr (), s') \<and> wf_store s' \<and> attempt_in s' = attempt_in s \<and>
     run_in s' = (run_in s)(k \<mapsto> r')"
  using assms by (simp add: fun_eq_iff)

lemma run_error_law:
  assumes "f s = (Inr (), s\<lparr>runs := dset (runs s) k (g e)\<rparr>)" "wf_store (snd (f s))"
  shows "\<exists>s' e. f s = (Inr (), s') \<and> wf_store s' \<and> attempt_in s' = attempt_in s \<and>
     run_in s' = (run_in s)(k \<mapsto> g e)"
  using assms by (auto simp: fun_eq_iff)

lemma attempt_law:
  assumes "f s = (Inr (), s\<lparr>attempts := dset (attempts s) j (g t)\<rparr>)" "wf_store (snd (f s))"
  shows "\<exists>s' t. f s = (Inr (), s') \<and> wf_store s' \<and> run_in s' = run_in s \<and>
     attempt_in s' = (attempt_in s)(j \<mapsto> g t)"
  using assms by (auto simp: fun_eq_iff)

lemma attempt_error_law:
  assumes "f s = (Inr (), s\<lparr>attempts := dset (attempts s) j (g t e)\<rparr>)" "wf_store (snd (f s))"
  shows "\<exists>s' t e. f s = (Inr (), s') \<and> wf_store s' \<and> run_in s' = run_in s \<and>
     attempt_in s' = (attempt_in s)(j \<mapsto> g t e)"
  using assms by (auto simp: fun_eq_iff)

interpretation in_memory_store: erasing_run_store "in_memory_store_ops now" run_in attempt_in wf_store "\<lambda>d. d"
proof unfold_locales
  fix s k tn pj ag ve dp inp ov th tid w d j and r :: RuntimeRun and a :: RuntimeAttempt
  assume wf: "wf_store s"
  show "so_get_run (in_memory_store_ops now) k s =
      (case run_in s k of None \<Rightarrow> Inl KeyError | Some r \<Rightarrow> Inr r, s)"
    by (cases "run_in s k") (simp_all add: eff_simps AList.update_triv)
  have new: "run_in s (next_run_id s) = None"
    using wf_store_run [OF wf, of "next_run_id s"] by (cases "run_in s (next_run_id s)") auto
  show "\<exists>r s'. so_create_run (in_memory_store_ops now) tn pj ag ve dp inp ov th None s = (Inr r, s') \<and>
      wf_store s' \<and> run_in s (r_run_id r) = None \<and> r_status r = Run_pending \<and>
      run_in s' = (run_in s)(r_run_id r \<mapsto> r) \<and> attempt_in s' = attempt_in s"
    using create_run_eq [of None s tn pj ag ve dp inp now ov th] new
      create_run_wf [OF wf, of None now tn pj ag ve dp inp ov th]
    by (auto simp: fun_eq_iff)
  show "\<exists>s'. so_delete_run (in_memory_store_ops now) k s = (Inr (), s') \<and> wf_store s' \<and>
      run_in s' = (run_in s)(k := None) \<and> attempt_in s' = attempt_in s"
    using delete_run_wf [OF wf] by (auto simp: delete_run_def upd_def fun_eq_iff)
  show "\<exists>a s'. so_create_attempt (in_memory_store_ops now) k tid w s = (Inr a, s') \<and> wf_store s' \<and>
      attempt_in s (a_attempt_id a) = None \<and> a_run_id a = k \<and> a_task_id a = tid \<and>
      a_worker_id a = w \<and> a_status a = Attempt_running \<and>
      run_in s' = (run_in s)(k \<mapsto> r\<lparr>r_status := Run_running\<rparr>) \<and>
      attempt_in s' = (attempt_in s)(a_attempt_id a \<mapsto> a)"
    if "run_in s k = Some r" "startable (r_status r)"
  proof -
    let ?s1 = "with_attempt (new_attempt now k tid w s) s"
    have "on_run k start_run ?s1 = (Inr (), ?s1\<lparr>runs := dset (runs s) k (r\<lparr>r_status := Run_running\<rparr>)\<rparr>)"
      using that on_run_run [of ?s1 k r start_run] run_computations(4) by (simp add: with_attempt_def)
    then have c: "create_attempt now k tid w s = (Inr (new_attempt now k tid w s),
        ?s1\<lparr>runs := dset (runs s) k (r\<lparr>r_status := Run_running\<rparr>)\<rparr>)"
      by (simp add: create_attempt_eq bnd_def ret_def)
    show ?thesis
      using c create_attempt_wf [OF wf c] next_attempt_new [OF wf]
      by (auto simp: with_attempt_def new_attempt_def fun_eq_iff)
  qed
qed (unfold in_memory_store_ops_simps,
      rule run_law, rule run_outcomes, assumption+, erule store_wf_snd,
      (rule run_error_law, rule run_outcomes, assumption+, erule store_wf_snd)+,
      rule attempt_law, rule attempt_outcomes, assumption+, erule store_wf_snd,
      (rule attempt_error_law, rule attempt_outcomes, assumption+, erule store_wf_snd)+)

end
