(* ===== verification/Run_Manager.thy ===== *)
theory Run_Manager
  imports Task_Backend Run_Store In_Memory_Backend
begin

text \<open>
  Submitting a run (\<open>RunManager\<close> of \<open>runtime/run_manager.py\<close>): the deployment gate is asked first, the
  run is created, its task enqueued, and the run removed again when the queue refuses the task. The
  store is the contract of \<open>Run_Store\<close>; the gate and the queue are arbitrary.
\<close>

record run_request =
  rq_tenant_id :: int
  rq_project_id :: int
  rq_agent_id :: int
  rq_agent_version_id :: int
  rq_deployment_id :: "int option"
  rq_input_data :: pydict
  rq_override_config :: "pydict option"
  rq_queue :: string
  rq_thread_id :: "string option"
  rq_run_id :: "int option"
  rq_task_id :: "int option"

type_synonym deployment_gate = "int \<Rightarrow> int option \<Rightarrow> int option \<Rightarrow> int option \<Rightarrow> int option \<Rightarrow> exn + unit"

definition gate_check :: "deployment_gate option \<Rightarrow> run_request \<Rightarrow> exn + unit" where
  "gate_check gate rq = (case (rq_deployment_id rq, gate) of
       (Some d, Some g) \<Rightarrow> g d (Some (rq_tenant_id rq)) (Some (rq_project_id rq)) (Some (rq_agent_id rq))
                             (Some (rq_agent_version_id rq))
     | _ \<Rightarrow> Inr ())"

definition task_of_request :: "run_request \<Rightarrow> int \<Rightarrow> task_payload" where
  "task_of_request rq run_id = empty_payload
     \<lparr>p_task_id := rq_task_id rq, p_run_id := Some run_id, p_tenant_id := Some (rq_tenant_id rq),
      p_project_id := Some (rq_project_id rq), p_agent_id := Some (rq_agent_id rq),
      p_agent_version_id := Some (rq_agent_version_id rq), p_deployment_id := rq_deployment_id rq,
      p_input_data := Some (rq_input_data rq), p_override_config := Some (or_else (rq_override_config rq) []),
      p_queue := Some (rq_queue rq), p_thread_id := rq_thread_id rq\<rparr>"

definition create_run_task ::
  "deployment_gate option \<Rightarrow> 's runtime_run_store_ops \<Rightarrow> (task_payload \<Rightarrow> ('b, int) eff) \<Rightarrow> run_request \<Rightarrow>
     ('s \<times> 'b, RuntimeRun \<times> int) eff" where
  "create_run_task gate sops enq rq = (\<lambda>(s, b).
     (case gate_check gate rq of
        Inl e \<Rightarrow> (Inl e, (s, b))
      | Inr _ \<Rightarrow> (case so_create_run sops (rq_tenant_id rq) (rq_project_id rq) (rq_agent_id rq)
            (rq_agent_version_id rq) (rq_deployment_id rq) (rq_input_data rq) (rq_override_config rq)
            (rq_thread_id rq) (rq_run_id rq) s of
          (Inl e, s1) \<Rightarrow> (Inl e, (s1, b))
        | (Inr run, s1) \<Rightarrow> (case enq (task_of_request rq (r_run_id run)) b of
              (Inr task_id, b1) \<Rightarrow> (Inr (run, task_id), (s1, b1))
            | (Inl e, b1) \<Rightarrow> (case so_delete_run sops (r_run_id run) s1 of
                  (Inl e', s2) \<Rightarrow> (Inl e', (s2, b1))
                | (Inr _, s2) \<Rightarrow> (Inl e, (s2, b1)))))))"

section \<open>Against the contract of the store\<close>

context erasing_run_store
begin

lemma submission_rolled_back:
  assumes "sinv s" "rq_run_id rq = None" "\<And>p. \<exists>e b'. enq p b = (Inl e, b')"
    "create_run_task gate sops enq rq (s, b) = (res, (s', b'))"
  shows "(\<exists>e. res = Inl e) \<and> sinv s' \<and> run_of s' = run_of s \<and> attempt_of s' = attempt_of s"
proof (cases "gate_check gate rq")
  case (Inl e)
  with assms show ?thesis by (auto simp: create_run_task_def)
next
  case (Inr u)
  obtain r s1 where c: "so_create_run sops (rq_tenant_id rq) (rq_project_id rq) (rq_agent_id rq)
      (rq_agent_version_id rq) (rq_deployment_id rq) (rq_input_data rq) (rq_override_config rq)
      (rq_thread_id rq) None s = (Inr r, s1)" "sinv s1" "run_of s (r_run_id r) = None"
    "run_of s1 = (run_of s)(r_run_id r \<mapsto> r)" "attempt_of s1 = attempt_of s"
    using create_run_law [OF assms(1)] by blast
  obtain e b1 where e: "enq (task_of_request rq (r_run_id r)) b = (Inl e, b1)" using assms(3) by blast
  obtain s2 where "so_delete_run sops (r_run_id r) s1 = (Inr (), s2)" "sinv s2"
    "run_of s2 = (run_of s1)(r_run_id r := None)" "attempt_of s2 = attempt_of s1"
    using delete_run_law [OF c(2)] by blast
  with c e Inr assms(2,4) show ?thesis by (auto simp: create_run_task_def fun_upd_idem)
qed

lemma submission_accepted:
  assumes "sinv s" "rq_run_id rq = None" "gate_check gate rq = Inr ()"
    "\<And>p. \<exists>i b'. enq p b = (Inr i, b')"
  shows "\<exists>r i s' b'. create_run_task gate sops enq rq (s, b) = (Inr (r, i), (s', b')) \<and> sinv s' \<and>
     run_of s (r_run_id r) = None \<and> run_of s' = (run_of s)(r_run_id r \<mapsto> r) \<and> r_status r = Run_pending \<and>
     enq (task_of_request rq (r_run_id r)) b = (Inr i, b')"
proof -
  obtain r s1 where c: "so_create_run sops (rq_tenant_id rq) (rq_project_id rq) (rq_agent_id rq)
      (rq_agent_version_id rq) (rq_deployment_id rq) (rq_input_data rq) (rq_override_config rq)
      (rq_thread_id rq) None s = (Inr r, s1)" "sinv s1" "run_of s (r_run_id r) = None"
    "run_of s1 = (run_of s)(r_run_id r \<mapsto> r)" "r_status r = Run_pending"
    using create_run_law [OF assms(1)] by blast
  obtain i b1 where "enq (task_of_request rq (r_run_id r)) b = (Inr i, b1)" using assms(4) by blast
  with c assms(2,3) show ?thesis by (auto simp: create_run_task_def)
qed

end

section \<open>With the in-memory store\<close>


definition demo_request :: run_request where
  "demo_request = \<lparr>rq_tenant_id = 1, rq_project_id = 1, rq_agent_id = 7, rq_agent_version_id = 70,
     rq_deployment_id = Some 5, rq_input_data = [], rq_override_config = None, rq_queue = ''default'',
     rq_thread_id = None, rq_run_id = None, rq_task_id = None\<rparr>"


end
