(* ===== verification/Deployments.thy ===== *)
theory Deployments
  imports Prelude
begin

text \<open>
  Deployments and the agent instances that serve them (\<open>deployments/instances.py\<close>,
  \<open>deployments/status.py\<close>, \<open>deployments/service.py\<close>): the instance registry with its cache keys, the
  aggregation of a runtime status, and the control service with its policy check and audit trail. The
  policy engine is given to the service from outside and is arbitrary here. \<open>now\<close> is a clock reading.
\<close>

section \<open>Status enums\<close>

datatype DeploymentDesiredStatus =
    Desired_draft | Desired_active | Desired_paused | Desired_draining | Desired_stopped | Desired_archived

datatype DeploymentRuntimeStatus =
    Runtime_not_loaded | Runtime_warming_up | Runtime_ready | Runtime_degraded | Runtime_failed
  | Runtime_draining | Runtime_stopped

datatype AgentInstanceStatus =
    Instance_loading | Instance_ready | Instance_busy | Instance_idle | Instance_draining
  | Instance_evicted | Instance_failed

fun desired_status_value :: "DeploymentDesiredStatus \<Rightarrow> string" where
  "desired_status_value Desired_draft = ''draft''"
| "desired_status_value Desired_active = ''active''"
| "desired_status_value Desired_paused = ''paused''"
| "desired_status_value Desired_draining = ''draining''"
| "desired_status_value Desired_stopped = ''stopped''"
| "desired_status_value Desired_archived = ''archived''"

section \<open>Agent instances\<close>

definition build_cache_key :: "int \<Rightarrow> int \<Rightarrow> string option \<Rightarrow> string" where
  "build_cache_key deployment_id agent_version_id execution_profile_id =
     dec_int deployment_id @ '':'' @ dec_int agent_version_id @ '':'' @ or_str execution_profile_id ''default''"

record AgentInstanceRecord =
  ai_id :: int
  ai_tenant_id :: int
  ai_project_id :: int
  ai_deployment_id :: int
  ai_agent_id :: int
  ai_agent_version_id :: int
  ai_worker_id :: string
  ai_execution_profile_id :: "string option"
  ai_cache_key :: string
  ai_status :: AgentInstanceStatus
  ai_loaded_at :: "datetime option"
  ai_last_used_at :: "datetime option"
  ai_heartbeat_at :: "datetime option"
  ai_running_runs :: int
  ai_error :: "string option"
  ai_metadata :: pydict

definition instance_mark_ready :: "datetime \<Rightarrow> AgentInstanceRecord \<Rightarrow> AgentInstanceRecord" where
  "instance_mark_ready now i =
     i\<lparr>ai_status := Instance_ready, ai_loaded_at := Some (or_else (ai_loaded_at i) now),
       ai_last_used_at := Some now, ai_heartbeat_at := Some now, ai_error := None\<rparr>"

definition instance_mark_failed :: "string \<Rightarrow> datetime \<Rightarrow> AgentInstanceRecord \<Rightarrow> AgentInstanceRecord" where
  "instance_mark_failed error now i =
     i\<lparr>ai_status := Instance_failed, ai_error := Some error, ai_heartbeat_at := Some now\<rparr>"

definition instance_mark_evicted :: "string \<Rightarrow> AgentInstanceRecord \<Rightarrow> AgentInstanceRecord" where
  "instance_mark_evicted reason i =
     i\<lparr>ai_status := Instance_evicted, ai_running_runs := 0,
       ai_metadata := dset (ai_metadata i) ''evict_reason'' (VStr reason)\<rparr>"

record AgentInstanceRegistry =
  ir_instances :: "(int \<times> AgentInstanceRecord) list"
  ir_next_id :: int

definition init_instances :: AgentInstanceRegistry where
  "init_instances = \<lparr>ir_instances = [], ir_next_id = 1\<rparr>"

definition register_loading ::
  "datetime \<Rightarrow> int \<Rightarrow> int \<Rightarrow> int \<Rightarrow> int \<Rightarrow> int \<Rightarrow> string \<Rightarrow> string option \<Rightarrow> AgentInstanceRegistry \<Rightarrow>
     AgentInstanceRecord \<times> AgentInstanceRegistry" where
  "register_loading now tenant project deployment agent version worker profile g =
     (let i = \<lparr>ai_id = ir_next_id g, ai_tenant_id = tenant, ai_project_id = project,
               ai_deployment_id = deployment, ai_agent_id = agent, ai_agent_version_id = version,
               ai_worker_id = worker, ai_execution_profile_id = profile,
               ai_cache_key = build_cache_key deployment version profile,
               ai_status = Instance_loading, ai_loaded_at = None, ai_last_used_at = None,
               ai_heartbeat_at = Some now, ai_running_runs = 0, ai_error = None, ai_metadata = []\<rparr>
      in (i, g\<lparr>ir_instances := dset (ir_instances g) (ai_id i) i, ir_next_id := ir_next_id g + 1\<rparr>))"

definition can_serve :: "AgentInstanceStatus \<Rightarrow> bool" where
  "can_serve st \<longleftrightarrow> st \<in> {Instance_ready, Instance_idle, Instance_busy}"

definition get_ready ::
  "datetime \<Rightarrow> int \<Rightarrow> int \<Rightarrow> string option \<Rightarrow> AgentInstanceRegistry \<Rightarrow>
     AgentInstanceRecord option \<times> AgentInstanceRegistry" where
  "get_ready now deployment version profile g =
     (let key = build_cache_key deployment version profile
      in case find (\<lambda>(_, i). ai_cache_key i = key \<and> can_serve (ai_status i)) (ir_instances g) of
           None \<Rightarrow> (None, g)
         | Some (k, i) \<Rightarrow>
             let i' = i\<lparr>ai_last_used_at := Some now\<rparr>
             in (Some i', g\<lparr>ir_instances := dset (ir_instances g) k i'\<rparr>))"

definition on_instance ::
  "int \<Rightarrow> (AgentInstanceRecord \<Rightarrow> AgentInstanceRecord) \<Rightarrow> (AgentInstanceRegistry, AgentInstanceRecord) eff" where
  "on_instance instance_id f g = (case dget (ir_instances g) instance_id of
       None \<Rightarrow> (Inl KeyError, g)
     | Some i \<Rightarrow> (Inr (f i), g\<lparr>ir_instances := dset (ir_instances g) instance_id (f i)\<rparr>))"

definition mark_ready :: "datetime \<Rightarrow> int \<Rightarrow> (AgentInstanceRegistry, AgentInstanceRecord) eff" where
  "mark_ready now instance_id = on_instance instance_id (instance_mark_ready now)"

definition mark_failed :: "datetime \<Rightarrow> int \<Rightarrow> string \<Rightarrow> (AgentInstanceRegistry, AgentInstanceRecord) eff" where
  "mark_failed now instance_id error = on_instance instance_id (instance_mark_failed error now)"

definition list_by_deployment :: "int \<Rightarrow> AgentInstanceRegistry \<Rightarrow> AgentInstanceRecord list" where
  "list_by_deployment deployment_id g =
     filter (\<lambda>i. ai_deployment_id i = deployment_id) (dvals (ir_instances g))"

definition change_instances ::
  "(AgentInstanceRecord \<Rightarrow> bool) \<Rightarrow> (AgentInstanceRecord \<Rightarrow> AgentInstanceRecord) \<Rightarrow>
     AgentInstanceRegistry \<Rightarrow> AgentInstanceRegistry" where
  "change_instances P f g =
     g\<lparr>ir_instances := map (\<lambda>(k, i). (k, if P i then f i else i)) (ir_instances g)\<rparr>"

definition evict_deployment ::
  "int \<Rightarrow> string \<Rightarrow> AgentInstanceRegistry \<Rightarrow> AgentInstanceRecord list \<times> AgentInstanceRegistry" where
  "evict_deployment deployment_id reason g =
     (map (instance_mark_evicted reason) (list_by_deployment deployment_id g),
      change_instances (\<lambda>i. ai_deployment_id i = deployment_id) (instance_mark_evicted reason) g)"

definition is_idle :: "datetime \<Rightarrow> AgentInstanceRecord \<Rightarrow> bool" where
  "is_idle threshold i \<longleftrightarrow> ai_status i \<in> {Instance_ready, Instance_idle} \<and> ai_running_runs i = 0 \<and>
     (case ai_last_used_at i of None \<Rightarrow> False | Some t \<Rightarrow> t < threshold)"

definition evict_idle ::
  "datetime \<Rightarrow> int \<Rightarrow> AgentInstanceRegistry \<Rightarrow> AgentInstanceRecord list \<times> AgentInstanceRegistry" where
  "evict_idle now max_idle g =
     (let threshold = now - max_idle
      in (map (instance_mark_evicted ''idle_timeout'') (filter (is_idle threshold) (dvals (ir_instances g))),
          change_instances (is_idle threshold) (instance_mark_evicted ''idle_timeout'') g))"

section \<open>The runtime status of a deployment\<close>

record RuntimeStatusSummary =
  su_runtime_status :: DeploymentRuntimeStatus
  su_running_runs :: int
  su_queue_backlog :: int
  su_worker_distribution :: "(string \<times> int) list"
  su_last_runtime_error :: "string option"
  su_last_heartbeat_at :: "datetime option"
  su_loaded_at :: "datetime option"

definition latest :: "datetime option list \<Rightarrow> datetime option" where
  "latest ts = (case List.map_filter id ts of [] \<Rightarrow> None | us \<Rightarrow> Some (Max (set us)))"

definition runtime_status_of :: "DeploymentDesiredStatus \<Rightarrow> AgentInstanceStatus list \<Rightarrow> DeploymentRuntimeStatus" where
  "runtime_status_of desired active =
     (let available = filter can_serve active;
          loading = filter (\<lambda>s. s = Instance_loading) active;
          failed = filter (\<lambda>s. s = Instance_failed) active;
          draining = filter (\<lambda>s. s = Instance_draining) active
      in if desired = Desired_stopped \<and> active = [] then Runtime_stopped
         else if desired = Desired_draining \<or> (active \<noteq> [] \<and> length draining = length active)
           then Runtime_draining
         else if active = [] then Runtime_not_loaded
         else if available \<noteq> [] \<and> failed \<noteq> [] then Runtime_degraded
         else if available \<noteq> [] then Runtime_ready
         else if loading \<noteq> [] then Runtime_warming_up
         else if failed \<noteq> [] then Runtime_failed
         else Runtime_not_loaded)"

definition aggregate_runtime_status ::
  "DeploymentDesiredStatus \<Rightarrow> AgentInstanceRecord list \<Rightarrow> int \<Rightarrow> int \<Rightarrow> RuntimeStatusSummary" where
  "aggregate_runtime_status desired instances running_runs queue_backlog =
     (let active = filter (\<lambda>i. ai_status i \<noteq> Instance_evicted) instances
      in \<lparr>su_runtime_status = runtime_status_of desired (map ai_status active),
          su_running_runs = running_runs, su_queue_backlog = queue_backlog,
          su_worker_distribution =
            fold (\<lambda>i d. dset d (ai_worker_id i) (or_else (dget d (ai_worker_id i)) 0 + 1)) active [],
          su_last_runtime_error =
            (case filter (\<lambda>e. e \<noteq> None \<and> e \<noteq> Some []) (map ai_error (rev active)) of
               [] \<Rightarrow> None | e # _ \<Rightarrow> e),
          su_last_heartbeat_at = latest (map ai_heartbeat_at active),
          su_loaded_at = latest (map ai_loaded_at active)\<rparr>)"

section \<open>The control service\<close>

record DeploymentRecord =
  de_id :: int
  de_tenant_id :: int
  de_project_id :: int
  de_agent_id :: int
  de_agent_version_id :: int
  de_environment :: string
  de_desired_status :: DeploymentDesiredStatus
  de_runtime_status :: DeploymentRuntimeStatus
  de_replicas :: int
  de_config_json :: pydict
  de_last_runtime_error :: "string option"

record PolicyDecision =
  pd_allowed :: bool
  pd_reason :: "string option"

type_synonym deployment_policy = "string option \<Rightarrow> string \<Rightarrow> DeploymentRecord \<Rightarrow> PolicyDecision"

definition AllowAllPolicyEngine :: deployment_policy where
  "AllowAllPolicyEngine actor action d = \<lparr>pd_allowed = True, pd_reason = None\<rparr>"

definition StaticPolicyEngine :: "bool \<Rightarrow> string option \<Rightarrow> deployment_policy" where
  "StaticPolicyEngine allowed reason actor action d = \<lparr>pd_allowed = allowed, pd_reason = reason\<rparr>"

record AuditEntry =
  au_action :: string
  au_resource_type :: string
  au_resource_id :: int
  au_actor_id :: "string option"
  au_tenant_id :: int
  au_project_id :: int
  au_request_id :: "string option"
  au_result :: string
  au_metadata :: "(string \<times> string) list"

record deployment_store =
  ds_deployments :: "(int \<times> DeploymentRecord) list"
  ds_next_id :: int

definition add_deployment :: "DeploymentRecord \<Rightarrow> deployment_store \<Rightarrow> DeploymentRecord \<times> deployment_store" where
  "add_deployment d s =
     (let (d', n) = (if de_id d \<le> 0 then (d\<lparr>de_id := ds_next_id s\<rparr>, ds_next_id s + 1)
                     else (d, max (ds_next_id s) (de_id d + 1)))
      in (d', s\<lparr>ds_deployments := dset (ds_deployments s) (de_id d') d', ds_next_id := n\<rparr>))"

definition get_deployment :: "int \<Rightarrow> deployment_store \<Rightarrow> exn + DeploymentRecord" where
  "get_deployment deployment_id s = (case dget (ds_deployments s) deployment_id of
     None \<Rightarrow> Inl (DeploymentNotFoundError deployment_id) | Some d \<Rightarrow> Inr d)"

definition list_deployments :: "int option \<Rightarrow> int option \<Rightarrow> deployment_store \<Rightarrow> DeploymentRecord list" where
  "list_deployments tenant project s =
     filter (\<lambda>d. (tenant = None \<or> tenant = Some (de_tenant_id d)) \<and> (project = None \<or> project = Some (de_project_id d)))
       (dvals (ds_deployments s))"

definition save_deployment :: "DeploymentRecord \<Rightarrow> deployment_store \<Rightarrow> deployment_store" where
  "save_deployment d s = s\<lparr>ds_deployments := dset (ds_deployments s) (de_id d) d\<rparr>"

definition archive :: "int \<Rightarrow> (deployment_store, DeploymentRecord) eff" where
  "archive deployment_id s = (case get_deployment deployment_id s of
       Inl e \<Rightarrow> (Inl e, s)
     | Inr d \<Rightarrow> (Inr (d\<lparr>de_desired_status := Desired_archived, de_runtime_status := Runtime_stopped\<rparr>),
                 s\<lparr>ds_deployments := ddel (ds_deployments s) deployment_id\<rparr>))"

record deployment_service =
  sv_deployments :: deployment_store
  sv_instances :: AgentInstanceRegistry
  sv_audit :: "AuditEntry list"

record control_request =
  cr_actor_id :: "string option"
  cr_tenant_id :: "int option"
  cr_project_id :: "int option"
  cr_request_id :: "string option"

definition assert_deployment_binding ::
  "DeploymentRecord \<Rightarrow> int option \<Rightarrow> int option \<Rightarrow> int option \<Rightarrow> int option \<Rightarrow> exn + unit" where
  "assert_deployment_binding d tenant project agent version =
     (if tenant \<noteq> None \<and> tenant \<noteq> Some (de_tenant_id d)
        then Inl (PolicyDeniedError ''deployment_scope_mismatch'' ''deployment_scope_mismatch'')
      else if project \<noteq> None \<and> project \<noteq> Some (de_project_id d)
        then Inl (PolicyDeniedError ''deployment_scope_mismatch'' ''deployment_scope_mismatch'')
      else if agent \<noteq> None \<and> agent \<noteq> Some (de_agent_id d)
        then Inl (PolicyDeniedError ''deployment_agent_version_mismatch'' ''deployment_agent_version_mismatch'')
      else if version \<noteq> None \<and> version \<noteq> Some (de_agent_version_id d)
        then Inl (PolicyDeniedError ''deployment_agent_version_mismatch'' ''deployment_agent_version_mismatch'')
      else Inr ())"

definition audit_entry ::
  "string \<Rightarrow> DeploymentRecord \<Rightarrow> control_request \<Rightarrow> string \<Rightarrow> (string \<times> string) list \<Rightarrow> AuditEntry" where
  "audit_entry action d c result metadata =
     \<lparr>au_action = action, au_resource_type = ''deployment'', au_resource_id = de_id d,
      au_actor_id = cr_actor_id c, au_tenant_id = or_id (cr_tenant_id c) (de_tenant_id d),
      au_project_id = or_id (cr_project_id c) (de_project_id d), au_request_id = cr_request_id c,
      au_result = result, au_metadata = metadata\<rparr>"

definition write_audit :: "AuditEntry \<Rightarrow> deployment_service \<Rightarrow> deployment_service" where
  "write_audit e s = s\<lparr>sv_audit := sv_audit s @ [e]\<rparr>"

definition controlled_status ::
  "DeploymentDesiredStatus \<Rightarrow> int \<Rightarrow> AgentInstanceRegistry \<Rightarrow> DeploymentRuntimeStatus" where
  "controlled_status desired deployment_id g =
     (if desired = Desired_stopped then Runtime_stopped
      else if desired = Desired_draining then Runtime_draining
      else su_runtime_status (aggregate_runtime_status desired (list_by_deployment deployment_id g) 0 0))"

definition control ::
  "deployment_policy \<Rightarrow> int \<Rightarrow> control_request \<Rightarrow> string \<Rightarrow> DeploymentDesiredStatus \<Rightarrow>
     (deployment_service, DeploymentRecord) eff" where
  "control policy deployment_id c action desired s =
     (let act = ''deployment.'' @ action
      in case get_deployment deployment_id (sv_deployments s) of
           Inl e \<Rightarrow> (Inl e, s)
         | Inr d \<Rightarrow>
             (case assert_deployment_binding d (cr_tenant_id c) (cr_project_id c) None None of
                Inl (PolicyDeniedError reason code) \<Rightarrow>
                  (Inl (PolicyDeniedError reason code),
                   write_audit (audit_entry act d c ''denied'' [(''reason'', reason)]) s)
              | Inl e \<Rightarrow> (Inl e, s)
              | Inr _ \<Rightarrow>
                  let decision = policy (cr_actor_id c) act d;
                      reason = or_str (pd_reason decision) ''policy_denied''
                  in if \<not> pd_allowed decision then
                       (Inl (PolicyDeniedError reason ''policy_denied''),
                        write_audit (audit_entry act d c ''denied'' [(''reason'', reason)]) s)
                     else
                       let d' = d\<lparr>de_desired_status := desired,
                                   de_runtime_status := controlled_status desired deployment_id (sv_instances s)\<rparr>
                       in (Inr d', write_audit (audit_entry act d' c ''allowed'' [])
                             (s\<lparr>sv_deployments := save_deployment d' (sv_deployments s)\<rparr>))))"

definition activate :: "deployment_policy \<Rightarrow> int \<Rightarrow> control_request \<Rightarrow> (deployment_service, DeploymentRecord) eff" where
  "activate policy deployment_id c = control policy deployment_id c ''activate'' Desired_active"

definition pause :: "deployment_policy \<Rightarrow> int \<Rightarrow> control_request \<Rightarrow> (deployment_service, DeploymentRecord) eff" where
  "pause policy deployment_id c = control policy deployment_id c ''pause'' Desired_paused"

definition resume :: "deployment_policy \<Rightarrow> int \<Rightarrow> control_request \<Rightarrow> (deployment_service, DeploymentRecord) eff" where
  "resume policy deployment_id c = control policy deployment_id c ''resume'' Desired_active"

definition drain_deployment ::
  "deployment_policy \<Rightarrow> int \<Rightarrow> control_request \<Rightarrow> (deployment_service, DeploymentRecord) eff" where
  "drain_deployment policy deployment_id c =
     bnd (control policy deployment_id c ''drain'' Desired_draining) (\<lambda>d.
       seq (upd (\<lambda>s. s\<lparr>sv_instances := change_instances
                (\<lambda>i. ai_deployment_id i = deployment_id \<and> ai_status i \<noteq> Instance_evicted)
                (\<lambda>i. i\<lparr>ai_status := Instance_draining\<rparr>) (sv_instances s)\<rparr>))
           (ret d))"

definition evict_instances :: "int \<Rightarrow> string \<Rightarrow> (deployment_service, unit) eff" where
  "evict_instances deployment_id reason = upd (\<lambda>s.
     s\<lparr>sv_instances := snd (evict_deployment deployment_id reason (sv_instances s))\<rparr>)"

definition stop_deployment ::
  "deployment_policy \<Rightarrow> int \<Rightarrow> control_request \<Rightarrow> (deployment_service, DeploymentRecord) eff" where
  "stop_deployment policy deployment_id c =
     bnd (control policy deployment_id c ''stop'' Desired_stopped) (\<lambda>d.
       seq (evict_instances deployment_id ''stop'')
           (ret (d\<lparr>de_runtime_status := Runtime_stopped\<rparr>)))"

definition summarize :: "int \<Rightarrow> int \<Rightarrow> int \<Rightarrow> (deployment_service, RuntimeStatusSummary) eff" where
  "summarize deployment_id running_runs queue_backlog s =
     (case get_deployment deployment_id (sv_deployments s) of
        Inl e \<Rightarrow> (Inl e, s)
      | Inr d \<Rightarrow>
          let summary = aggregate_runtime_status (de_desired_status d)
                (list_by_deployment deployment_id (sv_instances s)) running_runs queue_backlog;
              d' = d\<lparr>de_runtime_status := su_runtime_status summary,
                      de_last_runtime_error := su_last_runtime_error summary\<rparr>
          in (Inr summary, s\<lparr>sv_deployments := (sv_deployments s)
                \<lparr>ds_deployments := dset (ds_deployments (sv_deployments s)) deployment_id d'\<rparr>\<rparr>))"

definition restart ::
  "deployment_policy \<Rightarrow> int \<Rightarrow> control_request \<Rightarrow> (deployment_service, DeploymentRecord) eff" where
  "restart policy deployment_id c =
     seq (control policy deployment_id c ''restart'' Desired_active)
       (seq (evict_instances deployment_id ''restart'')
         (seq (summarize deployment_id 0 0)
           (\<lambda>s. (get_deployment deployment_id (sv_deployments s), s))))"

definition list_instances :: "int \<Rightarrow> deployment_service \<Rightarrow> exn + AgentInstanceRecord list" where
  "list_instances deployment_id s = (case get_deployment deployment_id (sv_deployments s) of
     Inl e \<Rightarrow> Inl e | Inr _ \<Rightarrow> Inr (list_by_deployment deployment_id (sv_instances s)))"

definition assert_accepts_new_run ::
  "deployment_service \<Rightarrow> int \<Rightarrow> int option \<Rightarrow> int option \<Rightarrow> int option \<Rightarrow> int option \<Rightarrow> exn + unit" where
  "assert_accepts_new_run s deployment_id tenant project agent version =
     (case get_deployment deployment_id (sv_deployments s) of
        Inl e \<Rightarrow> Inl e
      | Inr d \<Rightarrow> (case assert_deployment_binding d tenant project agent version of
            Inl e \<Rightarrow> Inl e
          | Inr _ \<Rightarrow> if de_desired_status d \<noteq> Desired_active
              then Inl (PolicyDeniedError (''Deployment '' @ dec_int deployment_id @
                     '' does not accept new runs while '' @ desired_status_value (de_desired_status d) @ ''.'')
                     ''deployment_not_accepting_runs'')
              else Inr ()))"

section \<open>Cache keys and the choice of an instance\<close>

lemma build_cache_key_eq:
  "build_cache_key d v p = build_cache_key d' v' p' \<longleftrightarrow>
     d = d' \<and> v = v' \<and> or_str p ''default'' = or_str p' ''default''"
proof
  assume "build_cache_key d v p = build_cache_key d' v' p'"
  then have "dec_int d @ CHR '':'' # (dec_int v @ CHR '':'' # or_str p ''default'') =
      dec_int d' @ CHR '':'' # (dec_int v' @ CHR '':'' # or_str p' ''default'')"
    by (simp add: build_cache_key_def)
  from split_at_sep [OF this dec_int_no_colon dec_int_no_colon]
  have d: "dec_int d = dec_int d'"
    and r: "dec_int v @ CHR '':'' # or_str p ''default'' = dec_int v' @ CHR '':'' # or_str p' ''default''" by simp_all
  from split_at_sep [OF r dec_int_no_colon dec_int_no_colon] d
  show "d = d' \<and> v = v' \<and> or_str p ''default'' = or_str p' ''default''" by (auto dest: dec_int_inj)
qed (simp add: build_cache_key_def)

text \<open>Every instance is filed under its id and carries the cache key of its own fields.\<close>

definition wf_instances :: "AgentInstanceRegistry \<Rightarrow> bool" where
  "wf_instances g \<longleftrightarrow> distinct (dkeys (ir_instances g)) \<and>
     list_all (\<lambda>(k, i). k = ai_id i \<and> k < ir_next_id g \<and> ai_cache_key i =
       build_cache_key (ai_deployment_id i) (ai_agent_version_id i) (ai_execution_profile_id i)) (ir_instances g)"

definition keeps_instance :: "(AgentInstanceRecord \<Rightarrow> AgentInstanceRecord) \<Rightarrow> bool" where
  "keeps_instance f \<longleftrightarrow> (\<forall>i. ai_id (f i) = ai_id i \<and> ai_cache_key (f i) = ai_cache_key i \<and>
     ai_deployment_id (f i) = ai_deployment_id i \<and> ai_agent_version_id (f i) = ai_agent_version_id i \<and>
     ai_execution_profile_id (f i) = ai_execution_profile_id i)"

lemma keeps_instance_marks [simp]:
  "keeps_instance (instance_mark_ready now)" "keeps_instance (instance_mark_failed e now)"
  "keeps_instance (instance_mark_evicted r)" "keeps_instance (\<lambda>i. i\<lparr>ai_last_used_at := t\<rparr>)"
  "keeps_instance (\<lambda>i. i\<lparr>ai_status := st\<rparr>)"
  by (simp_all add: keeps_instance_def instance_mark_ready_def instance_mark_failed_def instance_mark_evicted_def)

lemma wf_change_instances: "wf_instances g \<Longrightarrow> keeps_instance f \<Longrightarrow> wf_instances (change_instances P f g)"
  by (auto simp: wf_instances_def change_instances_def keeps_instance_def list_all_iff split_beta comp_def)

lemma wf_dset_instance:
  assumes "wf_instances g" "dget (ir_instances g) k = Some i" "keeps_instance f"
  shows "wf_instances (g\<lparr>ir_instances := dset (ir_instances g) k (f i)\<rparr>)"
proof -
  have "(k, i) \<in> set (ir_instances g)" using assms(2) by (rule map_of_SomeD)
  then show ?thesis
    using assms by (auto simp: wf_instances_def keeps_instance_def list_all_iff in_dset_iff split: if_splits)
qed

lemma wf_on_instance: "wf_instances g \<Longrightarrow> keeps_instance f \<Longrightarrow> wf_instances (snd (on_instance k f g))"
  by (auto simp: on_instance_def wf_dset_instance split: option.split)

lemma wf_register_loading: "wf_instances g \<Longrightarrow> wf_instances (snd (register_loading now t p d a v w e g))"
  by (fastforce simp: wf_instances_def register_loading_def Let_def list_all_iff in_dset_iff split: if_splits)

inductive instances_reachable :: "AgentInstanceRegistry \<Rightarrow> bool" where
  instances_init: "instances_reachable init_instances"
| instances_loading: "instances_reachable g \<Longrightarrow> instances_reachable (snd (register_loading now t p d a v w e g))"
| instances_get: "instances_reachable g \<Longrightarrow> instances_reachable (snd (get_ready now d v e g))"
| instances_ready: "instances_reachable g \<Longrightarrow> instances_reachable (snd (mark_ready now k g))"
| instances_failed: "instances_reachable g \<Longrightarrow> instances_reachable (snd (mark_failed now k msg g))"
| instances_evict: "instances_reachable g \<Longrightarrow> instances_reachable (snd (evict_deployment d r g))"
| instances_idle: "instances_reachable g \<Longrightarrow> instances_reachable (snd (evict_idle now n g))"
| instances_drain: "instances_reachable g \<Longrightarrow> instances_reachable (change_instances P (\<lambda>i. i\<lparr>ai_status := Instance_draining\<rparr>) g)"

lemma wf_get_ready: "wf_instances g \<Longrightarrow> wf_instances (snd (get_ready now d v e g))"
  using wf_dset_instance [of g _ _ "\<lambda>i. i\<lparr>ai_last_used_at := Some now\<rparr>"]
  by (auto simp: get_ready_def Let_def find_Some_iff wf_instances_def split: option.split
    intro!: map_of_is_SomeI dest: nth_mem)

lemma reachable_wf_instances: "instances_reachable g \<Longrightarrow> wf_instances g"
proof (induction rule: instances_reachable.induct)
  case instances_init
  then show ?case by (simp add: wf_instances_def init_instances_def)
qed (simp_all add: wf_register_loading wf_get_ready mark_ready_def mark_failed_def wf_on_instance
  evict_deployment_def evict_idle_def Let_def wf_change_instances)

text \<open>
  The instance cache never hands out the wrong instance: in every registry the operations can
  produce, a look-up for a deployment, a version and a profile returns an instance loaded for exactly
  these, ready, idle or busy, and marks it used; it returns nothing only if there is no such instance.
\<close>

lemma get_ready_exact:
  assumes "instances_reachable g"
  shows "case get_ready now d v p g of
      (Some i, g') \<Rightarrow> ai_deployment_id i = d \<and> ai_agent_version_id i = v \<and>
        or_str (ai_execution_profile_id i) ''default'' = or_str p ''default'' \<and> can_serve (ai_status i) \<and>
        ai_last_used_at i = Some now \<and> dget (ir_instances g') (ai_id i) = Some i
    | (None, g') \<Rightarrow> g' = g \<and> list_all (\<lambda>i. \<not> (ai_deployment_id i = d \<and> ai_agent_version_id i = v \<and>
        or_str (ai_execution_profile_id i) ''default'' = or_str p ''default'' \<and> can_serve (ai_status i)))
        (dvals (ir_instances g))"
proof -
  let ?P = "\<lambda>(_, i). ai_cache_key i = build_cache_key d v p \<and> can_serve (ai_status i)"
  have wf: "wf_instances g" using assms by (rule reachable_wf_instances)
  show ?thesis
  proof (cases "find ?P (ir_instances g)")
    case None
    then have "get_ready now d v p g = (None, g)" by (simp add: get_ready_def)
    moreover have "\<forall>ki \<in> set (ir_instances g). \<not> ?P ki" using None by (auto simp: find_None_iff)
    ultimately show ?thesis
      using wf by (fastforce simp: wf_instances_def list_all_iff build_cache_key_eq split_beta)
  next
    case (Some ki)
    then obtain k i where ki: "ki = (k, i)" "(k, i) \<in> set (ir_instances g)" "?P (k, i)"
      by (cases ki) (auto simp: find_Some_iff dest: nth_mem)
    moreover have "k = ai_id i" "ai_cache_key i =
        build_cache_key (ai_deployment_id i) (ai_agent_version_id i) (ai_execution_profile_id i)"
      using wf ki(2) by (auto simp: wf_instances_def list_all_iff)
    ultimately show ?thesis using Some by (simp add: get_ready_def build_cache_key_eq Let_def)
  qed
qed

section \<open>The reported status\<close>

lemma all_draining_iff:
  "length (filter (\<lambda>s. s = Instance_draining) xs) = length xs \<longleftrightarrow> (\<forall>s \<in> set xs. s = Instance_draining)"
proof (induction xs)
  case (Cons x xs)
  have "length (filter (\<lambda>s. s = Instance_draining) xs) \<le> length xs" by (rule length_filter_le)
  then have "length (filter (\<lambda>s. s = Instance_draining) xs) \<noteq> Suc (length xs)" by linarith
  with Cons show ?case by (cases "x = Instance_draining") simp_all
qed simp

text \<open>
  What a reported status means: a deployment is reported ready or degraded exactly when it is not
  draining and some instance that is not evicted can serve; it is degraded rather than ready exactly
  when, besides, an instance has failed; it is reported stopped exactly when it was asked to stop and no
  instance is left.
\<close>

lemma reported_status_exact:
  "(su_runtime_status (aggregate_runtime_status desired instances n q) \<in> {Runtime_ready, Runtime_degraded} \<longleftrightarrow>
      desired \<noteq> Desired_draining \<and> list_ex (\<lambda>i. can_serve (ai_status i)) instances) \<and>
   (su_runtime_status (aggregate_runtime_status desired instances n q) = Runtime_degraded \<longleftrightarrow>
      desired \<noteq> Desired_draining \<and> list_ex (\<lambda>i. can_serve (ai_status i)) instances \<and>
      list_ex (\<lambda>i. ai_status i = Instance_failed) instances) \<and>
   (su_runtime_status (aggregate_runtime_status desired instances n q) = Runtime_stopped \<longleftrightarrow>
      desired = Desired_stopped \<and> list_all (\<lambda>i. ai_status i = Instance_evicted) instances)"
proof -
  define active where "active = map ai_status (filter (\<lambda>i. ai_status i \<noteq> Instance_evicted) instances)"
  have st: "su_runtime_status (aggregate_runtime_status desired instances n q) = runtime_status_of desired active"
    by (simp add: aggregate_runtime_status_def active_def Let_def)
  have serve: "filter can_serve active \<noteq> [] \<longleftrightarrow> list_ex (\<lambda>i. can_serve (ai_status i)) instances"
    by (auto simp: active_def filter_empty_conv list_ex_iff can_serve_def)
  have failed: "filter (\<lambda>s. s = Instance_failed) active \<noteq> [] \<longleftrightarrow> list_ex (\<lambda>i. ai_status i = Instance_failed) instances"
    by (auto simp: active_def filter_empty_conv list_ex_iff)
  have none: "active = [] \<longleftrightarrow> list_all (\<lambda>i. ai_status i = Instance_evicted) instances"
    by (auto simp: active_def filter_empty_conv list_all_iff)
  have drain: "filter can_serve active = []" if "length (filter (\<lambda>s. s = Instance_draining) active) = length active"
    using that unfolding all_draining_iff by (auto simp: filter_empty_conv can_serve_def)
  show ?thesis
    unfolding st serve [symmetric] failed [symmetric] none [symmetric] runtime_status_of_def Let_def
    using drain by (simp split: if_split)
qed

section \<open>Control, audit and acceptance of runs\<close>

definition wf_deployments :: "deployment_store \<Rightarrow> bool" where
  "wf_deployments s \<longleftrightarrow> all_entries (\<lambda>k d. de_id d = k) (ds_deployments s)"

lemma binding_denies:
  "assert_deployment_binding d t p a v = Inl e \<Longrightarrow> \<exists>r. e = PolicyDeniedError r r"
  by (auto simp: assert_deployment_binding_def split: if_splits)

lemma binding_accepts:
  "assert_deployment_binding d t p a v = Inr () \<longleftrightarrow> (t = None \<or> t = Some (de_tenant_id d)) \<and>
     (p = None \<or> p = Some (de_project_id d)) \<and> (a = None \<or> a = Some (de_agent_id d)) \<and>
     (v = None \<or> v = Some (de_agent_version_id d))"
  by (auto simp: assert_deployment_binding_def)

text \<open>Everything a control call can do: it misses, is refused, or is carried out.\<close>

lemma control_cases:
  obtains (missing) "get_deployment k (sv_deployments s) = Inl (DeploymentNotFoundError k)"
      "control policy k c act desired s = (Inl (DeploymentNotFoundError k), s)"
  | (denied) d reason code where "get_deployment k (sv_deployments s) = Inr d"
      "assert_deployment_binding d (cr_tenant_id c) (cr_project_id c) None None \<noteq> Inr () \<or>
         \<not> pd_allowed (policy (cr_actor_id c) (''deployment.'' @ act) d)"
      "control policy k c act desired s = (Inl (PolicyDeniedError reason code),
         write_audit (audit_entry (''deployment.'' @ act) d c ''denied'' [(''reason'', reason)]) s)"
  | (allowed) d d' where "get_deployment k (sv_deployments s) = Inr d"
      "assert_deployment_binding d (cr_tenant_id c) (cr_project_id c) None None = Inr ()"
      "pd_allowed (policy (cr_actor_id c) (''deployment.'' @ act) d)"
      "d' = d\<lparr>de_desired_status := desired, de_runtime_status := controlled_status desired k (sv_instances s)\<rparr>"
      "control policy k c act desired s = (Inr d', write_audit (audit_entry (''deployment.'' @ act) d' c ''allowed'' [])
         (s\<lparr>sv_deployments := save_deployment d' (sv_deployments s)\<rparr>))"
proof (cases "get_deployment k (sv_deployments s)")
  case (Inl e)
  then have "e = DeploymentNotFoundError k" by (simp add: get_deployment_def split: option.splits)
  with Inl show thesis by (intro missing) (simp_all add: control_def)
next
  case (Inr d)
  show thesis
  proof (cases "assert_deployment_binding d (cr_tenant_id c) (cr_project_id c) None None")
    case (Inl e)
    then obtain r where "e = PolicyDeniedError r r" using binding_denies by blast
    with Inl Inr show thesis by (intro denied) (simp_all add: control_def)
  next
    case ok: (Inr u)
    show thesis
    proof (cases "pd_allowed (policy (cr_actor_id c) (''deployment.'' @ act) d)")
      case True
      with ok Inr show thesis by (intro allowed [OF Inr _ _ refl]) (simp_all add: control_def Let_def)
    next
      case False
      with ok Inr show thesis by (intro denied) (simp_all add: control_def Let_def)
    qed
  qed
qed

text \<open>
  C32: Every control of a deployment leaves exactly one audit entry, written for that deployment and that
  actor. The entry says allowed exactly when the call returns; a refused call raises a policy error and
  leaves deployments and instances as they were; a call for an unknown deployment changes nothing.
\<close>

theorem control_audited:
  assumes "wf_deployments (sv_deployments s)"
  shows "case control policy k c act desired s of (r, s') \<Rightarrow> sv_instances s' = sv_instances s \<and>
    (case dget (ds_deployments (sv_deployments s)) k of
       None \<Rightarrow> r = Inl (DeploymentNotFoundError k) \<and> s' = s
     | Some d \<Rightarrow> \<exists>e. sv_audit s' = sv_audit s @ [e] \<and> au_resource_id e = k \<and> au_actor_id e = cr_actor_id c \<and>
         au_action e = ''deployment.'' @ act \<and>
         (case r of
            Inr d' \<Rightarrow> au_result e = ''allowed'' \<and> pd_allowed (policy (cr_actor_id c) (''deployment.'' @ act) d) \<and>
              de_desired_status d' = desired \<and>
              dget (ds_deployments (sv_deployments s')) = (dget (ds_deployments (sv_deployments s)))(k \<mapsto> d')
          | Inl x \<Rightarrow> au_result e = ''denied'' \<and> sv_deployments s' = sv_deployments s \<and>
              (\<exists>reason code. x = PolicyDeniedError reason code \<and> au_metadata e = [(''reason'', reason)])))"
proof -
  have k: "de_id d = k" if "get_deployment k (sv_deployments s) = Inr d" for d
    using that assms by (auto simp: get_deployment_def wf_deployments_def split: option.splits dest: all_entriesD)
  show ?thesis
  proof (cases rule: control_cases [of k s policy c act desired])
    case missing
    then show ?thesis by (auto simp: get_deployment_def split: option.splits)
  next
    case (denied d reason code)
    then show ?thesis using k [of d]
      by (auto simp: get_deployment_def write_audit_def audit_entry_def split: option.splits)
  next
    case (allowed d d')
    have "dget (dset (ds_deployments (sv_deployments s)) k d') = (dget (ds_deployments (sv_deployments s)))(k \<mapsto> d')"
      by (rule ext) simp
    then show ?thesis using allowed k [of d]
      by (auto simp: get_deployment_def write_audit_def audit_entry_def save_deployment_def split: option.splits)
  qed
qed

lemma get_deployment_frame:
  "get_deployment k (sv_deployments (write_audit e s)) = get_deployment k (sv_deployments s)"
  "get_deployment k (sv_deployments (s\<lparr>sv_instances := g\<rparr>)) = get_deployment k (sv_deployments s)"
  "get_deployment k (save_deployment d t) = (if k = de_id d then Inr d else get_deployment k t)"
  by (simp_all add: write_audit_def get_deployment_def save_deployment_def)

lemma find_evicted:
  assumes "wf_instances g"
  shows "find (\<lambda>(_, i). ai_cache_key i = build_cache_key k v p \<and> can_serve (ai_status i))
    (ir_instances (snd (evict_deployment k reason g))) = None"
proof -
  have "ai_deployment_id i = k" if "(j, i) \<in> set (ir_instances g)" "ai_cache_key i = build_cache_key k v p" for j i
    using assms that by (auto simp: wf_instances_def list_all_iff build_cache_key_eq)
  then show ?thesis
    by (auto simp: find_None_iff evict_deployment_def change_instances_def can_serve_def instance_mark_evicted_def
      split: if_splits)
qed

text \<open>
  C15: A deployment that was stopped serves nothing: once \<open>stop\<close> has returned, the deployment refuses new
  runs whatever the caller binds them to, none of its instances can be obtained for any version and
  profile, and its summary reports it stopped.
\<close>

theorem stopped_deployment_serves_nothing:
  assumes "instances_reachable (sv_instances s)" "wf_deployments (sv_deployments s)"
    and "stop_deployment policy k c s = (Inr d, s')"
  shows "(\<exists>e. assert_accepts_new_run s' k tenant project agent version = Inl e) \<and>
    fst (get_ready now k v p (sv_instances s')) = None \<and>
    (case summarize k n q s' of (r, _) \<Rightarrow>
       \<exists>su. r = Inr su \<and> su_runtime_status su = Runtime_stopped \<and> su_worker_distribution su = [])"
proof (cases rule: control_cases [of k s policy c "''stop''" Desired_stopped])
  case missing
  then show ?thesis using assms(3) by (simp add: stop_deployment_def bnd_def)
next
  case (denied d0 reason code)
  then show ?thesis using assms(3) by (simp add: stop_deployment_def bnd_def)
next
  case (allowed d0 d1)
  let ?a = "write_audit (audit_entry (''deployment.'' @ ''stop'') d1 c ''allowed'' [])
     (s\<lparr>sv_deployments := save_deployment d1 (sv_deployments s)\<rparr>)"
  have s': "s' = ?a\<lparr>sv_instances := snd (evict_deployment k ''stop'' (sv_instances s))\<rparr>"
    using assms(3) allowed(5)
    by (auto simp: stop_deployment_def evict_instances_def eff_simps write_audit_def)
  have "de_id d1 = k" "de_desired_status d1 = Desired_stopped"
    using allowed(1,4) assms(2)
    by (auto simp: get_deployment_def wf_deployments_def split: option.splits dest: all_entriesD)
  then have got: "get_deployment k (sv_deployments s') = Inr d1"
    unfolding s' by (simp add: get_deployment_frame)
  have refused: "\<exists>e. assert_accepts_new_run s' k tenant project agent version = Inl e"
    using got \<open>de_desired_status d1 = Desired_stopped\<close>
    by (auto simp: assert_accepts_new_run_def split: sum.split)
  have inst: "sv_instances s' = snd (evict_deployment k ''stop'' (sv_instances s))" by (simp add: s')
  have "fst (get_ready now k v p (sv_instances s')) = None"
    unfolding inst get_ready_def Let_def find_evicted [OF reachable_wf_instances [OF assms(1)]] by simp
  moreover have "filter (\<lambda>i. ai_status i \<noteq> Instance_evicted) (list_by_deployment k (sv_instances s')) = []"
    by (auto simp: inst filter_empty_conv list_by_deployment_def evict_deployment_def change_instances_def
      instance_mark_evicted_def)
  ultimately show ?thesis
    using refused got \<open>de_desired_status d1 = Desired_stopped\<close>
    by (simp add: summarize_def Let_def aggregate_runtime_status_def runtime_status_of_def)
qed

section \<open>An example\<close>

definition demo_deployment :: DeploymentRecord where
  "demo_deployment = \<lparr>de_id = 7, de_tenant_id = 1, de_project_id = 1, de_agent_id = 2, de_agent_version_id = 3,
     de_environment = ''prod'', de_desired_status = Desired_active, de_runtime_status = Runtime_ready,
     de_replicas = 1, de_config_json = [], de_last_runtime_error = None\<rparr>"

definition demo_instances :: AgentInstanceRegistry where
  "demo_instances = snd (mark_ready 5 1 (snd (register_loading 4 1 1 7 2 3 ''w1'' None init_instances)))"

definition demo_service :: deployment_service where
  "demo_service = \<lparr>sv_deployments = \<lparr>ds_deployments = [(7, demo_deployment)], ds_next_id = 8\<rparr>,
     sv_instances = demo_instances, sv_audit = []\<rparr>"

definition demo_control :: control_request where
  "demo_control = \<lparr>cr_actor_id = Some ''ada'', cr_tenant_id = Some 1, cr_project_id = Some 1, cr_request_id = None\<rparr>"

lemma demo_instances_reachable: "instances_reachable demo_instances"
  unfolding demo_instances_def by (intro instances_reachable.intros)

lemma demo_service_wf: "wf_deployments (sv_deployments demo_service)"
  by (simp add: demo_service_def wf_deployments_def all_entries_def demo_deployment_def)

lemmas demo_instances_simps = demo_instances_def register_loading_def mark_ready_def on_instance_def
  instance_mark_ready_def init_instances_def Let_def

theorem control_audited_witness:
  "\<exists>e. sv_audit (snd (control (StaticPolicyEngine False (Some ''frozen'')) 7 demo_control ''stop'' Desired_stopped demo_service))
     = [e] \<and> au_result e = ''denied''"
  using control_audited [OF demo_service_wf, where policy = "StaticPolicyEngine False (Some ''frozen'')" and k = 7
    and c = demo_control and act = "''stop''" and desired = Desired_stopped]
  by (auto simp: demo_service_def StaticPolicyEngine_def control_def get_deployment_def demo_control_def demo_deployment_def
    assert_deployment_binding_def write_audit_def audit_entry_def Let_def)

theorem stopped_deployment_serves_nothing_witness:
  "fst (get_ready 9 7 3 None (sv_instances (snd (stop_deployment AllowAllPolicyEngine 7 demo_control demo_service)))) = None"
proof -
  obtain d s' where "stop_deployment AllowAllPolicyEngine 7 demo_control demo_service = (Inr d, s')"
    by (simp add: stop_deployment_def control_def eff_simps evict_instances_def demo_service_def get_deployment_def
      demo_deployment_def demo_control_def assert_deployment_binding_def AllowAllPolicyEngine_def Let_def)
  then show ?thesis
    using stopped_deployment_serves_nothing [where s = demo_service and policy = AllowAllPolicyEngine and k = 7
        and c = demo_control and now = 9 and v = 3 and p = None]
      demo_instances_reachable demo_service_wf by (simp add: demo_service_def)
qed

end
