(* ===== verification/Worker_Registry.thy ===== *)
theory Worker_Registry
  imports Prelude "HOL-Library.List_Lexorder" "HOL-Library.Char_ord"
begin

text \<open>
  The registry of workers of \<open>runtime/capacity.py\<close>: one record per worker and scope, kept in the
  table \<open>worker_snapshots\<close> when the database can be used and in a dictionary of the process
  otherwise. The database itself is code of another party. Its table is a list of rows; the two flags
  of the registry say whether queries and whether whole transactions succeed, so that every way the
  code falls back to the dictionary is a branch here. A commit stamps \<open>updated_at\<close> with the clock
  reading \<open>clk\<close> on the rows it changes.
\<close>

section \<open>Records and rows\<close>

record WorkerRecord =
  wk_id :: "int option"
  wk_worker_id :: string
  wk_tenant_id :: int
  wk_project_id :: int
  wk_environment :: string
  wk_queues :: "string list"
  wk_version :: string
  wk_capacity :: int
  wk_status :: string
  wk_drain_status :: string
  wk_heartbeat_at :: "datetime option"
  wk_last_error :: "string option"
  wk_restart_requested_at :: "datetime option"
  wk_metadata :: pydict

record WorkerSnapshot =
  ws_id :: int
  ws_tenant_id :: int
  ws_project_id :: int
  ws_environment :: string
  ws_worker_id :: string
  ws_status :: string
  ws_drain_status :: string
  ws_version :: string
  ws_capacity :: int
  ws_heartbeat_at :: "datetime option"
  ws_last_error :: "string option"
  ws_restart_requested_at :: "datetime option"
  ws_metadata_json :: "pydict option"
  ws_is_deleted :: bool
  ws_updated_at :: datetime

text \<open>\<open>sorted({*queues}) or ["default"]\<close>\<close>

definition normal_queues :: "string list \<Rightarrow> string list" where
  "normal_queues queues = (case sort (remdups queues) of [] \<Rightarrow> [''default''] | qs \<Rightarrow> qs)"

definition new_worker :: "string \<Rightarrow> int \<Rightarrow> int \<Rightarrow> string \<Rightarrow> WorkerRecord" where
  "new_worker worker_id tenant project env =
     \<lparr>wk_id = None, wk_worker_id = worker_id, wk_tenant_id = tenant, wk_project_id = project,
      wk_environment = env, wk_queues = [''default''], wk_version = ''unknown'', wk_capacity = 1,
      wk_status = ''idle'', wk_drain_status = ''active'', wk_heartbeat_at = None,
      wk_last_error = None, wk_restart_requested_at = None, wk_metadata = []\<rparr>"

definition touch ::
  "string \<Rightarrow> datetime \<Rightarrow> string list option \<Rightarrow> string option \<Rightarrow> int option \<Rightarrow> string option \<Rightarrow>
     WorkerRecord \<Rightarrow> WorkerRecord" where
  "touch status heartbeat_at queues version capacity last_error w =
     w\<lparr>wk_status := status, wk_heartbeat_at := Some heartbeat_at,
       wk_queues := (case queues of None \<Rightarrow> wk_queues w | Some qs \<Rightarrow> normal_queues qs),
       wk_version := or_else version (wk_version w),
       wk_capacity := (case capacity of None \<Rightarrow> wk_capacity w
                       | Some c \<Rightarrow> if c > 0 then c else wk_capacity w),
       wk_last_error := (case last_error of None \<Rightarrow> wk_last_error w | Some e \<Rightarrow> Some e)\<rparr>"

definition record_from_snapshot :: "WorkerSnapshot \<Rightarrow> WorkerRecord" where
  "record_from_snapshot s =
     (let metadata = or_else (ws_metadata_json s) [];
          queues = (case dget metadata ''queues'' of
              None \<Rightarrow> [''default'']
            | Some (VList items) \<Rightarrow> map str_item items
            | Some _ \<Rightarrow> [''default''])
      in \<lparr>wk_id = Some (ws_id s), wk_worker_id = ws_worker_id s, wk_tenant_id = ws_tenant_id s,
          wk_project_id = ws_project_id s, wk_environment = ws_environment s,
          wk_queues = normal_queues queues, wk_version = ws_version s,
          wk_capacity = max 1 (ws_capacity s), wk_status = ws_status s,
          wk_drain_status = ws_drain_status s, wk_heartbeat_at = ws_heartbeat_at s,
          wk_last_error = ws_last_error s, wk_restart_requested_at = ws_restart_requested_at s,
          wk_metadata = ddel metadata ''queues''\<rparr>)"

section \<open>The table\<close>

record worker_table =
  wt_rows :: "WorkerSnapshot list"
  wt_next_id :: int

definition opt_eq :: "'a option \<Rightarrow> 'a \<Rightarrow> bool" where
  "opt_eq x y = (case x of None \<Rightarrow> True | Some v \<Rightarrow> v = y)"

type_synonym worker_scope = "int option \<times> int option \<times> string option"

fun row_in_scope :: "worker_scope \<Rightarrow> WorkerSnapshot \<Rightarrow> bool" where
  "row_in_scope (tenant, project, env) s \<longleftrightarrow> \<not> ws_is_deleted s \<and>
     opt_eq tenant (ws_tenant_id s) \<and> opt_eq project (ws_project_id s) \<and> opt_eq env (ws_environment s)"

definition latest_first :: "WorkerSnapshot \<Rightarrow> int \<times> int" where
  "latest_first s = (- ws_updated_at s, - ws_id s)"

definition latest_row :: "string \<Rightarrow> worker_scope \<Rightarrow> worker_table \<Rightarrow> WorkerSnapshot option" where
  "latest_row worker_id scope t =
     first_by latest_first (filter (\<lambda>s. ws_worker_id s = worker_id \<and> row_in_scope scope s) (wt_rows t))"

text \<open>An \<open>UPDATE\<close> of one row by its primary key; a row whose columns all keep their value is not written.\<close>

definition write_row :: "datetime \<Rightarrow> (WorkerSnapshot \<Rightarrow> WorkerSnapshot) \<Rightarrow> WorkerSnapshot \<Rightarrow> WorkerSnapshot" where
  "write_row clk f s = (if f s = s then s else (f s)\<lparr>ws_updated_at := clk\<rparr>)"

definition update_row ::
  "datetime \<Rightarrow> int \<Rightarrow> (WorkerSnapshot \<Rightarrow> WorkerSnapshot) \<Rightarrow> worker_table \<Rightarrow> worker_table" where
  "update_row clk rid f t =
     t\<lparr>wt_rows := map (\<lambda>s. if ws_id s = rid then write_row clk f s else s) (wt_rows t)\<rparr>"

text \<open>The columns \<open>_db_upsert\<close> assigns.\<close>

definition write_columns :: "WorkerRecord \<Rightarrow> WorkerSnapshot \<Rightarrow> WorkerSnapshot" where
  "write_columns w s =
     s\<lparr>ws_status := wk_status w, ws_drain_status := wk_drain_status w, ws_version := wk_version w,
       ws_capacity := max 1 (wk_capacity w), ws_heartbeat_at := wk_heartbeat_at w,
       ws_last_error := wk_last_error w, ws_restart_requested_at := wk_restart_requested_at w,
       ws_metadata_json := Some (dmerge [(''queues'', VList (map VStr (wk_queues w)))] (wk_metadata w))\<rparr>"

definition new_row :: "datetime \<Rightarrow> int \<Rightarrow> WorkerRecord \<Rightarrow> WorkerSnapshot" where
  "new_row clk rid w =
     \<lparr>ws_id = rid, ws_tenant_id = wk_tenant_id w, ws_project_id = wk_project_id w,
      ws_environment = wk_environment w, ws_worker_id = wk_worker_id w, ws_status = ''idle'',
      ws_drain_status = ''active'', ws_version = ''unknown'', ws_capacity = 1,
      ws_heartbeat_at = None, ws_last_error = None, ws_restart_requested_at = None,
      ws_metadata_json = None, ws_is_deleted = False, ws_updated_at = clk\<rparr>"

definition exact_scope :: "WorkerRecord \<Rightarrow> worker_scope" where
  "exact_scope w = (Some (wk_tenant_id w), Some (wk_project_id w), Some (wk_environment w))"

text \<open>\<open>_db_upsert\<close>; \<open>one_or_none\<close> raises when several rows match.\<close>

definition db_upsert :: "datetime \<Rightarrow> WorkerRecord \<Rightarrow> worker_table \<Rightarrow> worker_table option" where
  "db_upsert clk w t =
     (case filter (\<lambda>s. ws_worker_id s = wk_worker_id w \<and> row_in_scope (exact_scope w) s) (wt_rows t) of
        [] \<Rightarrow> Some (t\<lparr>wt_rows := wt_rows t @ [write_columns w (new_row clk (wt_next_id t) w)],
                      wt_next_id := wt_next_id t + 1\<rparr>)
      | [s] \<Rightarrow> Some (update_row clk (ws_id s) (write_columns w) t)
      | _ \<Rightarrow> None)"

definition db_set_drain_status ::
  "datetime \<Rightarrow> string \<Rightarrow> worker_scope \<Rightarrow> string \<Rightarrow> worker_table \<Rightarrow> worker_table option" where
  "db_set_drain_status clk worker_id scope drain_status t = (case latest_row worker_id scope t of
       None \<Rightarrow> None
     | Some s \<Rightarrow> Some (update_row clk (ws_id s)
         (\<lambda>r. r\<lparr>ws_drain_status := drain_status\<rparr>) t))"

definition db_request_restart ::
  "datetime \<Rightarrow> string \<Rightarrow> worker_scope \<Rightarrow> datetime \<Rightarrow> worker_table \<Rightarrow> worker_table option" where
  "db_request_restart clk worker_id scope at t = (case latest_row worker_id scope t of
       None \<Rightarrow> None
     | Some s \<Rightarrow> Some (update_row clk (ws_id s)
         (\<lambda>r. r\<lparr>ws_restart_requested_at := Some at\<rparr>) t))"

definition db_reset :: "worker_table \<Rightarrow> worker_table option" where
  "db_reset t = Some (t\<lparr>wt_rows := []\<rparr>)"

section \<open>The registry\<close>

record WorkerRegistry =
  rg_workers :: "(string \<times> WorkerRecord) list"
  rg_table :: worker_table
  rg_readable :: bool
  rg_writable :: bool

definition with_session ::
  "(worker_table \<Rightarrow> worker_table option) \<Rightarrow> WorkerRegistry \<Rightarrow> bool \<times> WorkerRegistry" where
  "with_session operation g =
     (if rg_writable g then
        (case operation (rg_table g) of None \<Rightarrow> (False, g) | Some t \<Rightarrow> (True, g\<lparr>rg_table := t\<rparr>))
      else (False, g))"

definition db_get :: "string \<Rightarrow> worker_scope \<Rightarrow> WorkerRegistry \<Rightarrow> WorkerRecord option" where
  "db_get worker_id scope g =
     (if rg_readable g then map_option record_from_snapshot (latest_row worker_id scope (rg_table g))
      else None)"

definition db_list :: "worker_scope \<Rightarrow> WorkerRegistry \<Rightarrow> WorkerRecord list" where
  "db_list scope g =
     (if rg_readable g then map record_from_snapshot (filter (row_in_scope scope) (wt_rows (rg_table g)))
      else [])"

fun record_in_scope :: "worker_scope \<Rightarrow> WorkerRecord \<Rightarrow> bool" where
  "record_in_scope (tenant, project, env) w \<longleftrightarrow>
     opt_eq tenant (wk_tenant_id w) \<and> opt_eq project (wk_project_id w) \<and> opt_eq env (wk_environment w)"

definition memory_get :: "string \<Rightarrow> worker_scope \<Rightarrow> WorkerRegistry \<Rightarrow> WorkerRecord option" where
  "memory_get worker_id scope g = (case dget (rg_workers g) worker_id of
       None \<Rightarrow> None
     | Some w \<Rightarrow> if record_in_scope scope w then Some w else None)"

definition get_worker :: "string \<Rightarrow> worker_scope \<Rightarrow> WorkerRegistry \<Rightarrow> WorkerRecord option" where
  "get_worker worker_id scope g = (case db_get worker_id scope g of
       Some w \<Rightarrow> Some w
     | None \<Rightarrow> memory_get worker_id scope g)"

definition list_workers :: "worker_scope \<Rightarrow> WorkerRegistry \<Rightarrow> WorkerRecord list" where
  "list_workers scope g =
     (let db = fold (\<lambda>w d. dset d (wk_worker_id w) w) (db_list scope g) [];
          workers = fold (\<lambda>w d. if wk_worker_id w \<in> set (dkeys d) then d else dset d (wk_worker_id w) w)
            (filter (record_in_scope scope) (dvals (rg_workers g))) db
      in sort_key wk_worker_id (dvals workers))"

definition require :: "string \<Rightarrow> worker_scope \<Rightarrow> WorkerRegistry \<Rightarrow> exn + WorkerRecord" where
  "require worker_id scope g = (case get_worker worker_id scope g of
       None \<Rightarrow> Inl KeyError | Some w \<Rightarrow> Inr w)"

definition store_memory :: "string \<Rightarrow> WorkerRecord \<Rightarrow> WorkerRegistry \<Rightarrow> WorkerRegistry" where
  "store_memory worker_id w g = g\<lparr>rg_workers := dset (rg_workers g) worker_id w\<rparr>"

text \<open>
  \<open>heartbeat\<close>. A record found in the dictionary is the dictionary's own object, so what is assigned
  to it stays there whether or not the row is written.
\<close>

definition worker_heartbeat ::
  "datetime \<Rightarrow> datetime \<Rightarrow> string \<Rightarrow> int \<Rightarrow> int \<Rightarrow> string \<Rightarrow> string \<Rightarrow> string list option \<Rightarrow>
     string option \<Rightarrow> int option \<Rightarrow> string option \<Rightarrow> WorkerRegistry \<Rightarrow> WorkerRecord \<times> WorkerRegistry" where
  "worker_heartbeat clk now worker_id tenant project env status queues version capacity last_error g =
     (let scope = (Some tenant, Some project, Some env);
          found = get_worker worker_id scope g;
          shared = (db_get worker_id scope g = None \<and> found \<noteq> None);
          w = touch status now queues version capacity last_error
                ((or_else found (new_worker worker_id tenant project env))
                   \<lparr>wk_tenant_id := tenant, wk_project_id := project, wk_environment := env\<rparr>);
          g1 = (if shared then store_memory worker_id w g else g);
          (persisted, g2) = with_session (db_upsert clk w) g1
      in if persisted then (or_else (get_worker worker_id scope g2) w, g2)
         else (w, store_memory worker_id w g2))"

definition ensure ::
  "datetime \<Rightarrow> string \<Rightarrow> int \<Rightarrow> int \<Rightarrow> string \<Rightarrow> string \<Rightarrow> string \<Rightarrow> int \<Rightarrow> WorkerRegistry \<Rightarrow>
     WorkerRecord \<times> WorkerRegistry" where
  "ensure clk worker_id tenant project env status version capacity g =
     (let scope = (Some tenant, Some project, Some env)
      in case get_worker worker_id scope g of
           Some w \<Rightarrow> (w, g)
         | None \<Rightarrow>
             let w = (new_worker worker_id tenant project env)
                       \<lparr>wk_status := status, wk_version := version, wk_capacity := max 1 capacity\<rparr>;
                 (persisted, g1) = with_session (db_upsert clk w) g
             in if persisted then (or_else (get_worker worker_id scope g1) w, g1)
                else (w, store_memory worker_id w g1))"

definition set_drain_status ::
  "datetime \<Rightarrow> string \<Rightarrow> string \<Rightarrow> worker_scope \<Rightarrow> (WorkerRegistry, WorkerRecord) eff" where
  "set_drain_status clk worker_id drain_status scope g =
     (case require worker_id scope g of
        Inl e \<Rightarrow> (Inl e, g)
      | Inr w \<Rightarrow>
          let sc = exact_scope w;
              (stored, g1) = (if db_get worker_id sc g = None then (False, g)
                              else with_session (db_set_drain_status clk worker_id sc drain_status) g);
              w' = w\<lparr>wk_drain_status := drain_status\<rparr>
          in if stored then (require worker_id sc g1, g1)
             else (Inr w', store_memory worker_id w' g1))"

definition drain_worker :: "datetime \<Rightarrow> string \<Rightarrow> worker_scope \<Rightarrow> (WorkerRegistry, WorkerRecord) eff" where
  "drain_worker clk worker_id scope = set_drain_status clk worker_id ''draining'' scope"

definition undrain_worker :: "datetime \<Rightarrow> string \<Rightarrow> worker_scope \<Rightarrow> (WorkerRegistry, WorkerRecord) eff" where
  "undrain_worker clk worker_id scope = set_drain_status clk worker_id ''active'' scope"

definition quarantine_worker :: "datetime \<Rightarrow> string \<Rightarrow> worker_scope \<Rightarrow> (WorkerRegistry, WorkerRecord) eff" where
  "quarantine_worker clk worker_id scope = set_drain_status clk worker_id ''quarantined'' scope"

definition request_restart ::
  "datetime \<Rightarrow> datetime \<Rightarrow> string \<Rightarrow> worker_scope \<Rightarrow> (WorkerRegistry, WorkerRecord) eff" where
  "request_restart clk now worker_id scope g =
     (case require worker_id scope g of
        Inl e \<Rightarrow> (Inl e, g)
      | Inr w \<Rightarrow>
          let sc = exact_scope w;
              (stored, g1) = (if db_get worker_id sc g = None then (False, g)
                              else with_session (db_request_restart clk worker_id sc now) g);
              w' = w\<lparr>wk_restart_requested_at := Some now\<rparr>
          in if stored then (require worker_id sc g1, g1)
             else (Inr w', store_memory worker_id w' g1))"

definition reset_workers :: "WorkerRegistry \<Rightarrow> WorkerRegistry" where
  "reset_workers g = snd (with_session db_reset (g\<lparr>rg_workers := []\<rparr>))"

section \<open>The table keeps one live row per worker and scope\<close>

type_synonym worker_key = "string \<times> int \<times> int \<times> string"

definition row_key :: "WorkerSnapshot \<Rightarrow> worker_key" where
  "row_key s = (ws_worker_id s, ws_tenant_id s, ws_project_id s, ws_environment s)"

fun key_scope :: "worker_key \<Rightarrow> worker_scope" where
  "key_scope (_, tenant, project, env) = (Some tenant, Some project, Some env)"

definition live_key :: "worker_key \<Rightarrow> WorkerSnapshot \<Rightarrow> bool" where
  "live_key k s \<longleftrightarrow> \<not> ws_is_deleted s \<and> row_key s = k"

definition row_of :: "worker_key \<Rightarrow> worker_table \<Rightarrow> WorkerSnapshot option" where
  "row_of k t = find (live_key k) (wt_rows t)"

text \<open>Primary keys are distinct and below the next one; the partial unique index holds.\<close>

definition wf_table :: "worker_table \<Rightarrow> bool" where
  "wf_table t \<longleftrightarrow> distinct (map ws_id (wt_rows t)) \<and> list_all (\<lambda>s. ws_id s < wt_next_id t) (wt_rows t) \<and>
     distinct (map row_key (filter (\<lambda>s. \<not> ws_is_deleted s) (wt_rows t)))"

lemma scope_live_key:
  "(ws_worker_id s = fst k \<and> row_in_scope (key_scope k) s) = live_key k s"
  by (cases k) (auto simp: live_key_def row_key_def opt_eq_def)

lemma filter_live_key:
  assumes "distinct (map row_key (filter (\<lambda>s. \<not> ws_is_deleted s) rows))"
  shows "filter (live_key k) rows = (case find (live_key k) rows of None \<Rightarrow> [] | Some s \<Rightarrow> [s])"
  using assms
proof (induction rows)
  case Nil
  then show ?case by simp
next
  case (Cons s rows)
  have "filter (live_key k) rows = []" if "live_key k s"
  proof -
    from that have "\<not> ws_is_deleted s" "row_key s = k" by (simp_all add: live_key_def)
    then have "\<forall>r \<in> set rows. \<not> ws_is_deleted r \<longrightarrow> row_key r \<noteq> k"
      using Cons.prems by (simp add: image_iff) metis
    then show ?thesis by (auto simp: filter_empty_conv live_key_def)
  qed
  with Cons show ?case by (auto split: if_splits)
qed

lemma latest_row_of:
  assumes "wf_table t"
  shows "latest_row (fst k) (key_scope k) t = row_of k t"
proof -
  have "latest_row (fst k) (key_scope k) t = first_by latest_first (filter (live_key k) (wt_rows t))"
    by (simp add: latest_row_def scope_live_key)
  then show ?thesis
    using assms by (simp add: filter_live_key wf_table_def row_of_def first_by_def split: option.split)
qed

definition record_key :: "WorkerRecord \<Rightarrow> worker_key" where
  "record_key w = (wk_worker_id w, wk_tenant_id w, wk_project_id w, wk_environment w)"

lemma exact_scope_key [simp]: "exact_scope w = key_scope (record_key w)"
  by (simp add: exact_scope_def record_key_def)

lemma fst_record_key [simp]: "fst (record_key w) = wk_worker_id w"
  by (simp add: record_key_def)

lemma db_upsert_row_of:
  assumes "wf_table t"
  shows "db_upsert clk w t = Some (case row_of (record_key w) t of
     None \<Rightarrow> t\<lparr>wt_rows := wt_rows t @ [write_columns w (new_row clk (wt_next_id t) w)],
                wt_next_id := wt_next_id t + 1\<rparr>
   | Some s \<Rightarrow> update_row clk (ws_id s) (write_columns w) t)"
proof -
  have "filter (\<lambda>s. ws_worker_id s = wk_worker_id w \<and> row_in_scope (exact_scope w) s) (wt_rows t)
          = filter (live_key (record_key w)) (wt_rows t)"
    using scope_live_key [of _ "record_key w"] by (simp add: record_key_def)
  then show ?thesis
    using assms by (simp add: db_upsert_def filter_live_key wf_table_def row_of_def split: option.split)
qed

text \<open>An update that touches neither the key nor the deletion mark nor the primary key.\<close>

definition keeps_identity :: "(WorkerSnapshot \<Rightarrow> WorkerSnapshot) \<Rightarrow> bool" where
  "keeps_identity f \<longleftrightarrow> (\<forall>s. ws_id (f s) = ws_id s \<and> row_key (f s) = row_key s \<and>
     ws_is_deleted (f s) = ws_is_deleted s)"

lemma keeps_identity_writes [simp]:
  "keeps_identity (write_columns w)"
  "keeps_identity (\<lambda>r. r\<lparr>ws_drain_status := d\<rparr>)"
  "keeps_identity (\<lambda>r. r\<lparr>ws_restart_requested_at := a\<rparr>)"
  by (simp_all add: keeps_identity_def write_columns_def row_key_def)

lemma keeps_identity_write_row: "keeps_identity f \<Longrightarrow> keeps_identity (write_row clk f)"
  by (simp add: keeps_identity_def write_row_def row_key_def)

lemma live_key_identity [simp]: "keeps_identity f \<Longrightarrow> live_key k (f s) = live_key k s"
  by (simp add: keeps_identity_def live_key_def)

lemma keeps_identity_at: "keeps_identity f \<Longrightarrow> keeps_identity (\<lambda>s. if ws_id s = rid then f s else s)"
  by (simp add: keeps_identity_def)

lemma map_identity:
  assumes "keeps_identity g"
  shows "map ws_id (map g rows) = map ws_id rows"
    and "map row_key (filter (\<lambda>s. \<not> ws_is_deleted s) (map g rows))
           = map row_key (filter (\<lambda>s. \<not> ws_is_deleted s) rows)"
    and "list_all (\<lambda>s. ws_id s < n) (map g rows) = list_all (\<lambda>s. ws_id s < n) rows"
  using assms by (induction rows) (simp_all add: keeps_identity_def)

lemma wf_update_row:
  assumes "wf_table t" "keeps_identity f"
  shows "wf_table (update_row clk rid f t)"
proof -
  have "keeps_identity (\<lambda>s. if ws_id s = rid then write_row clk f s else s)"
    using assms(2) by (simp add: keeps_identity_at keeps_identity_write_row)
  from map_identity [OF this] show ?thesis
    using assms(1) by (simp add: wf_table_def update_row_def del: map_map)
qed

lemma find_map_identity:
  assumes "keeps_identity f"
  shows "find (live_key k) (map (\<lambda>s. if ws_id s = rid then f s else s) rows) =
    map_option (\<lambda>s. if ws_id s = rid then f s else s) (find (live_key k) rows)"
  using assms by (induction rows) auto

lemma row_of_update_row:
  "keeps_identity f \<Longrightarrow> row_of k (update_row clk rid f t) =
     map_option (\<lambda>s. if ws_id s = rid then write_row clk f s else s) (row_of k t)"
  by (simp add: row_of_def update_row_def find_map_identity keeps_identity_write_row)

lemma row_of_key: "row_of k t = Some s \<Longrightarrow> row_key s = k \<and> s \<in> set (wt_rows t) \<and> \<not> ws_is_deleted s"
  by (auto simp: row_of_def find_Some_iff live_key_def)

lemma row_of_same_id:
  assumes "wf_table t" "row_of k t = Some s" "row_of k' t = Some s'" "ws_id s' = ws_id s"
  shows "k' = k"
proof -
  have "inj_on ws_id (set (wt_rows t))" using assms(1) by (simp add: wf_table_def distinct_map)
  then have "s' = s"
    using assms(4) row_of_key [OF assms(2)] row_of_key [OF assms(3)] by (blast dest: inj_onD)
  then show ?thesis using row_of_key [OF assms(2)] row_of_key [OF assms(3)] by simp
qed

text \<open>What the two kinds of row writes do to the live row of every key.\<close>

lemma row_of_updated:
  assumes "wf_table t" "row_of k t = Some s" "keeps_identity f"
  shows "row_of k' (update_row clk (ws_id s) f t) =
    (if k' = k then Some (write_row clk f s) else row_of k' t)"
proof (cases "k' = k")
  case True
  then show ?thesis by (simp only: row_of_update_row [OF assms(3)] assms(2) if_True option.map refl)
next
  case False
  then have "ws_id s' \<noteq> ws_id s" if "row_of k' t = Some s'" for s'
    using row_of_same_id [OF assms(1,2) that] by blast
  then show ?thesis
    using False by (cases "row_of k' t") (simp_all add: row_of_update_row [OF assms(3)])
qed

lemma find_snoc: "find P (xs @ [x]) = (case find P xs of None \<Rightarrow> if P x then Some x else None | Some y \<Rightarrow> Some y)"
  by (induction xs) auto

lemma row_of_appended:
  "\<not> ws_is_deleted s \<Longrightarrow> row_of (row_key s) t = None \<Longrightarrow>
     row_of k (t\<lparr>wt_rows := wt_rows t @ [s], wt_next_id := n\<rparr>) =
       (if k = row_key s then Some s else row_of k t)"
  by (auto simp: row_of_def find_snoc live_key_def split: option.split)

lemma wf_appended:
  assumes "wf_table t" "row_of (row_key s) t = None" "ws_id s = wt_next_id t"
  shows "wf_table (t\<lparr>wt_rows := wt_rows t @ [s], wt_next_id := wt_next_id t + 1\<rparr>)"
proof -
  have "row_key s \<notin> row_key ` set (filter (\<lambda>s. \<not> ws_is_deleted s) (wt_rows t))"
    using assms(2) by (auto simp: row_of_def find_None_iff live_key_def)
  moreover have "ws_id s \<notin> ws_id ` set (wt_rows t)"
    using assms by (auto simp: wf_table_def list_all_iff)
  ultimately show ?thesis using assms by (auto simp: wf_table_def list_all_iff)
qed

lemma new_row_identity [simp]:
  "row_key (write_columns w (new_row clk n w)) = record_key w"
  "ws_id (write_columns w (new_row clk n w)) = n"
  "\<not> ws_is_deleted (write_columns w (new_row clk n w))"
  by (simp_all add: write_columns_def new_row_def row_key_def record_key_def)

lemma upsert_table:
  assumes "wf_table t"
  obtains t' where "db_upsert clk w t = Some t'" "wf_table t'"
    "\<And>k. row_of k t' = (if k = record_key w then
       Some (case row_of k t of None \<Rightarrow> write_columns w (new_row clk (wt_next_id t) w)
             | Some s \<Rightarrow> write_row clk (write_columns w) s) else row_of k t)"
proof (cases "row_of (record_key w) t")
  case None
  let ?s = "write_columns w (new_row clk (wt_next_id t) w)"
  let ?t = "t\<lparr>wt_rows := wt_rows t @ [?s], wt_next_id := wt_next_id t + 1\<rparr>"
  show thesis
  proof (rule that)
    show "db_upsert clk w t = Some ?t" using assms None by (simp add: db_upsert_row_of)
    show "wf_table ?t" using assms None by (intro wf_appended) simp_all
    show "row_of k ?t = (if k = record_key w then
       Some (case row_of k t of None \<Rightarrow> ?s | Some s \<Rightarrow> write_row clk (write_columns w) s)
       else row_of k t)" for k
      using None row_of_appended [of ?s t k] by simp
  qed
next
  case (Some s)
  let ?t = "update_row clk (ws_id s) (write_columns w) t"
  show thesis
  proof (rule that)
    show "db_upsert clk w t = Some ?t" using assms Some by (simp add: db_upsert_row_of)
    show "wf_table ?t" using assms by (intro wf_update_row) simp_all
    show "row_of k ?t = (if k = record_key w then
       Some (case row_of k t of None \<Rightarrow> write_columns w (new_row clk (wt_next_id t) w)
             | Some s \<Rightarrow> write_row clk (write_columns w) s) else row_of k t)" for k
      using Some row_of_updated [OF assms Some, of "write_columns w" k] by simp
  qed
qed

section \<open>A row reads back as the record that was written\<close>

definition wf_worker :: "WorkerRecord \<Rightarrow> bool" where
  "wf_worker w \<longleftrightarrow> normal_queues (wk_queues w) = wk_queues w \<and> 1 \<le> wk_capacity w \<and>
     distinct (dkeys (wk_metadata w)) \<and> ''queues'' \<notin> set (dkeys (wk_metadata w))"

definition wf_row :: "WorkerSnapshot \<Rightarrow> bool" where
  "wf_row s \<longleftrightarrow> distinct (dkeys (or_else (ws_metadata_json s) []))"

lemma normal_queues_idem [simp]: "normal_queues (normal_queues qs) = normal_queues qs"
proof (cases "sort (remdups qs)")
  case Nil
  then show ?thesis by (simp add: normal_queues_def)
next
  case (Cons q r)
  have "distinct (sort (remdups qs))" "sorted (sort (remdups qs))" by simp_all
  then have "sort (remdups (q # r)) = q # r"
    unfolding Cons by (metis distinct_remdups_id sorted_sort_id)
  with Cons show ?thesis by (simp add: normal_queues_def)
qed

lemma dmerge_disjoint:
  "distinct (dkeys b) \<Longrightarrow> set (dkeys a) \<inter> set (dkeys b) = {} \<Longrightarrow> dmerge a b = a @ b"
proof (induction b arbitrary: a)
  case Nil
  then show ?case by simp
next
  case (Cons kv b)
  obtain k v where kv: "kv = (k, v)" by (cases kv)
  have "dset a k v = a @ [(k, v)]" using Cons.prems kv by (intro dset_new) auto
  moreover have "dmerge (a @ [(k, v)]) b = (a @ [(k, v)]) @ b"
    using Cons.prems kv by (intro Cons.IH) auto
  ultimately show ?case by (simp add: kv)
qed

lemma dset_twice: "dset (dset d k v) k u = dset d k u"
  by (induction d) auto

lemma ddel_absent: "k \<notin> set (dkeys d) \<Longrightarrow> ddel d k = d"
  by (induction d) auto

lemma written_metadata:
  "wf_worker w \<Longrightarrow> dmerge [(''queues'', VList (map VStr (wk_queues w)))] (wk_metadata w) =
     (''queues'', VList (map VStr (wk_queues w))) # wk_metadata w"
  by (subst dmerge_disjoint) (auto simp: wf_worker_def)

lemma read_back:
  assumes "wf_worker w" "row_key s = record_key w"
  shows "record_from_snapshot (write_columns w s) = w\<lparr>wk_id := Some (ws_id s)\<rparr>"
proof -
  have "map (str_item \<circ> VStr) qs = qs" for qs by (induction qs) simp_all
  moreover have "ddel (wk_metadata w) ''queues'' = wk_metadata w"
    using assms(1) by (intro ddel_absent) (simp add: wf_worker_def)
  ultimately show ?thesis
    using assms unfolding record_from_snapshot_def Let_def write_columns_def written_metadata [OF assms(1)]
    by (simp add: wf_worker_def row_key_def record_key_def)
qed

lemma read_back_stamped: "record_from_snapshot (s\<lparr>ws_updated_at := clk\<rparr>) = record_from_snapshot s"
  by (simp add: record_from_snapshot_def Let_def)

lemma read_back_written:
  "record_from_snapshot (write_row clk f s) = record_from_snapshot (f s)"
  by (simp add: write_row_def read_back_stamped)

lemma wf_row_written [simp]: "wf_row (write_columns w s)"
  by (simp add: wf_row_def write_columns_def)

lemma wf_row_stamped [simp]: "wf_row (s\<lparr>ws_updated_at := clk\<rparr>) = wf_row s"
  by (simp add: wf_row_def)

lemma wf_worker_read [simp]: "wf_row s \<Longrightarrow> wf_worker (record_from_snapshot s)"
  by (auto simp: wf_row_def wf_worker_def record_from_snapshot_def Let_def delete_keys distinct_removeAll)

lemma record_key_read [simp]: "record_key (record_from_snapshot s) = row_key s"
  by (simp add: record_key_def record_from_snapshot_def row_key_def Let_def)

lemma wf_worker_new [simp]: "wf_worker (new_worker w t p e)"
  by (simp add: wf_worker_def new_worker_def normal_queues_def)

lemma wf_worker_touch [simp]: "wf_worker w \<Longrightarrow> wf_worker (touch st now qs v c e w)"
  by (simp add: wf_worker_def touch_def split: option.split)

lemma record_key_simps [simp]:
  "record_key (new_worker w t p e) = (w, t, p, e)"
  "record_key (touch st now qs v c er r) = record_key r"
  "record_key (r\<lparr>wk_drain_status := d\<rparr>) = record_key r"
  "record_key (r\<lparr>wk_id := i\<rparr>) = record_key r"
  by (simp_all add: record_key_def new_worker_def touch_def)

section \<open>The registry as a map\<close>

definition wf_registry :: "WorkerRegistry \<Rightarrow> bool" where
  "wf_registry g \<longleftrightarrow> wf_table (rg_table g) \<and> list_all wf_row (wt_rows (rg_table g)) \<and>
     distinct (dkeys (rg_workers g)) \<and>
     all_entries (\<lambda>k w. wk_worker_id w = k \<and> wf_worker w) (rg_workers g)"

text \<open>What a caller sees under a key; the primary key of the row is of no account.\<close>

definition worker_view :: "WorkerRegistry \<Rightarrow> worker_key \<Rightarrow> WorkerRecord option" where
  "worker_view g k = map_option (\<lambda>w. w\<lparr>wk_id := None\<rparr>) (get_worker (fst k) (key_scope k) g)"

definition db_part :: "WorkerRegistry \<Rightarrow> worker_key \<Rightarrow> WorkerRecord option" where
  "db_part g k = (if rg_readable g then map_option record_from_snapshot (row_of k (rg_table g)) else None)"

definition memory_part :: "WorkerRegistry \<Rightarrow> worker_key \<Rightarrow> WorkerRecord option" where
  "memory_part g k = (case dget (rg_workers g) (fst k) of
     None \<Rightarrow> None | Some w \<Rightarrow> if record_key w = k then Some w else None)"

lemma db_get_part: "wf_registry g \<Longrightarrow> db_get (fst k) (key_scope k) g = db_part g k"
  by (simp add: db_get_def db_part_def latest_row_of wf_registry_def)

lemma memory_get_part:
  assumes "wf_registry g"
  shows "memory_get (fst k) (key_scope k) g = memory_part g k"
proof -
  have "record_in_scope (key_scope k) w = (record_key w = k)" if "wk_worker_id w = fst k" for w
    using that by (cases k) (auto simp: record_key_def opt_eq_def)
  then show ?thesis
    using assms by (auto simp: memory_get_def memory_part_def wf_registry_def
      split: option.split dest: all_entriesD)
qed

lemma get_worker_parts:
  "wf_registry g \<Longrightarrow> get_worker (fst k) (key_scope k) g =
     (case db_part g k of Some w \<Rightarrow> Some w | None \<Rightarrow> memory_part g k)"
  by (simp add: get_worker_def db_get_part memory_get_part split: option.split)

lemma db_part_wf: "wf_registry g \<Longrightarrow> db_part g k = Some w \<Longrightarrow> wf_worker w \<and> record_key w = k"
  by (auto simp: db_part_def wf_registry_def list_all_iff split: if_splits dest: row_of_key)

lemma memory_part_wf: "wf_registry g \<Longrightarrow> memory_part g k = Some w \<Longrightarrow> wf_worker w \<and> record_key w = k"
  by (auto simp: memory_part_def wf_registry_def split: if_splits option.splits dest: all_entriesD)

lemma get_worker_wf:
  assumes "wf_registry g" "get_worker (fst k) (key_scope k) g = Some w"
  shows "wf_worker w" and "record_key w = k"
  using assms db_part_wf [OF assms(1), of k w] memory_part_wf [OF assms(1), of k w]
  by (auto simp: get_worker_parts split: option.splits)

lemma wf_store_memory [simp]:
  "wf_registry g \<Longrightarrow> wf_worker w \<Longrightarrow> wf_registry (store_memory (wk_worker_id w) w g)"
  by (auto simp: wf_registry_def store_memory_def)

lemma parts_store_memory:
  "db_part (store_memory wid w g) k = db_part g k"
  "memory_part (store_memory wid w g) k =
     (if fst k = wid then if record_key w = k then Some w else None else memory_part g k)"
  by (simp_all add: db_part_def memory_part_def store_memory_def)

lemma memory_part_unique:
  "memory_part g k = Some w \<Longrightarrow> fst k' = fst k \<Longrightarrow> k' \<noteq> k \<Longrightarrow> memory_part g k' = None"
  by (auto simp: memory_part_def split: option.splits if_splits)

lemma upsert_rows_wf:
  "wf_table t \<Longrightarrow> list_all wf_row (wt_rows t) \<Longrightarrow> db_upsert clk w t = Some t' \<Longrightarrow> list_all wf_row (wt_rows t')"
  by (auto simp: db_upsert_row_of update_row_def write_row_def list_all_iff split: option.splits)

lemma persist_worker:
  assumes g: "wf_registry g" and w: "wf_worker w" and writes: "rg_writable g"
  obtains t i where "with_session (db_upsert clk w) g = (True, g\<lparr>rg_table := t\<rparr>)"
    "wf_registry (g\<lparr>rg_table := t\<rparr>)"
    "\<And>k. db_part (g\<lparr>rg_table := t\<rparr>) k =
       (if rg_readable g \<and> k = record_key w then Some (w\<lparr>wk_id := Some i\<rparr>) else db_part g k)"
proof -
  have wf: "wf_table (rg_table g)" "list_all wf_row (wt_rows (rg_table g))"
    using g by (simp_all add: wf_registry_def)
  obtain t where t: "db_upsert clk w (rg_table g) = Some t" "wf_table t"
    and rows: "\<And>k. row_of k t = (if k = record_key w then
       Some (case row_of k (rg_table g) of None \<Rightarrow> write_columns w (new_row clk (wt_next_id (rg_table g)) w)
             | Some s \<Rightarrow> write_row clk (write_columns w) s) else row_of k (rg_table g))"
    by (rule upsert_table [OF wf(1), of clk w]) (rule that; assumption)
  define i where "i = (case row_of (record_key w) (rg_table g) of
    None \<Rightarrow> wt_next_id (rg_table g) | Some s \<Rightarrow> ws_id s)"
  have new: "row_key (new_row clk n w) = record_key w" "ws_id (new_row clk n w) = n" for n
    by (simp_all add: new_row_def row_key_def record_key_def)
  show thesis
  proof (rule that)
    show "with_session (db_upsert clk w) g = (True, g\<lparr>rg_table := t\<rparr>)"
      using writes t(1) by (simp add: with_session_def)
    show "wf_registry (g\<lparr>rg_table := t\<rparr>)"
      using g t upsert_rows_wf [OF wf t(1)] by (simp add: wf_registry_def)
    show "db_part (g\<lparr>rg_table := t\<rparr>) k =
       (if rg_readable g \<and> k = record_key w then Some (w\<lparr>wk_id := Some i\<rparr>) else db_part g k)" for k
      using row_of_key [of "record_key w" "rg_table g"]
      by (auto simp: db_part_def rows i_def read_back [OF w] read_back_written new split: option.split)
  qed
qed

text \<open>The record a heartbeat writes, from what the caller sees under the key.\<close>

definition beat :: "string \<Rightarrow> datetime \<Rightarrow> string list option \<Rightarrow> string option \<Rightarrow> int option \<Rightarrow> string option \<Rightarrow>
    worker_key \<Rightarrow> WorkerRecord option \<Rightarrow> WorkerRecord" where
  "beat status now queues version capacity last_error k found =
     touch status now queues version capacity last_error
       (or_else found (case k of (wid, tenant, project, env) \<Rightarrow> new_worker wid tenant project env))"

lemma beat_wf:
  assumes "\<And>w. found = Some w \<Longrightarrow> wf_worker w \<and> record_key w = k"
  shows "wf_worker (beat st now qs v c er k found)" and "record_key (beat st now qs v c er k found) = k"
  using assms by (cases k; cases found; simp add: beat_def)+

lemma heartbeat_unfold:
  fixes wid tenant project env st now qs v c er clk
  assumes "wf_registry g"
  defines "k \<equiv> (wid, tenant, project, env)"
  defines "w \<equiv> beat st now qs v c er k (get_worker wid (key_scope k) g)"
  defines "g1 \<equiv> (if db_part g k = None \<and> memory_part g k \<noteq> None then store_memory wid w g else g)"
  shows "worker_heartbeat clk now wid tenant project env st qs v c er g =
    (case with_session (db_upsert clk w) g1 of (persisted, g2) \<Rightarrow>
       if persisted then (or_else (get_worker wid (key_scope k) g2) w, g2) else (w, store_memory wid w g2))"
proof -
  have "(or_else f (new_worker wid tenant project env))
      \<lparr>wk_tenant_id := tenant, wk_project_id := project, wk_environment := env\<rparr> =
      or_else f (new_worker wid tenant project env)"
    if "\<And>r. f = Some r \<Longrightarrow> record_key r = k" for f
    using that by (cases f) (auto simp: k_def record_key_def new_worker_def)
  from this [of "get_worker wid (key_scope k) g"]
  have rec: "touch st now qs v c er ((or_else (get_worker wid (key_scope k) g) (new_worker wid tenant project env))
      \<lparr>wk_tenant_id := tenant, wk_project_id := project, wk_environment := env\<rparr>) = w"
    using get_worker_wf(2) [OF assms(1), of k] by (simp add: w_def beat_def k_def)
  have shared: "(db_get wid (key_scope k) g = None \<and> get_worker wid (key_scope k) g \<noteq> None) =
      (db_part g k = None \<and> memory_part g k \<noteq> None)"
    using get_worker_parts [OF assms(1), of k] db_get_part [OF assms(1), of k]
    by (auto simp: k_def split: option.splits)
  have "worker_heartbeat clk now wid tenant project env st qs v c er g =
    (case with_session (db_upsert clk w) g1 of (persisted, g2) \<Rightarrow>
       if persisted then (or_else (get_worker wid (key_scope k) g2) w, g2) else (w, store_memory wid w g2))"
    unfolding worker_heartbeat_def Let_def key_scope.simps [of wid, symmetric] k_def [symmetric] rec shared g1_def
    by (rule refl)
  then show ?thesis .
qed

lemma heartbeat_usable:
  fixes wid tenant project env st now qs v c er clk
  assumes g: "wf_registry g" and up: "rg_readable g" "rg_writable g"
  defines "k \<equiv> (wid, tenant, project, env)"
  defines "w \<equiv> beat st now qs v c er k (get_worker wid (key_scope k) g)"
  defines "h \<equiv> worker_heartbeat clk now wid tenant project env st qs v c er g"
  shows "wf_registry (snd h)" and "rg_readable (snd h)" "rg_writable (snd h)"
    and "\<exists>i. get_worker wid (key_scope k) (snd h) = Some (w\<lparr>wk_id := i\<rparr>) \<and> fst h = w\<lparr>wk_id := i\<rparr>"
    and "k' \<noteq> k \<Longrightarrow> get_worker (fst k') (key_scope k') (snd h) = get_worker (fst k') (key_scope k') g"
proof -
  let ?g1 = "if db_part g k = None \<and> memory_part g k \<noteq> None then store_memory wid w g else g"
  have w: "wf_worker w" "record_key w = k"
    using beat_wf [of "get_worker wid (key_scope k) g" k] get_worker_wf [OF g, of k]
    by (auto simp: w_def k_def)
  then have wid: "wk_worker_id w = wid" by (simp add: record_key_def k_def)
  have g1: "wf_registry ?g1" "rg_writable ?g1" "rg_readable ?g1"
    using g w(1) up wf_store_memory [OF g w(1)] wid by (auto simp: store_memory_def)
  obtain t i where t: "with_session (db_upsert clk w) ?g1 = (True, ?g1\<lparr>rg_table := t\<rparr>)"
    and wf: "wf_registry (?g1\<lparr>rg_table := t\<rparr>)"
    and db: "\<And>k'. db_part (?g1\<lparr>rg_table := t\<rparr>) k' =
       (if rg_readable ?g1 \<and> k' = record_key w then Some (w\<lparr>wk_id := Some i\<rparr>) else db_part ?g1 k')"
    by (rule persist_worker [OF g1(1) w(1) g1(2), of clk]) (rule that; assumption)
  let ?g2 = "?g1\<lparr>rg_table := t\<rparr>"
  have got: "get_worker wid (key_scope k) ?g2 = Some (w\<lparr>wk_id := Some i\<rparr>)"
    using get_worker_parts [OF wf, of k] db [of k] g1(3) w(2) by (simp add: k_def)
  have h: "h = (w\<lparr>wk_id := Some i\<rparr>, ?g2)"
    unfolding h_def heartbeat_unfold [OF g] k_def [symmetric] w_def [symmetric] t
    using got by simp
  show "wf_registry (snd h)" "rg_readable (snd h)" "rg_writable (snd h)"
    unfolding h using wf g1 by simp_all
  show "\<exists>i. get_worker wid (key_scope k) (snd h) = Some (w\<lparr>wk_id := i\<rparr>) \<and> fst h = w\<lparr>wk_id := i\<rparr>"
    unfolding h using got by auto
  assume "k' \<noteq> k"
  then have "db_part ?g2 k' = db_part g k'" "memory_part ?g2 k' = memory_part g k'"
    using db [of k'] w(2) parts_store_memory [of wid w g k']
    by (auto simp: memory_part_def k_def split: option.splits)
  then show "get_worker (fst k') (key_scope k') (snd h) = get_worker (fst k') (key_scope k') g"
    unfolding h snd_conv get_worker_parts [OF wf] get_worker_parts [OF g] by (simp only:)
qed

lemma heartbeat_unusable:
  fixes wid tenant project env st now qs v c er clk
  assumes g: "wf_registry g" and up: "\<not> rg_readable g" "\<not> rg_writable g"
  defines "k \<equiv> (wid, tenant, project, env)"
  defines "w \<equiv> beat st now qs v c er k (get_worker wid (key_scope k) g)"
  defines "h \<equiv> worker_heartbeat clk now wid tenant project env st qs v c er g"
  shows "wf_registry (snd h)" and "\<not> rg_readable (snd h)" "\<not> rg_writable (snd h)"
    and "get_worker wid (key_scope k) (snd h) = Some w \<and> fst h = w"
    and "fst k' \<noteq> wid \<Longrightarrow> get_worker (fst k') (key_scope k') (snd h) = get_worker (fst k') (key_scope k') g"
proof -
  have w: "wf_worker w" "record_key w = k"
    using beat_wf [of "get_worker wid (key_scope k) g" k] get_worker_wf [OF g, of k]
    by (auto simp: w_def k_def)
  then have wid: "wk_worker_id w = wid" by (simp add: record_key_def k_def)
  have twice: "store_memory wid w (store_memory wid w g) = store_memory wid w g"
    by (simp add: store_memory_def dset_twice)
  have h: "h = (w, store_memory wid w g)"
    unfolding h_def heartbeat_unfold [OF g] k_def [symmetric] w_def [symmetric] with_session_def
    using up twice by (simp add: store_memory_def)
  show wf: "wf_registry (snd h)" using wf_store_memory [OF g w(1)] wid h by simp
  show "\<not> rg_readable (snd h)" "\<not> rg_writable (snd h)" using h up by (simp_all add: store_memory_def)
  have no_db: "db_part (snd h) j = None" "db_part g j = None" for j
    using up h by (simp_all add: db_part_def store_memory_def)
  show "get_worker wid (key_scope k) (snd h) = Some w \<and> fst h = w"
    using get_worker_parts [OF wf, of k] no_db h w parts_store_memory(2) [of wid w g k] by (simp add: k_def)
  assume "fst k' \<noteq> wid"
  then show "get_worker (fst k') (key_scope k') (snd h) = get_worker (fst k') (key_scope k') g"
    using get_worker_parts [OF wf, of k'] get_worker_parts [OF g, of k'] no_db h
      parts_store_memory(2) [of wid w g k'] by simp
qed

lemma set_drain_row:
  fixes clk d
  assumes g: "wf_registry g" and s: "row_of k (rg_table g) = Some s"
  defines "g1 \<equiv> g\<lparr>rg_table := update_row clk (ws_id s) (\<lambda>r. r\<lparr>ws_drain_status := d\<rparr>) (rg_table g)\<rparr>"
  shows "wf_registry g1"
    and "db_part g1 k' = (if rg_readable g \<and> k' = k
           then Some ((record_from_snapshot s)\<lparr>wk_drain_status := d\<rparr>) else db_part g k')"
proof -
  have t: "wf_table (rg_table g)" using g by (simp add: wf_registry_def)
  have rows: "row_of k' (rg_table g1) = (if k' = k then
      Some (write_row clk (\<lambda>r. r\<lparr>ws_drain_status := d\<rparr>) s) else row_of k' (rg_table g))"
    using row_of_updated [OF t s, of "\<lambda>r. r\<lparr>ws_drain_status := d\<rparr>"] by (simp add: g1_def)
  have readable: "rg_readable g1 = rg_readable g" by (simp add: g1_def)
  have "wf_table (rg_table g1)" using t by (simp add: g1_def wf_update_row)
  moreover have "list_all wf_row (wt_rows (rg_table g1))"
    using g by (auto simp: wf_registry_def g1_def update_row_def write_row_def list_all_iff wf_row_def)
  ultimately show "wf_registry g1" using g by (simp add: wf_registry_def g1_def)
  have "record_from_snapshot (write_row clk (\<lambda>r. r\<lparr>ws_drain_status := d\<rparr>) s) =
      (record_from_snapshot s)\<lparr>wk_drain_status := d\<rparr>"
    by (simp add: read_back_written) (simp add: record_from_snapshot_def Let_def)
  then show "db_part g1 k' = (if rg_readable g \<and> k' = k
      then Some ((record_from_snapshot s)\<lparr>wk_drain_status := d\<rparr>) else db_part g k')"
    using rows readable by (cases "k' = k") (simp_all add: db_part_def)
qed

lemma set_drain_effect:
  assumes g: "wf_registry g" and rw: "rg_readable g \<longrightarrow> rg_writable g"
    and found: "get_worker (fst k) (key_scope k) g = Some w0"
  obtains g1 where "set_drain_status clk (fst k) d (key_scope k) g = (Inr (w0\<lparr>wk_drain_status := d\<rparr>), g1)"
    "wf_registry g1" "rg_readable g1 = rg_readable g" "rg_writable g1 = rg_writable g"
    "\<And>k'. get_worker (fst k') (key_scope k') g1 =
       (if k' = k then Some (w0\<lparr>wk_drain_status := d\<rparr>) else get_worker (fst k') (key_scope k') g)"
proof -
  have w0: "wf_worker w0" "record_key w0 = k" using get_worker_wf [OF g found] by simp_all
  then have wid: "wk_worker_id w0 = fst k" by (auto simp: record_key_def)
  show thesis
  proof (cases "db_part g k")
    case None
    then have mem: "memory_part g k = Some w0" using found get_worker_parts [OF g, of k] by simp
    let ?w = "w0\<lparr>wk_drain_status := d\<rparr>"
    let ?g1 = "store_memory (fst k) ?w g"
    have wf: "wf_registry ?g1" using wf_store_memory [OF g, of ?w] w0 wid by (simp add: wf_worker_def)
    show thesis
    proof (rule that)
      show "set_drain_status clk (fst k) d (key_scope k) g = (Inr ?w, ?g1)"
        using found None w0(2) by (simp add: set_drain_status_def require_def db_get_part [OF g] Let_def)
      show "wf_registry ?g1" "rg_readable ?g1 = rg_readable g" "rg_writable ?g1 = rg_writable g"
        using wf by (simp_all add: store_memory_def)
      show "get_worker (fst k') (key_scope k') ?g1 =
          (if k' = k then Some ?w else get_worker (fst k') (key_scope k') g)" for k'
        using None w0(2) memory_part_unique [OF mem, of k']
        by (simp add: get_worker_parts [OF wf] get_worker_parts [OF g] parts_store_memory split: option.split)
    qed
  next
    case (Some w1)
    then obtain s where s: "row_of k (rg_table g) = Some s" "rg_readable g" "w1 = record_from_snapshot s"
      by (auto simp: db_part_def split: if_splits)
    have w1: "w1 = w0" using found get_worker_parts [OF g, of k] Some by simp
    let ?g1 = "g\<lparr>rg_table := update_row clk (ws_id s) (\<lambda>r. r\<lparr>ws_drain_status := d\<rparr>) (rg_table g)\<rparr>"
    note wf = set_drain_row(1) [OF g s(1), of clk d]
    have got: "get_worker (fst k') (key_scope k') ?g1 =
        (if k' = k then Some (w0\<lparr>wk_drain_status := d\<rparr>) else get_worker (fst k') (key_scope k') g)" for k'
      using s(2,3) w1 unfolding get_worker_parts [OF wf] get_worker_parts [OF g] set_drain_row(2) [OF g s(1)]
      by (simp add: memory_part_def split: option.split)
    have stored: "with_session (db_set_drain_status clk (fst k) (key_scope k) d) g = (True, ?g1)"
      using s rw g latest_row_of [of "rg_table g" k]
      by (simp add: with_session_def db_set_drain_status_def wf_registry_def)
    show thesis
    proof (rule that)
      show "set_drain_status clk (fst k) d (key_scope k) g = (Inr (w0\<lparr>wk_drain_status := d\<rparr>), ?g1)"
        using found Some w0(2) stored got [of k]
        by (simp add: set_drain_status_def require_def db_get_part [OF g] Let_def)
    qed (use wf got in simp_all)
  qed
qed

section \<open>What the registry promises\<close>

lemma beat_id:
  "(beat st now qs v c er k found)\<lparr>wk_id := None\<rparr> =
     beat st now qs v c er k (map_option (\<lambda>w. w\<lparr>wk_id := None\<rparr>) found)"
proof -
  have "(touch st now qs v c er w)\<lparr>wk_id := i\<rparr> = touch st now qs v c er (w\<lparr>wk_id := i\<rparr>)" for w i
    by (simp add: touch_def split: option.split)
  moreover have "(new_worker a b f e)\<lparr>wk_id := None\<rparr> = new_worker a b f e" for a b f e
    by (simp add: new_worker_def)
  ultimately show ?thesis by (cases k; cases found) (simp_all add: beat_def)
qed

text \<open>
  C16: With a usable database, a heartbeat is an update of one entry of a map from worker and scope to
  record: the entry becomes the record seen before (or a new one) with the reported status, time,
  queues, version, capacity and error, keeping its drain status and restart request; every other
  entry stays, and the rows keep their well-formedness.
\<close>

theorem heartbeat_refines_map:
  assumes "wf_registry g" "rg_readable g" "rg_writable g"
  shows "wf_registry (snd (worker_heartbeat clk now wid tenant project env st qs v c er g)) \<and>
    worker_view (snd (worker_heartbeat clk now wid tenant project env st qs v c er g)) =
      (worker_view g)((wid, tenant, project, env) \<mapsto>
         beat st now qs v c er (wid, tenant, project, env) (worker_view g (wid, tenant, project, env)))"
proof
  let ?k = "(wid, tenant, project, env)"
  let ?h = "worker_heartbeat clk now wid tenant project env st qs v c er g"
  note h = heartbeat_usable [OF assms, where wid = wid and tenant = tenant and project = project
    and env = env and st = st and now = now and qs = qs and v = v and c = c and er = er and clk = clk]
  show "wf_registry (snd ?h)" by (rule h(1))
  have "worker_view (snd ?h) k' = ((worker_view g)(?k \<mapsto> beat st now qs v c er ?k (worker_view g ?k))) k'" for k'
  proof (cases "k' = ?k")
    case True
    then show ?thesis using h(4) beat_id [of st now qs v c er ?k "get_worker wid (key_scope ?k) g"]
      by (auto simp: worker_view_def)
  next
    case False
    then show ?thesis using h(5) [OF False] by (simp add: worker_view_def)
  qed
  then show "worker_view (snd ?h) = (worker_view g)(?k \<mapsto> beat st now qs v c er ?k (worker_view g ?k))"
    by (rule ext)
qed

record heartbeat_message =
  hb_clk :: datetime
  hb_now :: datetime
  hb_key :: worker_key
  hb_status :: string
  hb_queues :: "string list option"
  hb_version :: "string option"
  hb_capacity :: "int option"
  hb_error :: "string option"

definition receive :: "heartbeat_message \<Rightarrow> WorkerRegistry \<Rightarrow> WorkerRegistry" where
  "receive m g = (case hb_key m of (wid, tenant, project, env) \<Rightarrow>
     snd (worker_heartbeat (hb_clk m) (hb_now m) wid tenant project env (hb_status m) (hb_queues m)
       (hb_version m) (hb_capacity m) (hb_error m) g))"

definition drained_as :: "worker_key \<Rightarrow> string \<Rightarrow> WorkerRegistry \<Rightarrow> bool" where
  "drained_as k d g \<longleftrightarrow> (case get_worker (fst k) (key_scope k) g of
     None \<Rightarrow> False | Some w \<Rightarrow> wk_drain_status w = d)"

lemma beat_drain: "found = Some w \<Longrightarrow> wk_drain_status (beat st now qs v c er k found) = wk_drain_status w"
  by (cases k) (simp add: beat_def touch_def)

lemma receive_keeps_drain:
  assumes "wf_registry g" "rg_readable g = rg_writable g" "drained_as k d g"
    and "rg_readable g \<or> fst (hb_key m) \<noteq> fst k \<or> hb_key m = k"
  shows "wf_registry (receive m g)" "rg_readable (receive m g) = rg_readable g"
    "rg_writable (receive m g) = rg_writable g" "drained_as k d (receive m g)"
proof -
  obtain wid tenant project env where m: "hb_key m = (wid, tenant, project, env)" by (cases "hb_key m")
  have "wf_registry (receive m g) \<and> rg_readable (receive m g) = rg_readable g \<and>
      rg_writable (receive m g) = rg_writable g \<and> drained_as k d (receive m g)"
  proof (cases "rg_readable g")
    case True
    then have w: "rg_writable g" using assms(2) by simp
    note h = heartbeat_usable [OF assms(1) True w, where wid = wid and tenant = tenant and
      project = project and env = env and clk = "hb_clk m" and now = "hb_now m" and st = "hb_status m" and
      qs = "hb_queues m" and v = "hb_version m" and c = "hb_capacity m" and er = "hb_error m"]
    have "drained_as k d (receive m g)"
    proof (cases "k = hb_key m")
      case True
      then show ?thesis using h(4) assms(3) m
        by (auto simp: drained_as_def receive_def beat_drain split: option.splits)
    next
      case False
      then show ?thesis using h(5) [of k] assms(3) m by (simp add: drained_as_def receive_def)
    qed
    then show ?thesis using h(1-3) True w m by (simp add: receive_def)
  next
    case False
    then have w: "\<not> rg_writable g" using assms(2) by simp
    note h = heartbeat_unusable [OF assms(1) False w, where wid = wid and tenant = tenant and
      project = project and env = env and clk = "hb_clk m" and now = "hb_now m" and st = "hb_status m" and
      qs = "hb_queues m" and v = "hb_version m" and c = "hb_capacity m" and er = "hb_error m"]
    have "drained_as k d (receive m g)"
    proof (cases "k = hb_key m")
      case True
      then show ?thesis using h(4) assms(3) m
        by (auto simp: drained_as_def receive_def beat_drain split: option.splits)
    next
      case neq: False
      then show ?thesis using h(5) [of k] False assms(3,4) m by (auto simp: drained_as_def receive_def)
    qed
    then show ?thesis using h(1-3) False w m by (simp add: receive_def)
  qed
  then show "wf_registry (receive m g)" "rg_readable (receive m g) = rg_readable g"
    "rg_writable (receive m g) = rg_writable g" "drained_as k d (receive m g)" by auto
qed


text \<open>
  C31: When queries succeed but transactions fail, a drain order is acknowledged and lost: the caller
  receives a record that says it is draining, while every later look-up still finds the old status.
\<close>

theorem drain_lost_without_writes:
  assumes "wf_registry g" "rg_readable g" "\<not> rg_writable g"
    and "row_of k (rg_table g) = Some s" "ws_drain_status s \<noteq> ''draining''"
  shows "case drain_worker clk (fst k) (key_scope k) g of (r, g1) \<Rightarrow>
     r = Inr ((record_from_snapshot s)\<lparr>wk_drain_status := ''draining''\<rparr>) \<and>
     get_worker (fst k) (key_scope k) g1 = Some (record_from_snapshot s) \<and> \<not> drained_as k ''draining'' g1"
proof -
  let ?w = "(record_from_snapshot s)\<lparr>wk_drain_status := ''draining''\<rparr>"
  let ?g1 = "store_memory (fst k) ?w g"
  have part: "db_part g k = Some (record_from_snapshot s)" using assms by (simp add: db_part_def)
  then have w: "wf_worker (record_from_snapshot s)" "row_key s = k"
    using db_part_wf [OF assms(1) part] by simp_all
  then have key: "wk_worker_id ?w = fst k" by (auto simp: record_from_snapshot_def row_key_def Let_def)
  have wf: "wf_registry ?g1"
    using wf_store_memory [OF assms(1), of ?w] w key by (simp add: wf_worker_def)
  have "drain_worker clk (fst k) (key_scope k) g = (Inr ?w, ?g1)"
    using assms(3) part w get_worker_parts [OF assms(1), of k] db_get_part [OF assms(1), of k]
    by (simp add: drain_worker_def set_drain_status_def require_def Let_def with_session_def)
  moreover have "get_worker (fst k) (key_scope k) ?g1 = Some (record_from_snapshot s)"
    using part by (simp add: get_worker_parts [OF wf] parts_store_memory)
  moreover have "wk_drain_status (record_from_snapshot s) \<noteq> ''draining''"
    using assms(5) by (simp add: record_from_snapshot_def Let_def)
  ultimately show ?thesis by (simp add: drained_as_def)
qed

section \<open>Listing and looking up agree\<close>

lemma find_rev_snoc: "find P (rev (x # xs)) =
    (case find P (rev xs) of None \<Rightarrow> if P x then Some x else None | Some y \<Rightarrow> Some y)"
  by (simp add: find_snoc)

lemma dget_fold_store:
  "dget (fold (\<lambda>w d. dset d (f w) w) ws d) k =
     (case find (\<lambda>w. f w = k) (rev ws) of Some w \<Rightarrow> Some w | None \<Rightarrow> dget d k)"
  by (induction ws arbitrary: d) (auto simp: find_snoc split: option.splits)

lemma dget_fold_default:
  "dget (fold (\<lambda>w d. if f w \<in> set (dkeys d) then d else dset d (f w) w) ws d) k =
     (case dget d k of Some w \<Rightarrow> Some w | None \<Rightarrow> find (\<lambda>w. f w = k) ws)"
proof (induction ws arbitrary: d)
  case Nil
  then show ?case by (simp split: option.split)
next
  case (Cons w ws)
  have "dget d (f w) = None" if "f w \<notin> set (dkeys d)"
    using that by (simp add: map_of_eq_None_iff)
  moreover have "\<exists>v. dget d (f w) = Some v" if "f w \<in> set (dkeys d)"
    using that by (cases "dget d (f w)") (simp_all add: map_of_eq_None_iff)
  ultimately show ?case by (auto simp: Cons.IH simp del: set_map split: option.splits)
qed

lemma distinct_fold_store: "distinct (dkeys d) \<Longrightarrow> distinct (dkeys (fold (\<lambda>w d. dset d (f w) w) ws d))"
  by (induction ws arbitrary: d) (simp_all del: set_map)

lemma distinct_fold_default:
  "distinct (dkeys d) \<Longrightarrow>
     distinct (dkeys (fold (\<lambda>w d. if f w \<in> set (dkeys d) then d else dset d (f w) w) ws d))"
  by (induction ws arbitrary: d) (simp_all del: set_map)

lemma in_dvals_keyed:
  assumes "distinct (dkeys d)" "\<And>k w. dget d k = Some w \<Longrightarrow> f w = k"
  shows "w \<in> set (dvals d) \<longleftrightarrow> dget d (f w) = Some w"
proof
  assume "w \<in> set (dvals d)"
  then obtain k where "(k, w) \<in> set d" by auto
  then have "dget d k = Some w" using dget_of_mem [OF assms(1)] by blast
  then show "dget d (f w) = Some w" using assms(2) by blast
qed (rule dget_in_dvals)

lemma find_dvals_keyed:
  assumes "distinct (dkeys d)" "\<And>k w. dget d k = Some w \<Longrightarrow> f w = k"
  shows "find (\<lambda>w. f w = k) (filter P (dvals d)) =
    (case dget d k of None \<Rightarrow> None | Some w \<Rightarrow> if P w then Some w else None)"
proof -
  have keyed: "\<forall>(j, w) \<in> set d. f w = j" using assms dget_of_mem by fastforce
  then have "find (\<lambda>w. f w = k) (filter P (dvals d)) = find P (dvals (filter (\<lambda>(j, _). j = k) d))"
    by (induction d) auto
  also have "filter (\<lambda>(j, _). j = k) d = (case dget d k of None \<Rightarrow> [] | Some w \<Rightarrow> [(k, w)])"
    using assms(1)
  proof (induction d)
    case (Cons jw d)
    then show ?case
      by (cases jw) (force simp: filter_empty_conv map_of_eq_None_iff split: option.splits dest: map_of_SomeD)
  qed simp
  finally show ?thesis by (simp split: option.split)
qed

lemma find_db_list:
  assumes "wf_registry g"
  shows "find (\<lambda>w. wk_worker_id w = wid) (rev (db_list (Some tenant, Some project, Some env) g)) =
    db_part g (wid, tenant, project, env)"
proof -
  let ?k = "(wid, tenant, project, env)"
  have "filter (\<lambda>s. wk_worker_id (record_from_snapshot s) = wid)
      (filter (row_in_scope (Some tenant, Some project, Some env)) rows) = filter (live_key ?k) rows" for rows
    using scope_live_key [of _ ?k]
    by (auto simp: filter_filter record_from_snapshot_def Let_def conj_commute intro!: filter_cong)
  then have "filter (\<lambda>w. wk_worker_id w = wid) (rev (db_list (Some tenant, Some project, Some env) g)) =
      (if rg_readable g then map record_from_snapshot (rev (filter (live_key ?k) (wt_rows (rg_table g)))) else [])"
    by (simp add: db_list_def filter_map comp_def rev_filter [symmetric] rev_map [symmetric] del: row_in_scope.simps)
  then show ?thesis
    using assms
    by (simp add: find_filter db_part_def row_of_def filter_live_key wf_registry_def wf_table_def split: option.split)
qed

lemma distinct_map_sort_key: "distinct (map f xs) \<Longrightarrow> distinct (map f (sort_key f xs))"
  by (simp add: distinct_map)

lemma list_dict:
  fixes tenant project env
  assumes g: "wf_registry g"
  defines "sc \<equiv> (Some tenant, Some project, Some env)"
  obtains d where "list_workers sc g = sort_key wk_worker_id (dvals d)" "distinct (dkeys d)"
    "\<And>wid. dget d wid = get_worker wid sc g"
proof -
  let ?db = "fold (\<lambda>w d. dset d (wk_worker_id w) w) (db_list sc g) []"
  let ?mem = "filter (record_in_scope sc) (dvals (rg_workers g))"
  let ?d = "fold (\<lambda>w d. if wk_worker_id w \<in> set (dkeys d) then d else dset d (wk_worker_id w) w) ?mem ?db"
  show thesis
  proof (rule that)
    show "list_workers sc g = sort_key wk_worker_id (dvals ?d)" by (simp add: list_workers_def)
    show "distinct (dkeys ?d)" by (intro distinct_fold_default distinct_fold_store) simp
    fix wid
    have "find (\<lambda>w. wk_worker_id w = wid) ?mem = memory_get wid sc g"
      unfolding memory_get_def
      by (rule find_dvals_keyed) (use g in \<open>auto simp: wf_registry_def dest: all_entriesD\<close>)
    moreover have "dget ?db wid = db_get wid sc g"
      using find_db_list [OF g, of wid tenant project env] db_get_part [OF g, of "(wid, tenant, project, env)"]
      unfolding dget_fold_store sc_def by (simp split: option.split)
    ultimately show "dget ?d wid = get_worker wid sc g"
      unfolding dget_fold_default by (simp add: get_worker_def split: option.split)
  qed
qed

lemma get_worker_id:
  "wf_registry g \<Longrightarrow> get_worker wid (Some tenant, Some project, Some env) g = Some w \<Longrightarrow> wk_worker_id w = wid"
  using get_worker_wf(2) [of g "(wid, tenant, project, env)" w] by (simp add: record_key_def)

text \<open>
  Within one scope, listing and looking up agree: a record is listed exactly when a look-up of its
  worker id finds it, and the list is sorted by worker id without repetition.
\<close>

lemma list_agrees_with_get:
  assumes "wf_registry g"
  shows "(w \<in> set (list_workers (Some tenant, Some project, Some env) g) \<longleftrightarrow>
      get_worker (wk_worker_id w) (Some tenant, Some project, Some env) g = Some w) \<and>
    sorted (map wk_worker_id (list_workers (Some tenant, Some project, Some env) g)) \<and>
    distinct (map wk_worker_id (list_workers (Some tenant, Some project, Some env) g))"
proof -
  obtain d where d: "list_workers (Some tenant, Some project, Some env) g = sort_key wk_worker_id (dvals d)"
    "distinct (dkeys d)" "\<And>wid. dget d wid = get_worker wid (Some tenant, Some project, Some env) g"
    by (rule list_dict [OF assms, of tenant project env]) (rule that; assumption)
  have keyed: "wk_worker_id v = k" if "dget d k = Some v" for k v
    using that d(3) get_worker_id [OF assms] by simp
  have "map wk_worker_id (dvals d) = dkeys d"
    using keyed dget_of_mem [OF d(2)] by auto
  then have "distinct (map wk_worker_id (dvals d))" using d(2) by (simp only:)
  then have "distinct (map wk_worker_id (sort_key wk_worker_id (dvals d)))"
    by (rule distinct_map_sort_key)
  moreover have "w \<in> set (dvals d) \<longleftrightarrow> dget d (wk_worker_id w) = Some w"
    by (rule in_dvals_keyed [OF d(2)]) (rule keyed)
  ultimately show ?thesis using d(1,3) by simp
qed

section \<open>An example\<close>

definition demo_registry :: "bool \<Rightarrow> bool \<Rightarrow> WorkerRegistry" where
  "demo_registry r w =
     \<lparr>rg_workers = [],
      rg_table = \<lparr>wt_rows = [write_columns (new_worker ''w1'' 1 1 ''prod'') (new_row 5 1 (new_worker ''w1'' 1 1 ''prod''))],
                  wt_next_id = 2\<rparr>,
      rg_readable = r, rg_writable = w\<rparr>"

lemma demo_registry_wf: "wf_registry (demo_registry r w)"
  by (simp add: demo_registry_def wf_registry_def wf_table_def)

lemma demo_registry_row:
  "row_of (''w1'', 1, 1, ''prod'') (rg_table (demo_registry r w)) =
     Some (write_columns (new_worker ''w1'' 1 1 ''prod'') (new_row 5 1 (new_worker ''w1'' 1 1 ''prod'')))"
  by (simp add: demo_registry_def row_of_def live_key_def)

theorem heartbeat_refines_map_witness:
  "worker_view (snd (worker_heartbeat 7 7 ''w1'' 1 1 ''prod'' ''executed'' None None None None (demo_registry True True)))
     (''w1'', 1, 1, ''prod'') =
   Some (beat ''executed'' 7 None None None None (''w1'', 1, 1, ''prod'')
     (worker_view (demo_registry True True) (''w1'', 1, 1, ''prod'')))"
  using heartbeat_refines_map [OF demo_registry_wf, of True True 7 7 "''w1''" 1 1 "''prod''" "''executed''" None None None None]
  by (simp add: demo_registry_def)

definition demo_beat :: heartbeat_message where
  "demo_beat = \<lparr>hb_clk = 9, hb_now = 9, hb_key = (''w1'', 1, 1, ''prod''), hb_status = ''idle'',
     hb_queues = Some [''b'', ''a''], hb_version = None, hb_capacity = Some 4, hb_error = None\<rparr>"


theorem drain_lost_without_writes_witness:
  "\<not> drained_as (''w1'', 1, 1, ''prod'') ''draining''
     (snd (drain_worker 8 ''w1'' (Some 1, Some 1, Some ''prod'') (demo_registry True False)))"
  using drain_lost_without_writes [OF demo_registry_wf _ _ demo_registry_row, of True False 8]
  by (simp add: demo_registry_def write_columns_def new_worker_def split: prod.splits)

end
