(* ===== verification/Worker_Loop.thy ===== *)
theory Worker_Loop
  imports Worker_Registry
begin

text \<open>
  The polling loop of \<open>worker/loop.py\<close>. The subscriber for cancel messages, the handler that cancels
  a run, the function that executes one task and the task backend are given to the loop from outside:
  each is a computation on the registry and the rest of the world, so that an operator may drain the
  worker while a task runs. \<open>lp_sleep\<close> is what others do while the loop sleeps.
\<close>

section \<open>The loop and its state\<close>

type_synonym 'w outside = "'w \<times> WorkerRegistry"

datatype 'w cancel_handler =
    CancelRun "pyval \<Rightarrow> pyval \<Rightarrow> ('w outside, unit) eff" \<comment> \<open>an object with \<open>cancel_run\<close>\<close>
  | CancelCallable "pydict \<Rightarrow> ('w outside, unit) eff"

record 'w loop_backend =
  lb_lease :: "string \<Rightarrow> string \<Rightarrow> int \<Rightarrow> ('w outside, (int \<times> int) option) eff"
  lb_mark_running :: "int \<Rightarrow> string \<Rightarrow> int \<Rightarrow> ('w outside, unit) eff"

record 'w WorkerLoop =
  lp_worker_id :: string
  lp_tenant_id :: int
  lp_project_id :: int
  lp_environment :: string
  lp_queue :: string
  lp_lease_seconds :: int
  lp_version :: string
  lp_capacity :: int
  lp_task_backend :: "'w loop_backend option"
  lp_cancel_subscriber :: "('w outside, pydict option) eff option"
  lp_cancel_handler :: "'w cancel_handler option"
  lp_execute_once :: "(string \<Rightarrow> int \<Rightarrow> ('w outside, bool) eff) option" \<comment> \<open>is the result not \<open>None\<close>\<close>
  lp_clock :: "nat \<Rightarrow> datetime"
  lp_sleep :: "'w outside \<Rightarrow> 'w outside"

record WorkerHeartbeat =
  wh_worker_id :: string
  wh_status :: string
  wh_heartbeat_at :: datetime

record 'w loop_state =
  ls_world :: 'w
  ls_registry :: WorkerRegistry
  ls_heartbeat :: WorkerHeartbeat
  ls_stopped :: bool
  ls_shutdown_requested :: bool
  ls_ticks :: nat

definition outside_do :: "('w outside, 'x) eff \<Rightarrow> ('w loop_state, 'x) eff" where
  "outside_do m s = (case m (ls_world s, ls_registry s) of
     (r, (w, g)) \<Rightarrow> (r, s\<lparr>ls_world := w, ls_registry := g\<rparr>))"

definition loop_key :: "'w WorkerLoop \<Rightarrow> worker_key" where
  "loop_key x = (lp_worker_id x, lp_tenant_id x, lp_project_id x, lp_environment x)"

section \<open>Heartbeats and lifecycle\<close>

definition publish_heartbeat :: "'w WorkerLoop \<Rightarrow> string \<Rightarrow> ('w loop_state, unit) eff" where
  "publish_heartbeat x status = upd (\<lambda>s.
     s\<lparr>ls_registry := snd (worker_heartbeat (lp_clock x (ls_ticks s + 1)) (lp_clock x (ls_ticks s))
          (lp_worker_id x) (lp_tenant_id x) (lp_project_id x) (lp_environment x)
          status (Some [lp_queue x]) (Some (lp_version x)) (Some (lp_capacity x)) None (ls_registry s)),
       ls_ticks := ls_ticks s + 2\<rparr>)"

definition set_heartbeat :: "'w WorkerLoop \<Rightarrow> string \<Rightarrow> ('w loop_state, unit) eff" where
  "set_heartbeat x status = upd (\<lambda>s.
     s\<lparr>ls_heartbeat := \<lparr>wh_worker_id = lp_worker_id x, wh_status = status,
                         wh_heartbeat_at = lp_clock x (ls_ticks s)\<rparr>,
       ls_ticks := ls_ticks s + 1\<rparr>)"

text \<open>Every branch of \<open>run_once\<close> ends with a new heartbeat that is published and returned.\<close>

definition beat_as :: "'w WorkerLoop \<Rightarrow> string \<Rightarrow> ('w loop_state, WorkerHeartbeat) eff" where
  "beat_as x status = seq (set_heartbeat x status) (seq (publish_heartbeat x status) (gets ls_heartbeat))"

definition stop_loop :: "'w WorkerLoop \<Rightarrow> ('w loop_state, WorkerHeartbeat) eff" where
  "stop_loop x = seq (upd (\<lambda>s. s\<lparr>ls_stopped := True\<rparr>)) (beat_as x ''stopped'')"

definition loop_record :: "'w WorkerLoop \<Rightarrow> 'w loop_state \<Rightarrow> WorkerRecord option" where
  "loop_record x s = get_worker (lp_worker_id x)
     (Some (lp_tenant_id x), Some (lp_project_id x), Some (lp_environment x)) (ls_registry s)"

definition lifecycle_status :: "'w WorkerLoop \<Rightarrow> ('w loop_state, string option) eff" where
  "lifecycle_status x s =
     (if ls_stopped s then (Inr (Some ''stopped''), s)
      else let drain_status = (case loop_record x s of Some r \<Rightarrow> wk_drain_status r | None \<Rightarrow> ''active'')
           in if drain_status = ''quarantined'' then (Inr (Some ''quarantined''), s)
              else if drain_status = ''draining'' \<or> ls_shutdown_requested s
                then (Inr (Some ''stopped''), s\<lparr>ls_stopped := True\<rparr>)
              else (Inr None, s))"

definition request_shutdown :: "'w WorkerLoop \<Rightarrow> bool \<Rightarrow> ('w loop_state, unit) eff" where
  "request_shutdown x graceful =
     (if \<not> graceful then seq (stop_loop x) (ret ())
      else seq (upd (\<lambda>s. s\<lparr>ls_shutdown_requested := True\<rparr>)) (\<lambda>s.
        case loop_record x s of
          None \<Rightarrow> (Inr (), s)
        | Some r \<Rightarrow>
            if wk_drain_status r = ''active'' then
              (case drain_worker (lp_clock x (ls_ticks s)) (lp_worker_id x)
                  (Some (lp_tenant_id x), Some (lp_project_id x), Some (lp_environment x)) (ls_registry s) of
                 (res, g) \<Rightarrow> (case res of Inl e \<Rightarrow> Inl e | Inr _ \<Rightarrow> Inr (),
                              s\<lparr>ls_registry := g, ls_ticks := ls_ticks s + 1\<rparr>))
            else (Inr (), s)))"

section \<open>One round\<close>

definition handle_cancel_message :: "'w WorkerLoop \<Rightarrow> pydict \<Rightarrow> ('w loop_state, unit) eff" where
  "handle_cancel_message x message = (case lp_cancel_handler x of
       None \<Rightarrow> ret ()
     | Some handler \<Rightarrow>
         (case dget message ''run_id'' of
            None \<Rightarrow> ret ()
          | Some VNone \<Rightarrow> ret ()
          | Some run_id \<Rightarrow> (case handler of
               CancelRun cancel_run \<Rightarrow> outside_do (cancel_run run_id (or_else (dget message ''task_id'') VNone))
             | CancelCallable f \<Rightarrow> outside_do (f message))))"

text \<open>\<open>message.get("worker_id") in {None, self.worker_id}\<close>; a list or a dictionary cannot be hashed.\<close>

fun addressed_to :: "string \<Rightarrow> pyval \<Rightarrow> exn + bool" where
  "addressed_to worker_id VNone = Inr True"
| "addressed_to worker_id (VStr s) = Inr (s = worker_id)"
| "addressed_to worker_id (VList _) = Inl TypeError"
| "addressed_to worker_id (VDict _) = Inl TypeError"
| "addressed_to worker_id _ = Inr False"

definition poll_cancel :: "'w WorkerLoop \<Rightarrow> ('w loop_state, bool) eff" where
  "poll_cancel x = (case lp_cancel_subscriber x of
       None \<Rightarrow> ret False
     | Some listen_once \<Rightarrow> bnd (outside_do listen_once) (\<lambda>received.
         case received of
           None \<Rightarrow> ret False
         | Some message \<Rightarrow>
             (case addressed_to (lp_worker_id x) (or_else (dget message ''worker_id'') VNone) of
                Inl e \<Rightarrow> raise e
              | Inr False \<Rightarrow> ret False
              | Inr True \<Rightarrow> seq (handle_cancel_message x message) (ret True))))"

definition poll_execute :: "'w WorkerLoop \<Rightarrow> ('w loop_state, bool) eff" where
  "poll_execute x = (case lp_execute_once x of
       None \<Rightarrow> ret False
     | Some execute \<Rightarrow> outside_do (execute (lp_queue x) (lp_lease_seconds x)))"

definition poll_lease :: "'w WorkerLoop \<Rightarrow> ('w loop_state, bool) eff" where
  "poll_lease x = (case lp_task_backend x of
       None \<Rightarrow> ret False
     | Some b \<Rightarrow> bnd (outside_do (lb_lease b (lp_queue x) (lp_worker_id x) (lp_lease_seconds x))) (\<lambda>leased.
         case leased of
           None \<Rightarrow> ret False
         | Some (task_id, token) \<Rightarrow>
             seq (outside_do (lb_mark_running b task_id (lp_worker_id x) token)) (ret True)))"

definition run_once :: "'w WorkerLoop \<Rightarrow> ('w loop_state, WorkerHeartbeat) eff" where
  "run_once x = bnd (lifecycle_status x) (\<lambda>lifecycle.
     case lifecycle of
       Some status \<Rightarrow> if status = ''stopped'' then stop_loop x else beat_as x status
     | None \<Rightarrow> bnd (poll_cancel x) (\<lambda>cancelled.
         if cancelled then beat_as x ''cancel_requested''
         else bnd (poll_execute x) (\<lambda>executed.
           if executed then beat_as x ''executed''
           else bnd (poll_lease x) (\<lambda>leased.
             if leased then beat_as x ''running'' else beat_as x ''idle''))))"

section \<open>The loop\<close>

definition loop_sleep :: "'w WorkerLoop \<Rightarrow> 'w loop_state \<Rightarrow> 'w loop_state" where
  "loop_sleep x s = (case lp_sleep x (ls_world s, ls_registry s) of
     (w, g) \<Rightarrow> s\<lparr>ls_world := w, ls_registry := g\<rparr>)"

text \<open>\<open>while not self._stopped\<close>; \<open>None\<close> is a loop that never ends.\<close>

partial_function (option) run_loop :: "'w WorkerLoop \<Rightarrow> 'w loop_state \<Rightarrow> ((exn + unit) \<times> 'w loop_state) option" where
  "run_loop x s =
     (if ls_stopped s then Some (Inr (), s)
      else case run_once x s of
             (Inl e, s') \<Rightarrow> Some (Inl e, s')
           | (Inr _, s') \<Rightarrow> run_loop x (loop_sleep x s'))"

definition run_forever :: "'w WorkerLoop \<Rightarrow> 'w loop_state \<Rightarrow> ((exn + unit) \<times> 'w loop_state) option" where
  "run_forever x s = run_loop x (snd (beat_as x ''running'' s))"

definition start_loop :: "'w WorkerLoop \<Rightarrow> 'w \<Rightarrow> WorkerRegistry \<Rightarrow> 'w loop_state" where
  "start_loop x w g = snd (beat_as x ''starting''
     \<lparr>ls_world = w, ls_registry = g,
      ls_heartbeat = \<lparr>wh_worker_id = lp_worker_id x, wh_status = ''starting'', wh_heartbeat_at = 0\<rparr>,
      ls_stopped = False, ls_shutdown_requested = False, ls_ticks = 0\<rparr>)"

section \<open>What a heartbeat of the loop changes\<close>

definition loop_message :: "'w WorkerLoop \<Rightarrow> string \<Rightarrow> nat \<Rightarrow> heartbeat_message" where
  "loop_message x status n =
     \<lparr>hb_clk = lp_clock x (n + 2), hb_now = lp_clock x (n + 1), hb_key = loop_key x, hb_status = status,
      hb_queues = Some [lp_queue x], hb_version = Some (lp_version x), hb_capacity = Some (lp_capacity x),
      hb_error = None\<rparr>"

lemma beat_as_effect:
  "snd (beat_as x st s) =
     s\<lparr>ls_heartbeat := \<lparr>wh_worker_id = lp_worker_id x, wh_status = st, wh_heartbeat_at = lp_clock x (ls_ticks s)\<rparr>,
       ls_registry := receive (loop_message x st (ls_ticks s)) (ls_registry s),
       ls_ticks := ls_ticks s + 3\<rparr>"
  "ok (beat_as x st s)"
  by (simp_all add: beat_as_def set_heartbeat_def publish_heartbeat_def receive_def loop_message_def
    loop_key_def eff_simps ok_def numeral_3_eq_3)

lemma stop_loop_effect: "snd (stop_loop x s) = snd (beat_as x ''stopped'' (s\<lparr>ls_stopped := True\<rparr>))" "ok (stop_loop x s)"
  by (simp_all add: stop_loop_def eff_simps beat_as_effect(2))

definition usable_registry :: "WorkerRegistry \<Rightarrow> bool" where
  "usable_registry g \<longleftrightarrow> wf_registry g \<and> rg_readable g = rg_writable g"

lemma loop_record_drained:
  "drained_as (loop_key x) d (ls_registry s) \<longleftrightarrow>
     (case loop_record x s of None \<Rightarrow> False | Some r \<Rightarrow> wk_drain_status r = d)"
  by (simp add: drained_as_def loop_record_def loop_key_def)

lemma drained_unique: "drained_as k d g \<Longrightarrow> drained_as k d' g \<Longrightarrow> d' = d"
  by (auto simp: drained_as_def split: option.splits)

text \<open>A heartbeat of the worker itself keeps its drain status, or registers the worker as active.\<close>

lemma own_beat_drain:
  assumes "usable_registry g" "hb_key m = k"
  shows "usable_registry (receive m g)"
    and "drained_as k d (receive m g) \<longleftrightarrow> drained_as k d g \<or>
      (get_worker (fst k) (key_scope k) g = None \<and> d = ''active'')"
proof -
  have g: "wf_registry g" "rg_readable g = rg_writable g" using assms(1) by (simp_all add: usable_registry_def)
  obtain wid tenant project env where m: "hb_key m = (wid, tenant, project, env)" by (cases "hb_key m")
  define w where "w = beat (hb_status m) (hb_now m) (hb_queues m) (hb_version m) (hb_capacity m) (hb_error m)
    k (get_worker (fst k) (key_scope k) g)"
  have got: "usable_registry (receive m g) \<and>
    (\<exists>i. get_worker (fst k) (key_scope k) (receive m g) = Some (w\<lparr>wk_id := i\<rparr>))"
  proof (cases "rg_readable g")
    case True
    then show ?thesis
      using heartbeat_usable [OF g(1), where wid = wid and tenant = tenant and project = project and env = env
          and clk = "hb_clk m" and now = "hb_now m" and st = "hb_status m" and qs = "hb_queues m"
          and v = "hb_version m" and c = "hb_capacity m" and er = "hb_error m"] g(2) m assms(2)
      by (auto simp: receive_def w_def usable_registry_def)
  next
    case False
    have "w\<lparr>wk_id := wk_id w\<rparr> = w" by simp
    with False show ?thesis
      using heartbeat_unusable [OF g(1), where wid = wid and tenant = tenant and project = project and env = env
          and clk = "hb_clk m" and now = "hb_now m" and st = "hb_status m" and qs = "hb_queues m"
          and v = "hb_version m" and c = "hb_capacity m" and er = "hb_error m"] g(2) m assms(2)
      by (auto simp: receive_def w_def usable_registry_def intro: exI [where x = "wk_id w"])
  qed
  then show "usable_registry (receive m g)" by blast
  have "wk_drain_status w = (case get_worker (fst k) (key_scope k) g of None \<Rightarrow> ''active'' | Some r \<Rightarrow> wk_drain_status r)"
    by (cases k) (simp add: w_def beat_def touch_def new_worker_def split: option.split)
  with got show "drained_as k d (receive m g) \<longleftrightarrow> drained_as k d g \<or>
      (get_worker (fst k) (key_scope k) g = None \<and> d = ''active'')"
    by (auto simp: drained_as_def split: option.splits)
qed

lemma beat_as_drain:
  assumes "usable_registry (ls_registry s)"
  shows "usable_registry (ls_registry (snd (beat_as x st s)))"
    and "d \<noteq> ''active'' \<Longrightarrow> drained_as (loop_key x) d (ls_registry (snd (beat_as x st s))) =
           drained_as (loop_key x) d (ls_registry s)"
  using own_beat_drain [OF assms, of "loop_message x st (ls_ticks s)" "loop_key x"]
  by (simp_all add: beat_as_effect loop_message_def)

section \<open>Retiring a worker\<close>

definition retiring :: "'w WorkerLoop \<Rightarrow> 'w loop_state \<Rightarrow> bool" where
  "retiring x s \<longleftrightarrow> ls_stopped s \<or> ls_shutdown_requested s \<or>
     drained_as (loop_key x) ''draining'' (ls_registry s)"

definition quarantined :: "'w WorkerLoop \<Rightarrow> 'w loop_state \<Rightarrow> bool" where
  "quarantined x s \<longleftrightarrow> drained_as (loop_key x) ''quarantined'' (ls_registry s)"

lemma lifecycle_quarantined:
  "quarantined x s \<Longrightarrow> \<not> ls_stopped s \<Longrightarrow> lifecycle_status x s = (Inr (Some ''quarantined''), s)"
  by (simp add: lifecycle_status_def quarantined_def loop_record_drained split: option.splits)

lemma lifecycle_retiring:
  assumes "retiring x s" "ls_stopped s \<or> \<not> quarantined x s"
  shows "lifecycle_status x s = (Inr (Some ''stopped''), s\<lparr>ls_stopped := True\<rparr>)"
proof (cases "ls_stopped s")
  case True
  then have "s\<lparr>ls_stopped := True\<rparr> = s" by (cases s) simp
  with True show ?thesis by (simp add: lifecycle_status_def)
next
  case False
  then show ?thesis
    using assms by (cases "loop_record x s")
      (auto simp: lifecycle_status_def retiring_def quarantined_def loop_record_drained)
qed

lemmas lifecycle_cases = lifecycle_quarantined lifecycle_retiring

lemma run_once_quarantined:
  "quarantined x s \<Longrightarrow> \<not> ls_stopped s \<Longrightarrow> run_once x s = beat_as x ''quarantined'' s"
  by (simp add: run_once_def bnd_def lifecycle_cases)

lemma run_once_retiring:
  "retiring x s \<Longrightarrow> ls_stopped s \<or> \<not> quarantined x s \<Longrightarrow> run_once x s = stop_loop x (s\<lparr>ls_stopped := True\<rparr>)"
  by (simp add: run_once_def bnd_def lifecycle_cases)

text \<open>
  C28: A worker that is stopped, asked to shut down, draining or quarantined takes no work: a round of
  its loop succeeds, calls neither the cancel subscriber, nor the executor, nor the backend (the rest of
  the world is as before), and unless it is quarantined it leaves the loop stopped.
\<close>

theorem retiring_worker_takes_no_work:
  assumes "retiring x s \<or> quarantined x s"
  shows "ok (run_once x s) \<and> ls_world (snd (run_once x s)) = ls_world s \<and>
    (ls_stopped (snd (run_once x s)) \<longleftrightarrow> ls_stopped s \<or> \<not> quarantined x s)"
proof (cases "ls_stopped s \<or> \<not> quarantined x s")
  case True
  then have "retiring x s" using assms by (auto simp: retiring_def)
  then show ?thesis using True by (auto simp: run_once_retiring stop_loop_effect beat_as_effect)
next
  case False
  then show ?thesis by (auto simp: run_once_quarantined beat_as_effect)
qed

text \<open>
  C29: The loop of a worker that is draining or asked to shut down, and not quarantined, ends: it returns
  without an exception after a single round, stopped, with nothing done to the rest of the world but
  what happens during one sleep.
\<close>

theorem retiring_loop_ends:
  assumes "usable_registry (ls_registry s)" "retiring x s" "\<not> ls_stopped s" "\<not> quarantined x s"
  shows "\<exists>g s'. run_forever x s = Some (Inr (), s') \<and> ls_stopped s' \<and>
    ls_world s' = fst (lp_sleep x (ls_world s, g))"
proof -
  let ?b = "snd (beat_as x ''running'' s)"
  have b: "retiring x ?b" "\<not> quarantined x ?b" "\<not> ls_stopped ?b" "ls_world ?b = ls_world s"
    using assms beat_as_drain [OF assms(1)] by (auto simp: retiring_def quarantined_def beat_as_effect)
  let ?e = "snd (stop_loop x (?b\<lparr>ls_stopped := True\<rparr>))"
  have e: "ls_stopped ?e" "ls_world ?e = ls_world s" using b(4) by (simp_all add: stop_loop_effect beat_as_effect)
  obtain h where "run_once x ?b = (Inr h, ?e)"
    using run_once_retiring [OF b(1)] b(2) stop_loop_effect(2) [of x "?b\<lparr>ls_stopped := True\<rparr>"]
    by (cases "stop_loop x (?b\<lparr>ls_stopped := True\<rparr>)") (auto simp: ok_def split: sum.splits)
  then have "run_forever x s = run_loop x (loop_sleep x ?e)"
    using b(3) by (simp add: run_forever_def run_loop.simps [of x ?b])
  moreover have "ls_stopped (loop_sleep x ?e)" using e by (simp add: loop_sleep_def split: prod.split)
  moreover have "ls_world (loop_sleep x ?e) = fst (lp_sleep x (ls_world s, ls_registry ?e))"
    using e(2) by (simp add: loop_sleep_def split: prod.split)
  ultimately show ?thesis using run_loop.simps [of x "loop_sleep x ?e"] by auto
qed

text \<open>
  C30: The loop of a quarantined worker does not end as long as the quarantine stands, even when a
  graceful shutdown has been asked for.
\<close>

theorem quarantined_loop_never_ends:
  assumes "usable_registry (ls_registry s)" "quarantined x s" "\<not> ls_stopped s"
    and "\<And>w g. usable_registry g \<Longrightarrow> drained_as (loop_key x) ''quarantined'' g \<Longrightarrow>
           usable_registry (snd (lp_sleep x (w, g))) \<and>
           drained_as (loop_key x) ''quarantined'' (snd (lp_sleep x (w, g)))"
  shows "run_forever x s = None"
proof -
  define I where "I t \<longleftrightarrow> usable_registry (ls_registry t) \<and> quarantined x t \<and> \<not> ls_stopped t" for t
  have beat: "I (snd (beat_as x st t))" if "I t" for st t
    using that beat_as_drain [of t] by (auto simp: I_def quarantined_def beat_as_effect)
  have nap: "I (loop_sleep x t)" if "I t" for t
    using that assms(4) [of "ls_registry t" "ls_world t"]
    by (auto simp: I_def quarantined_def loop_sleep_def split: prod.splits)
  have round: "\<exists>h. run_once x t = (Inr h, snd (beat_as x ''quarantined'' t))" if "I t" for t
    using that run_once_quarantined [of x t] beat_as_effect(2) [of x "''quarantined''" t]
    by (cases "beat_as x ''quarantined'' t") (auto simp: I_def ok_def split: sum.splits)
  have "(case (x, t) of (y, t) \<Rightarrow> \<lambda>r. y = x \<longrightarrow> \<not> I t) r" if "run_loop x t = Some r" for t r
  proof (rule run_loop.raw_induct [where P = "\<lambda>y t r. y = x \<longrightarrow> \<not> I t"])
    show "(case (x, t) of (y, t) \<Rightarrow> run_loop y t) = Some r" using that by simp
  next
    fix f y t r
    assume IH: "\<And>y t r. f y t = Some r \<Longrightarrow> y = x \<longrightarrow> \<not> I t"
      and body: "(if ls_stopped t then Some (Inr (), t) else case run_once y t of
          (Inl e, s') \<Rightarrow> Some (Inl e, s') | (Inr _, s') \<Rightarrow> f y (loop_sleep y s')) = Some r"
    show "y = x \<longrightarrow> \<not> I t"
    proof (intro impI notI)
      assume y: "y = x" and t: "I t"
      obtain h where "run_once x t = (Inr h, snd (beat_as x ''quarantined'' t))" using round [OF t] by blast
      then have "f x (loop_sleep x (snd (beat_as x ''quarantined'' t))) = Some r"
        using body t y by (simp add: I_def)
      then show False using IH nap [OF beat [OF t]] by blast
    qed
  qed
  then have "\<not> I t" if "run_loop x t = Some r" for t r using that by force
  moreover have "I (snd (beat_as x ''running'' s))" using beat [of s] assms(1-3) by (simp add: I_def)
  ultimately show ?thesis by (cases "run_forever x s") (auto simp: run_forever_def)
qed

section \<open>An example: a worker that counts the tasks it executed\<close>

definition demo_loop :: "nat WorkerLoop" where
  "demo_loop =
     \<lparr>lp_worker_id = ''w1'', lp_tenant_id = 1, lp_project_id = 1, lp_environment = ''prod'',
      lp_queue = ''default'', lp_lease_seconds = 30, lp_version = ''dev'', lp_capacity = 1,
      lp_task_backend = None, lp_cancel_subscriber = None, lp_cancel_handler = None,
      lp_execute_once = Some (\<lambda>queue secs (n, g). (Inr True, (n + 1, g))),
      lp_clock = int, lp_sleep = id\<rparr>"

definition demo_loop_state :: "string \<Rightarrow> bool \<Rightarrow> nat loop_state" where
  "demo_loop_state drain_status shutdown =
     \<lparr>ls_world = 0,
      ls_registry = \<lparr>rg_workers = [(''w1'', (new_worker ''w1'' 1 1 ''prod'')\<lparr>wk_drain_status := drain_status\<rparr>)],
                     rg_table = \<lparr>wt_rows = [], wt_next_id = 1\<rparr>, rg_readable = False, rg_writable = False\<rparr>,
      ls_heartbeat = \<lparr>wh_worker_id = ''w1'', wh_status = ''starting'', wh_heartbeat_at = 0\<rparr>,
      ls_stopped = False, ls_shutdown_requested = shutdown, ls_ticks = 0\<rparr>"

lemma demo_loop_usable: "usable_registry (ls_registry (demo_loop_state d b))"
  by (simp add: usable_registry_def demo_loop_state_def wf_registry_def wf_table_def all_entries_def
    wf_worker_def new_worker_def normal_queues_def)

lemma demo_loop_drained: "drained_as (loop_key demo_loop) d' (ls_registry (demo_loop_state d b)) = (d' = d)"
  by (auto simp: drained_as_def loop_key_def demo_loop_def demo_loop_state_def get_worker_def db_get_def
    memory_get_def new_worker_def opt_eq_def)

theorem retiring_worker_takes_no_work_witness:
  "ls_world (snd (run_once demo_loop (demo_loop_state ''draining'' False))) = 0 \<and>
   ls_stopped (snd (run_once demo_loop (demo_loop_state ''draining'' False))) \<and>
   ls_world (snd (run_once demo_loop (demo_loop_state ''active'' False))) = 1"
proof -
  have r: "retiring demo_loop (demo_loop_state ''draining'' False)"
    "\<not> quarantined demo_loop (demo_loop_state ''draining'' False)"
    by (simp_all add: retiring_def quarantined_def demo_loop_drained)
  have "ls_world (snd (run_once demo_loop (demo_loop_state ''active'' False))) = 1"
    by (simp add: run_once_def lifecycle_status_def loop_record_def demo_loop_def demo_loop_state_def get_worker_def
      db_get_def memory_get_def new_worker_def opt_eq_def poll_cancel_def poll_execute_def outside_do_def
      beat_as_def set_heartbeat_def publish_heartbeat_def eff_simps)
  then show ?thesis
    using retiring_worker_takes_no_work [of demo_loop "demo_loop_state ''draining'' False"] r
    by (simp add: demo_loop_state_def)
qed

theorem retiring_loop_ends_witness:
  "\<exists>s'. run_forever demo_loop (demo_loop_state ''active'' True) = Some (Inr (), s') \<and> ls_stopped s' \<and> ls_world s' = 0"
  using retiring_loop_ends [OF demo_loop_usable, of demo_loop "''active''" True]
  by (auto simp: retiring_def quarantined_def demo_loop_drained) (auto simp: demo_loop_def demo_loop_state_def)

theorem quarantined_loop_never_ends_witness:
  "run_forever demo_loop (demo_loop_state ''quarantined'' True) = None"
  by (rule quarantined_loop_never_ends [OF demo_loop_usable])
    (simp_all add: quarantined_def demo_loop_drained, simp_all add: demo_loop_def demo_loop_state_def)

end
