(* ===== verification/Replay_Buffer.thy ===== *)
theory Replay_Buffer
  imports Events
begin

text \<open>
  The bounded per-run event log of \<open>streaming/replay_buffer.py\<close>: events are numbered per run, the
  oldest are dropped beyond a limit, payloads beyond a size are replaced by a reference, and a client
  resumes after the last event id it saw. The reference definition is the unbounded log of a run.
\<close>

section \<open>The buffer\<close>

record ReplayBuffer =
  max_events_per_run :: int
  max_payload_bytes :: int
  rb_events :: "(int \<times> AgentEvent list) list"
  rb_next_sequence :: "(int \<times> int) list"

definition init_buffer :: "int \<Rightarrow> int \<Rightarrow> ReplayBuffer" where
  "init_buffer m p = \<lparr>max_events_per_run = m, max_payload_bytes = p, rb_events = [],
     rb_next_sequence = []\<rparr>"

definition payload_or_ref :: "int \<Rightarrow> int \<Rightarrow> int \<Rightarrow> pydict \<Rightarrow> pydict" where
  "payload_or_ref max_bytes run_id sequence payload =
     (if int (length (dumps_sorted (VDict payload))) \<le> max_bytes then payload
      else [(''payload_ref'', VStr (''artifact://'' @ dec_int run_id @ ''/'' @ dec_int sequence)),
            (''truncated'', VBool True)])"

definition stored_event :: "int \<Rightarrow> int \<Rightarrow> int option \<Rightarrow> int \<Rightarrow> AgentEvent \<Rightarrow> AgentEvent" where
  "stored_event max_bytes run_id attempt_id sequence event =
     post_init (event\<lparr>ev_run_id := Some run_id, ev_attempt_id := attempt_id,
       ev_sequence := Some sequence, ev_event_id := Some (event_id_of run_id sequence),
       ev_payload := payload_or_ref max_bytes run_id sequence (ev_payload event)\<rparr>)"

definition append_event ::
  "int \<Rightarrow> int option \<Rightarrow> AgentEvent \<Rightarrow> ReplayBuffer \<Rightarrow> AgentEvent \<times> ReplayBuffer" where
  "append_event run_id attempt_id event rb =
     (let sequence = or_else (dget (rb_next_sequence rb) run_id) 1;
          stored = stored_event (max_payload_bytes rb) run_id attempt_id sequence event;
          events = or_else (dget (rb_events rb) run_id) [] @ [stored];
          kept = (if int (length events) > max_events_per_run rb
                  then drop (nat (int (length events) - max_events_per_run rb)) events else events)
      in (stored, rb\<lparr>rb_events := dset (rb_events rb) run_id kept,
                     rb_next_sequence := dset (rb_next_sequence rb) run_id (sequence + 1)\<rparr>))"

datatype replay_error =
    Replay_expired AgentEvent
  | Id_of_other_run
  | Id_not_a_number

definition parse_event_id :: "int \<Rightarrow> string \<Rightarrow> replay_error + int" where
  "parse_event_id run_id event_id =
     (let prefix = dec_int run_id @ '':'' in
      if \<not> startswith event_id prefix then Inl Id_of_other_run
      else (case parse_int (drop (length prefix) event_id) of
              None \<Rightarrow> Inl Id_not_a_number | Some i \<Rightarrow> Inr i))"

definition expired_event :: "datetime \<Rightarrow> int \<Rightarrow> string \<Rightarrow> int \<Rightarrow> AgentEvent" where
  "expired_event now run_id last_event_id last_sequence =
     (new_event now ''stream.replay_expired'' [(''last_event_id'', VStr last_event_id)])
       \<lparr>ev_run_id := Some run_id,
        ev_event_id := Some (dec_int run_id @ '':replay-expired:'' @ dec_int last_sequence),
        ev_visibility_level := ''transport''\<rparr>"

definition replay ::
  "datetime \<Rightarrow> int \<Rightarrow> string option \<Rightarrow> ReplayBuffer \<Rightarrow> replay_error + AgentEvent list" where
  "replay now run_id last_event_id rb =
     (let events = or_else (dget (rb_events rb) run_id) [] in
      case last_event_id of
        None \<Rightarrow> Inr events
      | Some i \<Rightarrow> (case parse_event_id run_id i of
          Inl e \<Rightarrow> Inl e
        | Inr last_sequence \<Rightarrow>
            if (case events of [] \<Rightarrow> False | e # _ \<Rightarrow>
                  (case ev_sequence e of None \<Rightarrow> False | Some n \<Rightarrow> last_sequence < n))
            then Inl (Replay_expired (expired_event now run_id i last_sequence))
            else Inr (filter (\<lambda>e. case ev_sequence e of None \<Rightarrow> False | Some n \<Rightarrow> n > last_sequence)
                        events)))"

section \<open>The reference log\<close>

type_synonym append_call = "int \<times> int option \<times> AgentEvent"

definition append_all :: "append_call list \<Rightarrow> ReplayBuffer \<Rightarrow> ReplayBuffer" where
  "append_all = fold (\<lambda>(r, a, e) rb. snd (append_event r a e rb))"

text \<open>Every event ever appended for a run, numbered from one.\<close>

definition full_log :: "int \<Rightarrow> append_call list \<Rightarrow> int \<Rightarrow> AgentEvent list" where
  "full_log p calls rid = map (\<lambda>(i, (_, a, e)). stored_event p rid a (int i + 1) e)
     (enumerate 0 (filter (\<lambda>(r, _, _). r = rid) calls))"

text \<open>The last \<open>m\<close> elements (none when \<open>m\<close> is not positive).\<close>

definition last_n :: "int \<Rightarrow> 'a list \<Rightarrow> 'a list" where
  "last_n m xs = drop (nat (int (length xs) - m)) xs"

lemma last_n_snoc: "last_n m (last_n m xs @ [x]) = last_n m (xs @ [x])"
proof -
  consider "int (length xs) \<le> m" | "0 < m" "m < int (length xs)" | "m \<le> 0" by linarith
  then show ?thesis
  proof cases
    case 2
    then have "length xs - nat (int (length xs) - m) = nat m" by linarith
    moreover have "nat (1 + int (length xs) - m) = Suc (nat (int (length xs) - m))" using 2 by linarith
    ultimately show ?thesis using 2 by (auto simp: last_n_def drop_Suc tl_drop tl_append2)
  qed (simp_all add: last_n_def)
qed

lemma drop_over [simp]: "(if int (length xs) > m then drop (nat (int (length xs) - m)) xs else xs) = last_n m xs"
  by (simp add: last_n_def)

lemma full_log_snoc:
  "full_log p (calls @ [(r, a, e)]) rid = (if r = rid
     then full_log p calls rid @ [stored_event p rid a (int (length (full_log p calls rid)) + 1) e]
     else full_log p calls rid)"
  by (simp add: full_log_def enumerate_append_eq)

definition represents :: "int \<Rightarrow> int \<Rightarrow> append_call list \<Rightarrow> ReplayBuffer \<Rightarrow> bool" where
  "represents m p calls rb \<longleftrightarrow> max_events_per_run rb = m \<and> max_payload_bytes rb = p \<and>
     (\<forall>rid. or_else (dget (rb_events rb) rid) [] = last_n m (full_log p calls rid) \<and>
            or_else (dget (rb_next_sequence rb) rid) 1 = int (length (full_log p calls rid)) + 1)"

lemma represents_init: "represents m p [] (init_buffer m p)"
  by (simp add: represents_def init_buffer_def full_log_def last_n_def)

lemma append_event_snd:
  "snd (append_event r a e rb) =
     (let n = or_else (dget (rb_next_sequence rb) r) 1 in
      rb\<lparr>rb_events := dset (rb_events rb) r (last_n (max_events_per_run rb)
           (or_else (dget (rb_events rb) r) [] @ [stored_event (max_payload_bytes rb) r a n e])),
         rb_next_sequence := dset (rb_next_sequence rb) r (n + 1)\<rparr>)"
  by (simp add: append_event_def Let_def last_n_def)

lemma represents_append:
  assumes "represents m p calls rb"
  shows "represents m p (calls @ [(r, a, e)]) (snd (append_event r a e rb))"
  using assms unfolding represents_def append_event_snd Let_def
  by (simp add: full_log_snoc last_n_snoc or_else_def)

lemma represents_all:
  "represents m p cs rb \<Longrightarrow> represents m p (cs @ calls) (append_all calls rb)"
proof (induction calls arbitrary: cs rb)
  case Nil
  then show ?case by (simp add: append_all_def)
next
  case (Cons c calls)
  obtain r a e where c: "c = (r, a, e)" by (cases c) auto
  show ?case
    using Cons.IH [OF represents_append [OF Cons.prems, of r a e]] by (simp add: append_all_def c)
qed

lemma sequence_stored [simp]: "ev_sequence (stored_event p r a n e) = Some n"
  by (simp add: stored_event_def post_init_def)

lemma full_log_sequence:
  "k < length (full_log p calls rid) \<Longrightarrow> ev_sequence (full_log p calls rid ! k) = Some (int k + 1)"
  by (simp add: full_log_def nth_enumerate_eq split: prod.splits)

lemma parse_event_id_of [simp]: "parse_event_id r (event_id_of r n) = Inr n"
proof -
  have "event_id_of r n = (dec_int r @ '':'') @ dec_int n" by (simp add: event_id_of_def)
  then show ?thesis by (simp add: parse_event_id_def Let_def startswith_def)
qed

lemma represents_buffer: "represents m p calls (append_all calls (init_buffer m p))"
  using represents_all [OF represents_init] by simp

lemma last_n_first:
  assumes "0 < m" "xs \<noteq> []"
  shows "\<exists>k ys. last_n m xs = xs ! k # ys \<and> k < length xs \<and> int k = max 0 (int (length xs) - m)"
proof -
  let ?k = "nat (int (length xs) - m)"
  have "?k < length xs" using assms by (cases xs) auto
  then have "last_n m xs = xs ! ?k # drop (Suc ?k) xs" by (simp add: last_n_def Cons_nth_drop_Suc)
  with \<open>?k < length xs\<close> show ?thesis by (intro exI [of _ ?k]) auto
qed

lemma filter_sequence:
  assumes "\<And>i. i < length xs \<Longrightarrow> s (xs ! i) = int i + 1 + b" "b \<ge> 0"
  shows "filter (\<lambda>e. s e > k) xs = drop (nat (k - b)) xs"
  using assms
proof (induction xs arbitrary: b)
  case (Cons x xs)
  have "s (xs ! i) = int i + 1 + (b + 1)" if "i < length xs" for i
    using Cons.prems(1) [of "Suc i"] that by simp
  from Cons.IH [OF this] have IH: "filter (\<lambda>e. k < s e) xs = drop (nat (k - (b + 1))) xs"
    using Cons.prems(2) by simp
  have x: "s x = 1 + b" using Cons.prems(1) [of 0] by simp
  show ?case
  proof (cases "k < 1 + b")
    case True
    with x IH show ?thesis by simp
  next
    case False
    then have "nat (k - b) = Suc (nat (k - (b + 1)))" by simp
    with x IH False show ?thesis by simp
  qed
qed simp

lemma full_log_filter:
  assumes "f \<le> int (length (full_log p calls rid))" "0 \<le> f" "f \<le> k"
  shows "filter (\<lambda>e. case ev_sequence e of None \<Rightarrow> False | Some n \<Rightarrow> n > k)
     (drop (nat f) (full_log p calls rid)) = drop (nat k) (full_log p calls rid)"
proof -
  let ?xs = "drop (nat f) (full_log p calls rid)"
  have s: "ev_sequence (?xs ! i) = Some (int i + 1 + f)" if "i < length ?xs" for i
    using that assms full_log_sequence [of "nat f + i" p calls rid] by simp
  have "filter (\<lambda>e. case ev_sequence e of None \<Rightarrow> False | Some n \<Rightarrow> n > k) ?xs =
      filter (\<lambda>e. the (ev_sequence e) > k) ?xs"
    by (rule filter_cong) (auto simp: in_set_conv_nth s simp del: nth_drop length_drop)
  also have "\<dots> = drop (nat (k - f)) ?xs"
    using s assms(2) by (intro filter_sequence) (simp_all del: nth_drop length_drop)
  also have "\<dots> = drop (nat k) (full_log p calls rid)"
    using assms(2,3) by (simp add: nat_add_distrib [symmetric])
  finally show ?thesis .
qed

text \<open>
  The buffer refines the unbounded log. After any sequence of appends to any runs, replaying a
  run from the start gives exactly the last \<open>max_events_per_run\<close> of all its events, in order, with
  consecutive sequence numbers from the run's own counter: runs never mix, no event is lost inside
  the window and none is repeated.
\<close>

lemma replay_window:
  "replay now rid None (append_all calls (init_buffer m p)) = Inr (last_n m (full_log p calls rid)) \<and>
   map ev_sequence (full_log p calls rid) =
     map (\<lambda>i. Some (int i + 1)) [0..<length (full_log p calls rid)]"
  using represents_buffer [of m p calls]
  by (auto simp: replay_def Let_def represents_def full_log_sequence intro: nth_equalityI)

text \<open>
  C23: Resuming after the event with sequence number \<open>k\<close> returns exactly the events of the run after
  \<open>k\<close>, so that what the client had seen followed by what it gets is the whole log; when \<open>k\<close> precedes
  the oldest event kept the client is told that its position has expired instead of being given a
  stream with a gap.
\<close>

theorem resume_exact:
  assumes "0 < m" "0 \<le> k"
  shows "replay now rid (Some (event_id_of rid k)) (append_all calls (init_buffer m p)) =
     (let log = full_log p calls rid in
      if log \<noteq> [] \<and> k < max 0 (int (length log) - m) + 1
      then Inl (Replay_expired (expired_event now rid (event_id_of rid k) k))
      else Inr (drop (nat k) log))"
proof -
  let ?log = "full_log p calls rid" and ?rb = "append_all calls (init_buffer m p)"
  let ?f = "max 0 (int (length ?log) - m)"
  have e: "or_else (dget (rb_events ?rb) rid) [] = last_n m ?log"
    using represents_buffer [of m p calls] by (simp add: represents_def)
  have d: "last_n m ?log = drop (nat ?f) ?log" by (simp add: last_n_def max_def)
  show ?thesis
  proof (cases "?log = []")
    case True
    then have "last_n m ?log = []" by (simp add: last_n_def)
    then show ?thesis using e True by (simp add: replay_def Let_def)
  next
    case False
    obtain j ys where j: "last_n m ?log = ?log ! j # ys" "j < length ?log" "int j = ?f"
      using last_n_first [OF assms(1) False] by blast
    have "ev_sequence (?log ! j) = Some (?f + 1)" using full_log_sequence [OF j(2)] j(3) by simp
    moreover have "\<not> k < ?f + 1 \<Longrightarrow> filter (\<lambda>e. case ev_sequence e of None \<Rightarrow> False | Some n \<Rightarrow> n > k)
        (last_n m ?log) = drop (nat k) ?log"
      unfolding d using assms by (intro full_log_filter) auto
    ultimately show ?thesis
      using e j(1) False by (simp add: replay_def Let_def)
  qed
qed

definition demo_calls :: "append_call list" where
  "demo_calls = [(1, None, new_event 0 ''a'' []), (2, None, new_event 0 ''x'' []),
     (1, None, new_event 0 ''b'' []), (1, Some 4, new_event 0 ''c'' [])]"

theorem resume_exact_witness:
  "replay 9 1 (Some (event_id_of 1 2)) (append_all demo_calls (init_buffer 2 100)) =
     Inr [stored_event 100 1 (Some 4) 3 (new_event 0 ''c'' [])] \<and>
   replay 9 1 (Some (event_id_of 1 1)) (append_all demo_calls (init_buffer 2 100)) =
     Inl (Replay_expired (expired_event 9 1 (event_id_of 1 1) 1))"
  using resume_exact [of 2 2 9 1 demo_calls 100] resume_exact [of 2 1 9 1 demo_calls 100]
  by (simp add: demo_calls_def full_log_def Let_def)

lemma quote_plain: "\<forall>c \<in> set s. esc_char c = [c] \<Longrightarrow> length (quote s) = length s + 2"
  by (induction s) (simp_all add: quote_def)

lemma dec_int_plain: "c \<in> set (dec_int i) \<Longrightarrow> esc_char c = [c]"
proof -
  have "is_digit c \<Longrightarrow> esc_char c = [c]" by (auto simp: is_digit_def esc_char_def Let_def)
  moreover have "esc_char (CHR ''-'') = ''-''" by code_simp
  ultimately show "c \<in> set (dec_int i) \<Longrightarrow> ?thesis"
    using dec_nat_digits by (auto simp: dec_int_def split: if_splits)
qed

lemma ref_length:
  "length (dumps_sorted (VDict [(''payload_ref'', VStr (''artifact://'' @ dec_int r @ ''/'' @ dec_int n)),
     (''truncated'', VBool True)])) = length (dec_int r) + length (dec_int n) + 47"
proof -
  have o: "''payload_ref'' \<le> ''truncated''" by code_simp
  have k: "quote ''payload_ref'' = dq # ''payload_ref'' @ [dq]" "quote ''truncated'' = dq # ''truncated'' @ [dq]"
    by code_simp+
  have "\<forall>c \<in> set ''artifact://''. esc_char c = [c]" by code_simp
  then have "length (quote (''artifact://'' @ dec_int r @ ''/'' @ dec_int n)) =
      length (dec_int r) + length (dec_int n) + 14"
    using dec_int_plain by (subst quote_plain) auto
  then show ?thesis using o k by (simp add: dumps_sorted_def)
qed

text \<open>
  No stored payload is printed to more bytes than the configured limit, except that a payload
  beyond the limit costs the fixed-size reference that replaces it.
\<close>

lemma stored_payload_bound:
  "int (length (dumps_sorted (VDict (ev_payload (stored_event p rid a n e))))) \<le>
     max p (int (length (dec_int rid) + length (dec_int n) + 47))"
proof -
  have "ev_payload (stored_event p rid a n e) = payload_or_ref p rid n (ev_payload e)"
    by (simp add: stored_event_def post_init_def)
  then show ?thesis using ref_length [of rid n] by (simp add: payload_or_ref_def le_max_iff_disj)
qed

end
