(* ===== verification/Idempotency.thy ===== *)
theory Idempotency
  imports Json
begin

text \<open>
  Idempotency keys: the interface \<open>IdempotencyBackend\<close> and the in-memory store of
  \<open>runtime/idempotency.py\<close>, and the store on a database of \<open>runtime/sqlalchemy_idempotency.py\<close>. The
  contract of the interface is a locale; both stores are shown to fulfil it. The database is a table of
  rows; what other sessions commit between the look-up and the insert of a reservation is an argument.
\<close>

section \<open>The interface and its contract\<close>

type_synonym idempotency_scope = "int \<times> int option \<times> string \<times> string"

record IdempotencyReservation =
  rv_record_id :: int
  rv_is_replay :: bool
  rv_response :: "pydict option"

record 's idempotency_ops =
  io_reserve :: "idempotency_scope \<Rightarrow> string \<Rightarrow> ('s, IdempotencyReservation) eff"
  io_complete :: "int \<Rightarrow> pydict \<Rightarrow> ('s, unit) eff"

fun scope_key :: "idempotency_scope \<Rightarrow> string" where
  "scope_key (_, _, _, key) = key"

text \<open>
  A view gives, for every scope in use, the record id, the request hash and the response. A response may
  come back with its entries in another order: \<open>canon\<close>.
\<close>

locale idempotency_backend =
  fixes iops :: "'s idempotency_ops"
    and slot :: "'s \<Rightarrow> idempotency_scope \<Rightarrow> (int \<times> string \<times> pydict option) option"
    and iinv :: "'s \<Rightarrow> bool"
    and canon :: "pydict \<Rightarrow> pydict"
  assumes reserve_new: "iinv s \<Longrightarrow> slot s sc = None \<Longrightarrow>
      \<exists>i s'. io_reserve iops sc h s = (Inr \<lparr>rv_record_id = i, rv_is_replay = False, rv_response = None\<rparr>, s') \<and>
        iinv s' \<and> slot s' = (slot s)(sc \<mapsto> (i, h, None)) \<and> (\<forall>sc' h' r. slot s sc' \<noteq> Some (i, h', r))"
    and reserve_replay: "iinv s \<Longrightarrow> slot s sc = Some (i, h, r) \<Longrightarrow>
      io_reserve iops sc h s = (Inr \<lparr>rv_record_id = i, rv_is_replay = True, rv_response = r\<rparr>, s)"
    and reserve_conflict: "iinv s \<Longrightarrow> slot s sc = Some (i, h', r) \<Longrightarrow> h' \<noteq> h \<Longrightarrow>
      io_reserve iops sc h s = (Inl (IdempotencyConflictError (scope_key sc)), s)"
    and complete_known: "iinv s \<Longrightarrow> slot s sc = Some (i, h, r) \<Longrightarrow> proper_val (VDict response) \<Longrightarrow>
      \<exists>s'. io_complete iops i response s = (Inr (), s') \<and> iinv s' \<and>
        slot s' = (slot s)(sc \<mapsto> (i, h, Some (canon response)))"
    and complete_unknown: "iinv s \<Longrightarrow> (\<forall>sc h r. slot s sc \<noteq> Some (i, h, r)) \<Longrightarrow>
      io_complete iops i response s = (Inl KeyError, s)"
    and canon_int: "proper_val (VDict response) \<Longrightarrow> dget response k = Some (VInt n) \<Longrightarrow>
      dget (canon response) k = Some (VInt n)"
begin

text \<open>What a client gets for repeating a completed request, with the same or with another body.\<close>

lemma answered_once:
  assumes "iinv s" "slot s sc = None" "proper_val (VDict response)"
    "io_reserve iops sc h s = (Inr v, s1)" "io_complete iops (rv_record_id v) response s1 = (r, s2)"
  shows "\<not> rv_is_replay v \<and> r = Inr () \<and> iinv s2 \<and>
    io_reserve iops sc h s2 =
      (Inr \<lparr>rv_record_id = rv_record_id v, rv_is_replay = True, rv_response = Some (canon response)\<rparr>, s2) \<and>
    (h' \<noteq> h \<longrightarrow> io_reserve iops sc h' s2 = (Inl (IdempotencyConflictError (scope_key sc)), s2)) \<and>
    (sc' \<noteq> sc \<longrightarrow> slot s2 sc' = slot s sc')"
proof -
  obtain i where v: "v = \<lparr>rv_record_id = i, rv_is_replay = False, rv_response = None\<rparr>" "iinv s1"
    "slot s1 = (slot s)(sc \<mapsto> (i, h, None))"
    using reserve_new [OF assms(1,2), of h] assms(4) by auto
  then have s1: "slot s1 sc = Some (i, h, None)" by simp
  have c: "r = Inr ()" "iinv s2" "slot s2 = (slot s1)(sc \<mapsto> (i, h, Some (canon response)))"
    using complete_known [OF v(2) s1 assms(3)] assms(5) v(1) by auto
  then have "slot s2 sc = Some (i, h, Some (canon response))" by simp
  then show ?thesis
    using reserve_replay [OF c(2)] reserve_conflict [OF c(2)] c v by auto
qed

end

section \<open>The in-memory store\<close>

record IdempotencyRecord =
  ir_record_id :: int
  ir_request_hash :: string
  ir_status :: string
  ir_response :: "pydict option"

record IdempotencyStore =
  is_records :: "(idempotency_scope \<times> IdempotencyRecord) list"
  is_next_id :: int

definition init_idempotency :: IdempotencyStore where
  "init_idempotency = \<lparr>is_records = [], is_next_id = 1\<rparr>"

definition reserve :: "idempotency_scope \<Rightarrow> string \<Rightarrow> (IdempotencyStore, IdempotencyReservation) eff" where
  "reserve scope request_hash s = (case dget (is_records s) scope of
       Some existing \<Rightarrow>
         if ir_request_hash existing \<noteq> request_hash then (Inl (IdempotencyConflictError (scope_key scope)), s)
         else (Inr \<lparr>rv_record_id = ir_record_id existing, rv_is_replay = True, rv_response = ir_response existing\<rparr>, s)
     | None \<Rightarrow>
         let r = \<lparr>ir_record_id = is_next_id s, ir_request_hash = request_hash, ir_status = ''pending'', ir_response = None\<rparr>
         in (Inr \<lparr>rv_record_id = is_next_id s, rv_is_replay = False, rv_response = None\<rparr>,
             s\<lparr>is_records := dset (is_records s) scope r, is_next_id := is_next_id s + 1\<rparr>))"

definition complete_record :: "int \<Rightarrow> pydict \<Rightarrow> (IdempotencyStore, unit) eff" where
  "complete_record record_id response s =
     (case find (\<lambda>(_, r). ir_record_id r = record_id) (is_records s) of
        None \<Rightarrow> (Inl KeyError, s)
      | Some (scope, r) \<Rightarrow> (Inr (), s\<lparr>is_records := dset (is_records s) scope
            (r\<lparr>ir_status := ''completed'', ir_response := Some response\<rparr>)\<rparr>))"

definition memory_idempotency_ops :: "IdempotencyStore idempotency_ops" where
  "memory_idempotency_ops = \<lparr>io_reserve = reserve, io_complete = complete_record\<rparr>"

definition memory_slot :: "IdempotencyStore \<Rightarrow> idempotency_scope \<Rightarrow> (int \<times> string \<times> pydict option) option" where
  "memory_slot s sc = map_option (\<lambda>r. (ir_record_id r, ir_request_hash r, ir_response r)) (dget (is_records s) sc)"

definition wf_idempotency :: "IdempotencyStore \<Rightarrow> bool" where
  "wf_idempotency s \<longleftrightarrow> distinct (dkeys (is_records s)) \<and> distinct (map (ir_record_id \<circ> snd) (is_records s)) \<and>
     list_all (\<lambda>(_, r). ir_record_id r < is_next_id s) (is_records s)"

lemma wf_init_idempotency: "wf_idempotency init_idempotency"
  by (simp add: wf_idempotency_def init_idempotency_def)

lemma find_by_id:
  assumes "distinct (map (f \<circ> snd) d)" "(k, r) \<in> set d"
  shows "find (\<lambda>(_, r'). f r' = f r) d = Some (k, r)"
  using assms by (induction d) (force split: if_splits)+

lemma map_snd_dset:
  "distinct (dkeys d) \<Longrightarrow> dget d k = Some r0 \<Longrightarrow> f r = f r0 \<Longrightarrow> map (f \<circ> snd) (dset d k r) = map (f \<circ> snd) d"
  by (induction d) (auto split: if_splits)

lemma memory_slot_Some:
  assumes "memory_slot s sc = Some (i, h, r)"
  obtains rec where "dget (is_records s) sc = Some rec" "(sc, rec) \<in> set (is_records s)" "ir_record_id rec = i"
    "ir_request_hash rec = h" "ir_response rec = r"
  using assms by (auto simp: memory_slot_def dest: map_of_SomeD)

lemma memory_id_bound: "wf_idempotency s \<Longrightarrow> (k, r) \<in> set (is_records s) \<Longrightarrow> ir_record_id r < is_next_id s"
  by (auto simp: wf_idempotency_def list_all_iff)

lemma wf_reserved:
  assumes wf: "wf_idempotency s" and new: "sc \<notin> set (dkeys (is_records s))"
  shows "wf_idempotency (s\<lparr>is_records := dset (is_records s) sc
    \<lparr>ir_record_id = is_next_id s, ir_request_hash = h, ir_status = st, ir_response = r\<rparr>, is_next_id := is_next_id s + 1\<rparr>)"
proof -
  have "is_next_id s \<notin> set (map (ir_record_id \<circ> snd) (is_records s))"
    using memory_id_bound [OF wf] by force
  moreover have "ir_record_id r' < is_next_id s + 1" if "(k, r') \<in> set (is_records s)" for k r'
    using memory_id_bound [OF wf that] by simp
  ultimately show ?thesis
    using wf new unfolding wf_idempotency_def by (auto simp: dset_new [OF new] list_all_iff)
qed

interpretation memory_idempotency: idempotency_backend memory_idempotency_ops memory_slot wf_idempotency id
proof unfold_locales
  fix s :: IdempotencyStore and sc h
  assume wf: "wf_idempotency s" and none: "memory_slot s sc = None"
  let ?r = "\<lparr>ir_record_id = is_next_id s, ir_request_hash = h, ir_status = ''pending'', ir_response = None\<rparr>"
  let ?s = "s\<lparr>is_records := dset (is_records s) sc ?r, is_next_id := is_next_id s + 1\<rparr>"
  have none': "dget (is_records s) sc = None" using none by (simp add: memory_slot_def)
  then have "sc \<notin> set (dkeys (is_records s))" by (simp add: map_of_eq_None_iff)
  then have "wf_idempotency ?s" by (rule wf_reserved [OF wf])
  moreover have "memory_slot ?s = (memory_slot s)(sc \<mapsto> (is_next_id s, h, None))"
    by (rule ext) (simp add: memory_slot_def)
  moreover have "memory_slot s sc' \<noteq> Some (is_next_id s, h', r)" for sc' h' r
  proof
    assume "memory_slot s sc' = Some (is_next_id s, h', r)"
    then obtain rec where "(sc', rec) \<in> set (is_records s)" "ir_record_id rec = is_next_id s"
      by (rule memory_slot_Some)
    then show False using memory_id_bound [OF wf, of sc' rec] by simp
  qed
  ultimately show "\<exists>i s'. io_reserve memory_idempotency_ops sc h s =
      (Inr \<lparr>rv_record_id = i, rv_is_replay = False, rv_response = None\<rparr>, s') \<and> wf_idempotency s' \<and>
      memory_slot s' = (memory_slot s)(sc \<mapsto> (i, h, None)) \<and> (\<forall>sc' h' r. memory_slot s sc' \<noteq> Some (i, h', r))"
    using none' by (simp add: memory_idempotency_ops_def reserve_def Let_def)
next
  fix s :: IdempotencyStore and sc i h r response
  assume wf: "wf_idempotency s" and sc: "memory_slot s sc = Some (i, h, r)"
  obtain rec where rec: "dget (is_records s) sc = Some rec" "(sc, rec) \<in> set (is_records s)" "ir_record_id rec = i"
    "ir_request_hash rec = h" "ir_response rec = r" using sc by (rule memory_slot_Some)
  let ?rec = "rec\<lparr>ir_status := ''completed'', ir_response := Some response\<rparr>"
  let ?s = "s\<lparr>is_records := dset (is_records s) sc ?rec\<rparr>"
  have "find (\<lambda>(_, r). ir_record_id r = i) (is_records s) = Some (sc, rec)"
    using find_by_id [of ir_record_id "is_records s" sc rec] wf rec by (simp add: wf_idempotency_def)
  then have c: "io_complete memory_idempotency_ops i response s = (Inr (), ?s)"
    by (simp add: memory_idempotency_ops_def complete_record_def)
  have "map (ir_record_id \<circ> snd) (dset (is_records s) sc ?rec) = map (ir_record_id \<circ> snd) (is_records s)"
    using wf rec by (intro map_snd_dset [OF _ rec(1)]) (auto simp: wf_idempotency_def)
  then have "wf_idempotency ?s"
    using wf rec(2) by (auto simp: wf_idempotency_def list_all_iff in_dset_iff simp del: map_map split: if_splits)
  moreover have "memory_slot ?s = (memory_slot s)(sc \<mapsto> (i, h, Some (id response)))"
    by (rule ext) (simp add: memory_slot_def rec)
  ultimately show "\<exists>s'. io_complete memory_idempotency_ops i response s = (Inr (), s') \<and> wf_idempotency s' \<and>
      memory_slot s' = (memory_slot s)(sc \<mapsto> (i, h, Some (id response)))"
    using c by blast
next
  fix s :: IdempotencyStore and i response
  assume wf: "wf_idempotency s" and no: "\<forall>sc h r. memory_slot s sc \<noteq> Some (i, h, r)"
  have "ir_record_id r \<noteq> i" if "(k, r) \<in> set (is_records s)" for k r
  proof
    assume "ir_record_id r = i"
    moreover have "dget (is_records s) k = Some r" using wf that by (simp add: wf_idempotency_def dget_of_mem)
    ultimately have "memory_slot s k = Some (i, ir_request_hash r, ir_response r)" by (simp add: memory_slot_def)
    then show False using no by blast
  qed
  then have "find (\<lambda>(_, r). ir_record_id r = i) (is_records s) = None" by (auto simp: find_None_iff)
  then show "io_complete memory_idempotency_ops i response s = (Inl KeyError, s)"
    by (simp add: memory_idempotency_ops_def complete_record_def)
qed (auto simp: memory_idempotency_ops_def reserve_def memory_slot_def simp del: proper_val.simps)

section \<open>The store on a database\<close>

record IdempotencyRow =
  ib_id :: int
  ib_scope :: idempotency_scope
  ib_request_hash :: string
  ib_status :: string
  ib_response_ref :: "string option"

record idempotency_table =
  it_rows :: "IdempotencyRow list"
  it_next_id :: int

definition encode_response :: "pydict \<Rightarrow> string" where
  "encode_response response = ''json:'' @ dumps_sorted (VDict response)"

text \<open>\<open>None\<close> in the first place is a text that is no JSON, for which \<open>json.loads\<close> raises.\<close>

definition decode_response :: "string option \<Rightarrow> exn + pydict option" where
  "decode_response value = (case value of
       None \<Rightarrow> Inr None
     | Some v \<Rightarrow> if \<not> startswith v ''json:'' then Inr None
         else (case loads (drop (length ''json:'') v) of
                 None \<Rightarrow> Inl (ValueError ''json'')
               | Some (VDict d) \<Rightarrow> Inr (Some d)
               | Some _ \<Rightarrow> Inr None))"

definition find_record :: "idempotency_scope \<Rightarrow> idempotency_table \<Rightarrow> IdempotencyRow option" where
  "find_record scope t = find (\<lambda>r. ib_scope r = scope) (it_rows t)"

definition reservation_from_existing :: "IdempotencyRow \<Rightarrow> string \<Rightarrow> exn + IdempotencyReservation" where
  "reservation_from_existing r request_hash =
     (if ib_request_hash r \<noteq> request_hash then Inl (IdempotencyConflictError (scope_key (ib_scope r)))
      else (case decode_response (ib_response_ref r) of
              Inl e \<Rightarrow> Inl e
            | Inr response \<Rightarrow> Inr \<lparr>rv_record_id = ib_id r, rv_is_replay = True, rv_response = response\<rparr>))"

text \<open>The unique constraint does not compare rows whose project is \<open>NULL\<close>.\<close>

fun constrained :: "idempotency_scope \<Rightarrow> bool" where
  "constrained (_, project, _, _) \<longleftrightarrow> project \<noteq> None"

text \<open>
  \<open>reserve\<close>. \<open>others t\<close> is the table after what other sessions committed between the look-up and the
  flush of this one.
\<close>

definition sql_reserve ::
  "(idempotency_table \<Rightarrow> idempotency_table) \<Rightarrow> idempotency_scope \<Rightarrow> string \<Rightarrow>
     (idempotency_table, IdempotencyReservation) eff" where
  "sql_reserve others scope request_hash t = (case find_record scope t of
       Some existing \<Rightarrow> (reservation_from_existing existing request_hash, t)
     | None \<Rightarrow>
         let t1 = others t
         in case (if constrained scope then find_record scope t1 else None) of
              Some existing \<Rightarrow> (reservation_from_existing existing request_hash, t1)
            | None \<Rightarrow>
                (Inr \<lparr>rv_record_id = it_next_id t1, rv_is_replay = False, rv_response = None\<rparr>,
                 t1\<lparr>it_rows := it_rows t1 @ [\<lparr>ib_id = it_next_id t1, ib_scope = scope,
                       ib_request_hash = request_hash, ib_status = ''pending'', ib_response_ref = None\<rparr>],
                    it_next_id := it_next_id t1 + 1\<rparr>))"

definition sql_complete :: "int \<Rightarrow> pydict \<Rightarrow> (idempotency_table, unit) eff" where
  "sql_complete record_id response t =
     (if list_ex (\<lambda>r. ib_id r = record_id) (it_rows t) then
        (Inr (), t\<lparr>it_rows := map (\<lambda>r. if ib_id r = record_id
           then r\<lparr>ib_status := ''completed'', ib_response_ref := Some (encode_response response)\<rparr> else r) (it_rows t)\<rparr>)
      else (Inl KeyError, t))"

definition sql_idempotency_ops :: "idempotency_table idempotency_ops" where
  "sql_idempotency_ops = \<lparr>io_reserve = sql_reserve id, io_complete = sql_complete\<rparr>"

definition sorted_entries :: "pydict \<Rightarrow> pydict" where
  "sorted_entries d = (case sort_keys (VDict d) of VDict e \<Rightarrow> e | _ \<Rightarrow> d)"

lemma dget_sorted_entries:
  assumes "proper_val (VDict d)"
  shows "dget (sorted_entries d) k = map_option sort_keys (dget d k)"
proof -
  let ?e = "map (\<lambda>(k, v). (k, sort_keys v)) d"
  have "map fst ?e = map fst d" by (induction d) auto
  then have "distinct (map fst ?e)" using assms by simp
  then have "dget (sort_key fst ?e) = dget ?e"
    by (intro map_of_inject_set [THEN iffD2]) (simp_all add: distinct_sort_key)
  then show ?thesis by (simp add: sorted_entries_def dget_map_vals)
qed

lemma decode_encode:
  "proper_val (VDict d) \<Longrightarrow> decode_response (Some (encode_response d)) = Inr (Some (sorted_entries d))"
  by (simp add: decode_response_def encode_response_def sorted_entries_def startswith_def del: proper_val.simps)

definition decoded :: "string option \<Rightarrow> pydict option" where
  "decoded v = (case decode_response v of Inl _ \<Rightarrow> None | Inr r \<Rightarrow> r)"

definition sql_slot :: "idempotency_table \<Rightarrow> idempotency_scope \<Rightarrow> (int \<times> string \<times> pydict option) option" where
  "sql_slot t sc = map_option (\<lambda>r. (ib_id r, ib_request_hash r, decoded (ib_response_ref r))) (find_record sc t)"

definition wf_idempotency_table :: "idempotency_table \<Rightarrow> bool" where
  "wf_idempotency_table t \<longleftrightarrow> distinct (map ib_scope (it_rows t)) \<and> distinct (map ib_id (it_rows t)) \<and>
     list_all (\<lambda>r. ib_id r < it_next_id t \<and> (\<exists>v. decode_response (ib_response_ref r) = Inr v)) (it_rows t)"

lemma find_record_Some: "find_record sc t = Some r \<Longrightarrow> r \<in> set (it_rows t) \<and> ib_scope r = sc"
  by (auto simp: find_record_def find_Some_iff)

lemma sql_slot_Some:
  assumes "sql_slot t sc = Some (i, h, v)"
  obtains r where "find_record sc t = Some r" "r \<in> set (it_rows t)" "ib_scope r = sc" "ib_id r = i"
    "ib_request_hash r = h" "decoded (ib_response_ref r) = v"
  using assms find_record_Some [of sc t] by (auto simp: sql_slot_def)

lemma find_record_of_mem:
  assumes "wf_idempotency_table t" "r \<in> set (it_rows t)"
  shows "find_record (ib_scope r) t = Some r"
proof -
  have "distinct (map ib_scope rows) \<Longrightarrow> r \<in> set rows \<Longrightarrow> find (\<lambda>x. ib_scope x = ib_scope r) rows = Some r" for rows
    by (induction rows) (force split: if_splits)+
  then show ?thesis using assms by (simp add: wf_idempotency_table_def find_record_def)
qed

lemma sql_existing:
  assumes "wf_idempotency_table t" "find_record sc t = Some r"
  shows "reservation_from_existing r h =
    (if ib_request_hash r = h then Inr \<lparr>rv_record_id = ib_id r, rv_is_replay = True, rv_response = decoded (ib_response_ref r)\<rparr>
     else Inl (IdempotencyConflictError (scope_key sc)))"
proof -
  have r: "ib_scope r = sc" "r \<in> set (it_rows t)" using find_record_Some [OF assms(2)] by simp_all
  obtain v where "decode_response (ib_response_ref r) = Inr v"
    using assms(1) r(2) by (auto simp: wf_idempotency_table_def list_all_iff)
  then show ?thesis using r(1) by (auto simp: reservation_from_existing_def decoded_def)
qed

lemma find_record_append:
  "find_record sc (t\<lparr>it_rows := it_rows t @ [r], it_next_id := n\<rparr>) =
     (case find_record sc t of Some x \<Rightarrow> Some x | None \<Rightarrow> if ib_scope r = sc then Some r else None)"
proof -
  have "find P (xs @ [x]) = (case find P xs of Some y \<Rightarrow> Some y | None \<Rightarrow> if P x then Some x else None)"
    for P :: "IdempotencyRow \<Rightarrow> bool" and xs x by (induction xs) auto
  then show ?thesis by (simp add: find_record_def)
qed

lemma find_record_completed:
  fixes t i d
  defines "t' \<equiv> t\<lparr>it_rows := map (\<lambda>r. if ib_id r = i
     then r\<lparr>ib_status := ''completed'', ib_response_ref := Some (encode_response d)\<rparr> else r) (it_rows t)\<rparr>"
  shows "find_record sc t' = map_option (\<lambda>r. if ib_id r = i
     then r\<lparr>ib_status := ''completed'', ib_response_ref := Some (encode_response d)\<rparr> else r) (find_record sc t)"
proof -
  have "find (\<lambda>r. ib_scope r = sc) (map (\<lambda>r. if ib_id r = i
      then r\<lparr>ib_status := ''completed'', ib_response_ref := Some (encode_response d)\<rparr> else r) rows) =
    map_option (\<lambda>r. if ib_id r = i
      then r\<lparr>ib_status := ''completed'', ib_response_ref := Some (encode_response d)\<rparr> else r)
      (find (\<lambda>r. ib_scope r = sc) rows)" for rows by (induction rows) auto
  then show ?thesis by (simp add: find_record_def t'_def)
qed

lemma wf_sql_inserted:
  assumes "wf_idempotency_table t" "find_record sc t = None"
  shows "wf_idempotency_table (t\<lparr>it_rows := it_rows t @ [\<lparr>ib_id = it_next_id t, ib_scope = sc, ib_request_hash = h,
    ib_status = st, ib_response_ref = None\<rparr>], it_next_id := it_next_id t + 1\<rparr>)"
proof -
  have "sc \<notin> ib_scope ` set (it_rows t)" using assms(2) by (auto simp: find_record_def find_None_iff)
  moreover have "it_next_id t \<notin> ib_id ` set (it_rows t)"
    using assms(1) by (auto simp: wf_idempotency_table_def list_all_iff)
  ultimately show ?thesis
    using assms(1) by (auto simp: wf_idempotency_table_def list_all_iff decode_response_def)
qed

lemma wf_sql_completed:
  assumes "wf_idempotency_table t" "proper_val (VDict d)"
  shows "wf_idempotency_table (t\<lparr>it_rows := map (\<lambda>r. if ib_id r = i
     then r\<lparr>ib_status := ''completed'', ib_response_ref := Some (encode_response d)\<rparr> else r) (it_rows t)\<rparr>)"
proof -
  let ?f = "\<lambda>r. if ib_id r = i then r\<lparr>ib_status := ''completed'', ib_response_ref := Some (encode_response d)\<rparr> else r"
  have "map ib_scope (map ?f rows) = map ib_scope rows" "map ib_id (map ?f rows) = map ib_id rows"
    for rows :: "IdempotencyRow list"
    by (induction rows) simp_all
  then show ?thesis
    using assms(1) decode_encode [OF assms(2)] unfolding wf_idempotency_table_def
    by (auto simp: list_all_iff simp del: map_map)
qed

interpretation sql_idempotency: idempotency_backend sql_idempotency_ops sql_slot wf_idempotency_table sorted_entries
proof unfold_locales
  fix t sc h
  assume wf: "wf_idempotency_table t" and none: "sql_slot t sc = None"
  let ?r = "\<lparr>ib_id = it_next_id t, ib_scope = sc, ib_request_hash = h, ib_status = ''pending'', ib_response_ref = None\<rparr>"
  let ?t = "t\<lparr>it_rows := it_rows t @ [?r], it_next_id := it_next_id t + 1\<rparr>"
  have none': "find_record sc t = None" using none by (simp add: sql_slot_def)
  then have "wf_idempotency_table ?t" by (rule wf_sql_inserted [OF wf])
  moreover have "sql_slot ?t = (sql_slot t)(sc \<mapsto> (it_next_id t, h, None))"
  proof (rule ext)
    fix sc'
    show "sql_slot ?t sc' = ((sql_slot t)(sc \<mapsto> (it_next_id t, h, None))) sc'"
      using none' by (simp add: sql_slot_def find_record_append decoded_def decode_response_def split: option.split)
  qed
  moreover have "sql_slot t sc' \<noteq> Some (it_next_id t, h', r)" for sc' h' r
  proof
    assume "sql_slot t sc' = Some (it_next_id t, h', r)"
    then obtain x where "x \<in> set (it_rows t)" "ib_id x = it_next_id t" by (rule sql_slot_Some)
    then show False using wf by (auto simp: wf_idempotency_table_def list_all_iff)
  qed
  ultimately show "\<exists>i s'. io_reserve sql_idempotency_ops sc h t =
      (Inr \<lparr>rv_record_id = i, rv_is_replay = False, rv_response = None\<rparr>, s') \<and> wf_idempotency_table s' \<and>
      sql_slot s' = (sql_slot t)(sc \<mapsto> (i, h, None)) \<and> (\<forall>sc' h' r. sql_slot t sc' \<noteq> Some (i, h', r))"
    using none' by (simp add: sql_idempotency_ops_def sql_reserve_def)
next
  fix t sc i h r
  assume wf: "wf_idempotency_table t" and sc: "sql_slot t sc = Some (i, h, r)"
  obtain x where x: "find_record sc t = Some x" "ib_id x = i" "ib_request_hash x = h" "decoded (ib_response_ref x) = r"
    using sc by (rule sql_slot_Some)
  then show "io_reserve sql_idempotency_ops sc h t = (Inr \<lparr>rv_record_id = i, rv_is_replay = True, rv_response = r\<rparr>, t)"
    by (simp add: sql_idempotency_ops_def sql_reserve_def sql_existing [OF wf])
next
  fix t sc i h h' r
  assume wf: "wf_idempotency_table t" and sc: "sql_slot t sc = Some (i, h', r)" and h: "h' \<noteq> h"
  obtain x where "find_record sc t = Some x" "ib_request_hash x = h'" using sc by (rule sql_slot_Some)
  then show "io_reserve sql_idempotency_ops sc h t = (Inl (IdempotencyConflictError (scope_key sc)), t)"
    using h by (simp add: sql_idempotency_ops_def sql_reserve_def sql_existing [OF wf])
next
  fix t sc i h r response
  assume wf: "wf_idempotency_table t" and sc: "sql_slot t sc = Some (i, h, r)" and p: "proper_val (VDict response)"
  obtain x where x: "find_record sc t = Some x" "x \<in> set (it_rows t)" "ib_id x = i" "ib_request_hash x = h"
    using sc by (rule sql_slot_Some)
  let ?t = "t\<lparr>it_rows := map (\<lambda>r. if ib_id r = i
     then r\<lparr>ib_status := ''completed'', ib_response_ref := Some (encode_response response)\<rparr> else r) (it_rows t)\<rparr>"
  have "list_ex (\<lambda>r. ib_id r = i) (it_rows t)" using x by (auto simp: list_ex_iff)
  then have c: "io_complete sql_idempotency_ops i response t = (Inr (), ?t)"
    by (simp add: sql_idempotency_ops_def sql_complete_def)
  have other: "ib_id y \<noteq> i" if "find_record sc' t = Some y" "sc' \<noteq> sc" for sc' y
  proof
    assume "ib_id y = i"
    moreover have "inj_on ib_id (set (it_rows t))" using wf by (simp add: wf_idempotency_table_def distinct_map)
    ultimately have "y = x" using find_record_Some [OF that(1)] x(2,3) by (blast dest: inj_onD)
    then show False using find_record_Some [OF that(1)] find_record_Some [OF x(1)] that(2) by simp
  qed
  have "sql_slot ?t = (sql_slot t)(sc \<mapsto> (i, h, Some (sorted_entries response)))"
  proof (rule ext)
    fix sc'
    show "sql_slot ?t sc' = ((sql_slot t)(sc \<mapsto> (i, h, Some (sorted_entries response)))) sc'"
      using x other [of sc'] decode_encode [OF p]
      by (cases "find_record sc' t") (auto simp: sql_slot_def find_record_completed decoded_def)
  qed
  then show "\<exists>s'. io_complete sql_idempotency_ops i response t = (Inr (), s') \<and> wf_idempotency_table s' \<and>
      sql_slot s' = (sql_slot t)(sc \<mapsto> (i, h, Some (sorted_entries response)))"
    using c wf_sql_completed [OF wf p, of i] by blast
next
  fix t i response
  assume wf: "wf_idempotency_table t" and no: "\<forall>sc h r. sql_slot t sc \<noteq> Some (i, h, r)"
  have "ib_id r \<noteq> i" if "r \<in> set (it_rows t)" for r
  proof
    assume "ib_id r = i"
    then have "sql_slot t (ib_scope r) = Some (i, ib_request_hash r, decoded (ib_response_ref r))"
      using find_record_of_mem [OF wf that] by (simp add: sql_slot_def)
    then show False using no by blast
  qed
  then show "io_complete sql_idempotency_ops i response t = (Inl KeyError, t)"
    by (auto simp: sql_idempotency_ops_def sql_complete_def list_ex_iff)
qed (simp add: dget_sorted_entries del: proper_val.simps)

section \<open>What the stores promise\<close>


text \<open>
  C35: Two sessions race for a key of a project: when another session commits the same scope between the
  look-up and the insert, the reservation replays the other session's record instead of creating a
  second one. Without a project the unique constraint does not apply, and both sessions get a
  reservation of their own.
\<close>

theorem racing_reservation:
  assumes "wf_idempotency_table t" "find_record sc t = None"
  shows "case sql_reserve id sc h t of (first, t1) \<Rightarrow>
    (case sql_reserve (\<lambda>_. t1) sc h t of (second, t2) \<Rightarrow> \<exists>i. first = Inr \<lparr>rv_record_id = i, rv_is_replay = False, rv_response = None\<rparr> \<and>
      (if constrained sc then t2 = t1 \<and> second = Inr \<lparr>rv_record_id = i, rv_is_replay = True, rv_response = None\<rparr>
       else second = Inr \<lparr>rv_record_id = i + 1, rv_is_replay = False, rv_response = None\<rparr> \<and>
         length (filter (\<lambda>r. ib_scope r = sc) (it_rows t2)) = 2))"
proof -
  let ?r = "\<lparr>ib_id = it_next_id t, ib_scope = sc, ib_request_hash = h, ib_status = ''pending'', ib_response_ref = None\<rparr>"
  have "filter (\<lambda>r. ib_scope r = sc) (it_rows t) = []"
    using assms(2) by (simp add: find_record_def find_None_iff filter_empty_conv)
  then show ?thesis
    using assms find_record_append [where sc = sc and t = t and r = ?r and n = "it_next_id t + 1"]
    by (simp add: sql_reserve_def Let_def reservation_from_existing_def decode_response_def)
qed

section \<open>An example\<close>

definition demo_scope :: idempotency_scope where
  "demo_scope = (1, Some 1, ''/v1/runs'', ''key-1'')"

definition demo_response :: pydict where
  "demo_response = [(''task_id'', VInt 4), (''run_id'', VInt 3)]"

definition demo_table :: idempotency_table where
  "demo_table = \<lparr>it_rows = [], it_next_id = 1\<rparr>"


theorem racing_reservation_witness:
  "\<exists>t1. sql_reserve id demo_scope ''h'' demo_table =
      (Inr \<lparr>rv_record_id = 1, rv_is_replay = False, rv_response = None\<rparr>, t1) \<and>
    sql_reserve (\<lambda>_. t1) demo_scope ''h'' demo_table =
      (Inr \<lparr>rv_record_id = 1, rv_is_replay = True, rv_response = None\<rparr>, t1)"
proof -
  have "wf_idempotency_table demo_table" "find_record demo_scope demo_table = None"
    by (simp_all add: demo_table_def wf_idempotency_table_def find_record_def)
  from racing_reservation [OF this, of "''h''"] show ?thesis
    by (simp add: sql_reserve_def demo_table_def demo_scope_def find_record_def Let_def split: prod.splits)
qed

end
