(* ===== verification/Native_Runtime.thy ===== *)
theory Native_Runtime
  imports State_Machine Replay_Buffer Idempotency
begin

text \<open>
  The native runtime store of \<open>api/native/runtime.py\<close>: agents, their versions, runs and tasks, with
  idempotent creation of runs, replay and cancellation. The idempotency backend is the interface of the
  previous theory, and \<open>sha\<close> stands for SHA-256, which the store applies to the request body printed
  with sorted keys. \<open>now\<close> is a clock reading.
\<close>

section \<open>Agents, versions, runs and tasks\<close>

record NativeAgent =
  na_id :: int
  na_tenant_id :: int
  na_project_id :: int
  na_name :: string
  na_description :: "string option"
  na_status :: string
  na_created_at :: datetime

record NativeAgentVersion =
  nv_id :: int
  nv_agent_id :: int
  nv_version :: string
  nv_package_uri :: string
  nv_framework :: string
  nv_adapter :: string
  nv_entrypoint :: string
  nv_capabilities :: pydict
  nv_manifest :: pydict
  nv_status :: string
  nv_created_at :: datetime

record NativeRun =
  nr_id :: int
  nr_tenant_id :: int
  nr_project_id :: int
  nr_agent_id :: int
  nr_agent_version_id :: int
  nr_deployment_id :: "int option"
  nr_status :: RunStatus
  nr_input :: pydict
  nr_output :: "pydict option"
  nr_error :: "pydict option"
  nr_thread_id :: "string option"
  nr_idempotency_key :: "string option"
  nr_created_at :: datetime
  nr_updated_at :: datetime
  nr_started_at :: "datetime option"
  nr_finished_at :: "datetime option"

record NativeTask =
  nt_id :: int
  nt_run_id :: int
  nt_tenant_id :: int
  nt_project_id :: int
  nt_status :: TaskStatus
  nt_worker_id :: "string option"
  nt_queue :: string
  nt_priority :: int
  nt_attempt :: int
  nt_max_attempts :: int
  nt_idempotency_key :: "string option"
  nt_error :: "pydict option"
  nt_dead_letter_reason :: "string option"
  nt_partition_key :: "string option"
  nt_resource_class :: "string option"
  nt_quota_blocking_reason :: "pydict option"
  nt_created_at :: datetime
  nt_updated_at :: datetime

record 'i native_store =
  ns_agents :: "(int \<times> NativeAgent) list"
  ns_versions :: "(int \<times> NativeAgentVersion) list"
  ns_runs :: "(int \<times> NativeRun) list"
  ns_tasks :: "(int \<times> NativeTask) list"
  ns_next_agent_id :: int
  ns_next_version_id :: int
  ns_next_run_id :: int
  ns_next_task_id :: int
  ns_idempotency :: 'i
  ns_replay_buffer :: ReplayBuffer

definition init_native :: "'i \<Rightarrow> ReplayBuffer \<Rightarrow> 'i native_store" where
  "init_native i b = \<lparr>ns_agents = [], ns_versions = [], ns_runs = [], ns_tasks = [], ns_next_agent_id = 1,
     ns_next_version_id = 1, ns_next_run_id = 1, ns_next_task_id = 1, ns_idempotency = i, ns_replay_buffer = b\<rparr>"

section \<open>Agents and versions\<close>

definition create_agent ::
  "datetime \<Rightarrow> int \<Rightarrow> int \<Rightarrow> string \<Rightarrow> string option \<Rightarrow> 'i native_store \<Rightarrow> NativeAgent \<times> 'i native_store" where
  "create_agent now tenant project name description s =
     (let a = \<lparr>na_id = ns_next_agent_id s, na_tenant_id = tenant, na_project_id = project, na_name = name,
               na_description = description, na_status = ''active'', na_created_at = now\<rparr>
      in (a, s\<lparr>ns_next_agent_id := ns_next_agent_id s + 1, ns_agents := dset (ns_agents s) (na_id a) a\<rparr>))"

definition list_agents :: "int \<Rightarrow> int \<Rightarrow> 'i native_store \<Rightarrow> NativeAgent list" where
  "list_agents tenant project s = filter (\<lambda>a. na_tenant_id a = tenant \<and> na_project_id a = project \<and>
     na_status a \<noteq> ''archived'') (dvals (ns_agents s))"

definition get_agent :: "int \<Rightarrow> int \<Rightarrow> int \<Rightarrow> 'i native_store \<Rightarrow> NativeAgent option" where
  "get_agent agent_id tenant project s = (case dget (ns_agents s) agent_id of
       None \<Rightarrow> None
     | Some a \<Rightarrow> if na_tenant_id a \<noteq> tenant \<or> na_project_id a \<noteq> project \<or> na_status a = ''archived''
         then None else Some a)"

text \<open>The agents and versions handed to these operations are objects of the store.\<close>

definition update_agent ::
  "NativeAgent \<Rightarrow> string option \<Rightarrow> string option \<Rightarrow> string option \<Rightarrow> 'i native_store \<Rightarrow> NativeAgent \<times> 'i native_store" where
  "update_agent a name description status s =
     (let a' = a\<lparr>na_name := or_else name (na_name a), na_description := description,
                  na_status := or_else status (na_status a)\<rparr>
      in (a', s\<lparr>ns_agents := dset (ns_agents s) (na_id a) a'\<rparr>))"

definition archive_agent :: "NativeAgent \<Rightarrow> 'i native_store \<Rightarrow> NativeAgent \<times> 'i native_store" where
  "archive_agent a s =
     (let a' = a\<lparr>na_status := ''archived''\<rparr> in (a', s\<lparr>ns_agents := dset (ns_agents s) (na_id a) a'\<rparr>))"

record version_fields =
  vf_version :: string
  vf_package_uri :: string
  vf_framework :: string
  vf_adapter :: string
  vf_entrypoint :: string
  vf_capabilities :: pydict
  vf_manifest :: pydict

definition create_version ::
  "datetime \<Rightarrow> NativeAgent \<Rightarrow> version_fields \<Rightarrow> 'i native_store \<Rightarrow> NativeAgentVersion \<times> 'i native_store" where
  "create_version now a f s =
     (let v = \<lparr>nv_id = ns_next_version_id s, nv_agent_id = na_id a, nv_version = vf_version f,
               nv_package_uri = vf_package_uri f, nv_framework = vf_framework f, nv_adapter = vf_adapter f,
               nv_entrypoint = vf_entrypoint f, nv_capabilities = vf_capabilities f, nv_manifest = vf_manifest f,
               nv_status = ''ready'', nv_created_at = now\<rparr>
      in (v, s\<lparr>ns_next_version_id := ns_next_version_id s + 1, ns_versions := dset (ns_versions s) (nv_id v) v\<rparr>))"

definition list_versions :: "int \<Rightarrow> 'i native_store \<Rightarrow> NativeAgentVersion list" where
  "list_versions agent_id s =
     filter (\<lambda>v. nv_agent_id v = agent_id \<and> nv_status v \<noteq> ''archived'') (dvals (ns_versions s))"

definition get_version :: "int \<Rightarrow> string \<Rightarrow> 'i native_store \<Rightarrow> NativeAgentVersion option" where
  "get_version agent_id version s =
     find (\<lambda>v. nv_agent_id v = agent_id \<and> nv_version v = version \<and> nv_status v \<noteq> ''archived'') (dvals (ns_versions s))"

definition update_version ::
  "NativeAgentVersion \<Rightarrow> version_fields \<Rightarrow> string \<Rightarrow> 'i native_store \<Rightarrow> NativeAgentVersion \<times> 'i native_store" where
  "update_version v f status s =
     (let v' = v\<lparr>nv_version := vf_version f, nv_package_uri := vf_package_uri f, nv_framework := vf_framework f,
                  nv_adapter := vf_adapter f, nv_entrypoint := vf_entrypoint f, nv_capabilities := vf_capabilities f,
                  nv_manifest := vf_manifest f, nv_status := status\<rparr>
      in (v', s\<lparr>ns_versions := dset (ns_versions s) (nv_id v) v'\<rparr>))"

definition archive_version :: "NativeAgentVersion \<Rightarrow> 'i native_store \<Rightarrow> NativeAgentVersion \<times> 'i native_store" where
  "archive_version v s =
     (let v' = v\<lparr>nv_status := ''archived''\<rparr> in (v', s\<lparr>ns_versions := dset (ns_versions s) (nv_id v) v'\<rparr>))"

definition get_version_by_id :: "int \<Rightarrow> int \<Rightarrow> 'i native_store \<Rightarrow> NativeAgentVersion option" where
  "get_version_by_id agent_id version_id s = (case dget (ns_versions s) version_id of
       None \<Rightarrow> None
     | Some v \<Rightarrow> if nv_agent_id v \<noteq> agent_id \<or> nv_status v = ''archived'' then None else Some v)"

definition latest_version :: "int \<Rightarrow> 'i native_store \<Rightarrow> NativeAgentVersion option" where
  "latest_version agent_id s = (case sort_key nv_created_at (list_versions agent_id s) of
     [] \<Rightarrow> None | vs \<Rightarrow> Some (last vs))"

section \<open>Runs and tasks\<close>

record task_run_request =
  tr_tenant_id :: int
  tr_project_id :: int
  tr_agent :: NativeAgent
  tr_agent_version :: NativeAgentVersion
  tr_input_data :: pydict
  tr_thread_id :: "string option"
  tr_idempotency_key :: "string option"
  tr_endpoint :: string
  tr_request_body :: pydict
  tr_deployment_id :: "int option"

definition stable_hash :: "(string \<Rightarrow> string) \<Rightarrow> pydict \<Rightarrow> string" where
  "stable_hash sha payload = sha (dumps_sorted (VDict payload))"

definition request_scope :: "task_run_request \<Rightarrow> string \<Rightarrow> idempotency_scope" where
  "request_scope q key = (tr_tenant_id q, Some (tr_project_id q), tr_endpoint q, key)"

definition buffer_event :: "datetime \<Rightarrow> int \<Rightarrow> string \<Rightarrow> pydict \<Rightarrow> 'i native_store \<Rightarrow> 'i native_store" where
  "buffer_event now run_id ty payload s =
     s\<lparr>ns_replay_buffer := snd (append_event run_id None (new_event now ty payload) (ns_replay_buffer s))\<rparr>"

definition new_run :: "datetime \<Rightarrow> int \<Rightarrow> task_run_request \<Rightarrow> NativeRun" where
  "new_run now rid q =
     \<lparr>nr_id = rid, nr_tenant_id = tr_tenant_id q, nr_project_id = tr_project_id q,
      nr_agent_id = na_id (tr_agent q), nr_agent_version_id = nv_id (tr_agent_version q),
      nr_deployment_id = tr_deployment_id q, nr_status = Run_pending, nr_input = tr_input_data q,
      nr_output = None, nr_error = None, nr_thread_id = tr_thread_id q,
      nr_idempotency_key = tr_idempotency_key q, nr_created_at = now, nr_updated_at = now,
      nr_started_at = None, nr_finished_at = None\<rparr>"

definition new_task :: "datetime \<Rightarrow> int \<Rightarrow> int \<Rightarrow> task_run_request \<Rightarrow> NativeTask" where
  "new_task now tid rid q =
     \<lparr>nt_id = tid, nt_run_id = rid, nt_tenant_id = tr_tenant_id q, nt_project_id = tr_project_id q,
      nt_status = Task_queued, nt_worker_id = None, nt_queue = ''default'', nt_priority = 0, nt_attempt = 0,
      nt_max_attempts = 3, nt_idempotency_key = tr_idempotency_key q, nt_error = None,
      nt_dead_letter_reason = None, nt_partition_key = None, nt_resource_class = None,
      nt_quota_blocking_reason = None, nt_created_at = now, nt_updated_at = now\<rparr>"

text \<open>The part of \<open>create_task_run\<close> between the reservation and its completion.\<close>

definition insert_task_run ::
  "datetime \<Rightarrow> task_run_request \<Rightarrow> 'i native_store \<Rightarrow> (NativeRun \<times> NativeTask) \<times> 'i native_store" where
  "insert_task_run now q s =
     (let run = new_run now (ns_next_run_id s) q;
          task = new_task now (ns_next_task_id s) (nr_id run) q;
          s1 = s\<lparr>ns_next_run_id := ns_next_run_id s + 1, ns_next_task_id := ns_next_task_id s + 1,
                  ns_runs := dset (ns_runs s) (nr_id run) run, ns_tasks := dset (ns_tasks s) (nt_id task) task\<rparr>;
          payload = [(''task_id'', VInt (nt_id task))]
      in ((run, task),
          buffer_event now (nr_id run) ''task.queued'' payload (buffer_event now (nr_id run) ''run.created'' payload s1)))"

definition stored_ref :: "string \<Rightarrow> (int \<times> 'a) list \<Rightarrow> pydict \<Rightarrow> exn + 'a" where
  "stored_ref key d response = (case dget response key of
       Some (VInt i) \<Rightarrow> (case dget d i of None \<Rightarrow> Inl KeyError | Some x \<Rightarrow> Inr x)
     | Some (VBool b) \<Rightarrow> (case dget d (if b then 1 else 0) of None \<Rightarrow> Inl KeyError | Some x \<Rightarrow> Inr x)
     | Some (VList _) \<Rightarrow> Inl TypeError
     | Some (VDict _) \<Rightarrow> Inl TypeError
     | _ \<Rightarrow> Inl KeyError)"

definition idempotency_do :: "('i, 'x) eff \<Rightarrow> ('i native_store, 'x) eff" where
  "idempotency_do m s = (case m (ns_idempotency s) of (r, i) \<Rightarrow> (r, s\<lparr>ns_idempotency := i\<rparr>))"

definition has_key :: "task_run_request \<Rightarrow> bool" where
  "has_key q \<longleftrightarrow> tr_idempotency_key q \<noteq> None \<and> tr_idempotency_key q \<noteq> Some []"

definition create_task_run ::
  "'i idempotency_ops \<Rightarrow> (string \<Rightarrow> string) \<Rightarrow> datetime \<Rightarrow> task_run_request \<Rightarrow>
     ('i native_store, NativeRun \<times> NativeTask \<times> bool) eff" where
  "create_task_run iops sha now q =
     (if has_key q then
        bnd (idempotency_do (io_reserve iops (request_scope q (or_str (tr_idempotency_key q) []))
               (stable_hash sha (tr_request_body q)))) (\<lambda>reservation.
          if rv_is_replay reservation \<and> or_else (rv_response reservation) [] \<noteq> [] then
            (\<lambda>s. (case stored_ref ''run_id'' (ns_runs s) (or_else (rv_response reservation) []) of
                    Inl e \<Rightarrow> Inl e
                  | Inr run \<Rightarrow> (case stored_ref ''task_id'' (ns_tasks s) (or_else (rv_response reservation) []) of
                      Inl e \<Rightarrow> Inl e | Inr task \<Rightarrow> Inr (run, task, True)), s))
          else
            (\<lambda>s. case insert_task_run now q s of ((run, task), s1) \<Rightarrow>
               seq (idempotency_do (io_complete iops (rv_record_id reservation)
                      [(''run_id'', VInt (nr_id run)), (''task_id'', VInt (nt_id task))]))
                   (ret (run, task, rv_is_replay reservation)) s1))
      else (\<lambda>s. case insert_task_run now q s of ((run, task), s1) \<Rightarrow> (Inr (run, task, False), s1)))"

definition get_native_run :: "int \<Rightarrow> int \<Rightarrow> int \<Rightarrow> 'i native_store \<Rightarrow> NativeRun option" where
  "get_native_run run_id tenant project s = (case dget (ns_runs s) run_id of
     None \<Rightarrow> None
   | Some r \<Rightarrow> if nr_tenant_id r \<noteq> tenant \<or> nr_project_id r \<noteq> project then None else Some r)"

definition replay_request :: "NativeRun \<Rightarrow> NativeAgent \<Rightarrow> NativeAgentVersion \<Rightarrow> task_run_request" where
  "replay_request source a v =
     \<lparr>tr_tenant_id = nr_tenant_id source, tr_project_id = nr_project_id source, tr_agent = a,
      tr_agent_version = v, tr_input_data = nr_input source, tr_thread_id = nr_thread_id source,
      tr_idempotency_key = None, tr_endpoint = ''/v1/runs/'' @ dec_int (nr_id source) @ ''/replay'',
      tr_request_body = [(''source_run_id'', VInt (nr_id source)), (''agent_version_id'', VInt (nv_id v))],
      tr_deployment_id = None\<rparr>"

definition replay_run ::
  "'i idempotency_ops \<Rightarrow> (string \<Rightarrow> string) \<Rightarrow> datetime \<Rightarrow> NativeRun \<Rightarrow> int option \<Rightarrow> ('i native_store, NativeRun) eff" where
  "replay_run iops sha now source version_id s =
     (case (get_agent (nr_agent_id source) (nr_tenant_id source) (nr_project_id source) s,
            get_version_by_id (nr_agent_id source) (or_id version_id (nr_agent_version_id source)) s) of
        (Some a, Some v) \<Rightarrow>
          bnd (create_task_run iops sha now (replay_request source a v))
            (\<lambda>(replay, task, _). seq (upd (buffer_event now (nr_id replay) ''run.replayed''
                 [(''source_run_id'', VInt (nr_id source)), (''task_id'', VInt (nt_id task)),
                  (''agent_version_id'', VInt (nv_id v))])) (ret replay)) s
      | _ \<Rightarrow> (Inl KeyError, s))"

definition list_runs :: "int \<Rightarrow> int \<Rightarrow> 'i native_store \<Rightarrow> NativeRun list" where
  "list_runs tenant project s = filter (\<lambda>r. nr_tenant_id r = tenant \<and> nr_project_id r = project) (dvals (ns_runs s))"

definition get_native_task :: "int \<Rightarrow> int \<Rightarrow> int \<Rightarrow> 'i native_store \<Rightarrow> NativeTask option" where
  "get_native_task task_id tenant project s = (case dget (ns_tasks s) task_id of
     None \<Rightarrow> None
   | Some t \<Rightarrow> if nt_tenant_id t \<noteq> tenant \<or> nt_project_id t \<noteq> project then None else Some t)"

definition list_tasks :: "int \<Rightarrow> int \<Rightarrow> 'i native_store \<Rightarrow> NativeTask list" where
  "list_tasks tenant project s = filter (\<lambda>t. nt_tenant_id t = tenant \<and> nt_project_id t = project) (dvals (ns_tasks s))"

definition list_run_events :: "datetime \<Rightarrow> int \<Rightarrow> 'i native_store \<Rightarrow> AgentEvent list" where
  "list_run_events now run_id s = (case replay now run_id None (ns_replay_buffer s) of Inl _ \<Rightarrow> [] | Inr es \<Rightarrow> es)"

definition list_events :: "datetime \<Rightarrow> int \<Rightarrow> int \<Rightarrow> 'i native_store \<Rightarrow> AgentEvent list" where
  "list_events now tenant project s =
     sort_key (\<lambda>e. (or_id (ev_run_id e) 0, or_id (ev_sequence e) 0))
       (concat (map (\<lambda>r. list_run_events now (nr_id r) s) (list_runs tenant project s)))"

section \<open>Cancellation\<close>

definition cancel_one :: "datetime \<Rightarrow> int \<Rightarrow> (NativeTask, unit) eff" where
  "cancel_one now run_id t =
     (if nt_run_id t = run_id \<and> nt_status t \<in> {Task_queued, Task_leased, Task_running} then
        (case assert_task_transition (nt_status t) Task_cancelled of
           Inl e \<Rightarrow> (Inl e, t)
         | Inr _ \<Rightarrow> (Inr (), t\<lparr>nt_status := Task_cancelled, nt_updated_at := now\<rparr>))
      else (Inr (), t))"

definition cancel_native_run :: "datetime \<Rightarrow> int \<Rightarrow> ('i native_store, NativeRun) eff" where
  "cancel_native_run now run_id s = (case dget (ns_runs s) run_id of
       None \<Rightarrow> (Inl KeyError, s)
     | Some run \<Rightarrow>
         if nr_status run = Run_cancelled then (Inr run, s)
         else (case assert_run_transition (nr_status run) Run_cancelled of
            Inl e \<Rightarrow> (Inl e, s)
          | Inr _ \<Rightarrow>
              let run' = run\<lparr>nr_status := Run_cancelled, nr_updated_at := now\<rparr>;
                  (r, tasks) = for_entries (cancel_one now run_id) (ns_tasks s);
                  s1 = s\<lparr>ns_runs := dset (ns_runs s) run_id run', ns_tasks := tasks\<rparr>
              in case r of
                   Inl e \<Rightarrow> (Inl e, s1)
                 | Inr _ \<Rightarrow> (Inr run', buffer_event now run_id ''run.cancelled'' [] s1)))"

definition cancel_native_task :: "datetime \<Rightarrow> int \<Rightarrow> ('i native_store, NativeTask) eff" where
  "cancel_native_task now task_id s = (case dget (ns_tasks s) task_id of
       None \<Rightarrow> (Inl KeyError, s)
     | Some task \<Rightarrow>
         if nt_status task = Task_cancelled then (Inr task, s)
         else (case assert_task_transition (nt_status task) Task_cancelled of
            Inl e \<Rightarrow> (Inl e, s)
          | Inr _ \<Rightarrow>
              let task' = task\<lparr>nt_status := Task_cancelled, nt_updated_at := now\<rparr>;
                  s1 = s\<lparr>ns_tasks := dset (ns_tasks s) task_id task'\<rparr>
              in case dget (ns_runs s) (nt_run_id task) of
                   None \<Rightarrow> (Inl KeyError, s1)
                 | Some run \<Rightarrow> (case assert_run_transition (nr_status run) Run_cancelled of
                      Inl e \<Rightarrow> (Inl e, s1)
                    | Inr _ \<Rightarrow> (Inr task',
                        buffer_event now (nr_id run) ''task.cancelled'' [(''task_id'', VInt (nt_id task))]
                          (s1\<lparr>ns_runs := dset (ns_runs s) (nt_run_id task)
                               (run\<lparr>nr_status := Run_cancelled, nr_updated_at := now\<rparr>)\<rparr>)))))"

section \<open>What stays of a run and a task\<close>

definition same_run :: "NativeRun \<Rightarrow> NativeRun \<Rightarrow> bool" where
  "same_run r r' \<longleftrightarrow> r' = r\<lparr>nr_status := nr_status r', nr_updated_at := nr_updated_at r'\<rparr>"

definition same_task :: "NativeTask \<Rightarrow> NativeTask \<Rightarrow> bool" where
  "same_task t t' \<longleftrightarrow> t' = t\<lparr>nt_status := nt_status t', nt_updated_at := nt_updated_at t'\<rparr>"

lemma same_run_simps [simp]:
  "same_run r r" "same_run r r' \<Longrightarrow> same_run r (r'\<lparr>nr_status := st, nr_updated_at := now\<rparr>)"
  by (cases r; cases r'; simp add: same_run_def)+

lemma same_task_simps [simp]:
  "same_task t t" "same_task t t' \<Longrightarrow> same_task t (t'\<lparr>nt_status := st, nt_updated_at := now\<rparr>)"
  by (cases t; cases t'; simp add: same_task_def)+

definition wf_native :: "'i native_store \<Rightarrow> bool" where
  "wf_native s \<longleftrightarrow> all_entries (\<lambda>k r. nr_id r = k \<and> k < ns_next_run_id s) (ns_runs s) \<and>
     all_entries (\<lambda>k t. nt_id t = k \<and> k < ns_next_task_id s) (ns_tasks s)"

lemma wf_init_native: "wf_native (init_native i b)"
  by (simp add: wf_native_def init_native_def)

text \<open>The runs and tasks of a store: nothing is removed, and only status and update time change.\<close>

definition extends :: "'i native_store \<Rightarrow> 'i native_store \<Rightarrow> bool" where
  "extends s s' \<longleftrightarrow> wf_native s' \<and>
     (\<forall>k r. dget (ns_runs s) k = Some r \<longrightarrow> (\<exists>r'. dget (ns_runs s') k = Some r' \<and> same_run r r')) \<and>
     (\<forall>k t. dget (ns_tasks s) k = Some t \<longrightarrow> (\<exists>t'. dget (ns_tasks s') k = Some t' \<and> same_task t t'))"

lemma same_ids: "same_run r r' \<Longrightarrow> nr_id r' = nr_id r" "same_task t t' \<Longrightarrow> nt_id t' = nt_id t"
  by (cases r; cases r'; simp add: same_run_def) (cases t; cases t'; simp add: same_task_def)

lemma new_ids [simp]: "nr_id (new_run now i q) = i" "nt_id (new_task now i j q) = i"
  by (simp_all add: new_run_def new_task_def)

lemma same_run_trans: "same_run a b \<Longrightarrow> same_run b c \<Longrightarrow> same_run a c"
  by (cases a; cases b; cases c; simp add: same_run_def)

lemma same_task_trans: "same_task a b \<Longrightarrow> same_task b c \<Longrightarrow> same_task a c"
  by (cases a; cases b; cases c; simp add: same_task_def)

lemma extends_refl: "wf_native s \<Longrightarrow> extends s s"
  by (auto simp: extends_def)

lemma extends_trans: "extends a b \<Longrightarrow> extends b c \<Longrightarrow> extends a c"
  unfolding extends_def by (meson same_run_trans same_task_trans)

lemma extends_frame:
  "ns_runs s' = ns_runs s \<Longrightarrow> ns_tasks s' = ns_tasks s \<Longrightarrow> ns_next_run_id s' = ns_next_run_id s \<Longrightarrow>
     ns_next_task_id s' = ns_next_task_id s \<Longrightarrow> wf_native s \<Longrightarrow> extends s s'"
  by (auto simp: extends_def wf_native_def)

lemma buffer_event_frame [simp]:
  "ns_runs (buffer_event now r ty p s) = ns_runs s" "ns_tasks (buffer_event now r ty p s) = ns_tasks s"
  "ns_next_run_id (buffer_event now r ty p s) = ns_next_run_id s"
  "ns_next_task_id (buffer_event now r ty p s) = ns_next_task_id s"
  "ns_idempotency (buffer_event now r ty p s) = ns_idempotency s"
  by (simp_all add: buffer_event_def)

lemma insert_task_run_effect:
  assumes "wf_native s" "insert_task_run now q s = ((run, task), s1)"
  shows "extends s s1" "dget (ns_runs s1) (nr_id run) = Some run" "dget (ns_tasks s1) (nt_id task) = Some task"
    "ns_idempotency s1 = ns_idempotency s"
proof -
  have s1: "run = new_run now (ns_next_run_id s) q" "task = new_task now (ns_next_task_id s) (ns_next_run_id s) q"
    "ns_runs s1 = dset (ns_runs s) (ns_next_run_id s) run" "ns_tasks s1 = dset (ns_tasks s) (ns_next_task_id s) task"
    "ns_next_run_id s1 = ns_next_run_id s + 1" "ns_next_task_id s1 = ns_next_task_id s + 1"
    "ns_idempotency s1 = ns_idempotency s"
    using assms(2) by (auto simp: insert_task_run_def Let_def)
  have ids: "nr_id run = ns_next_run_id s" "nt_id task = ns_next_task_id s"
    by (simp_all add: s1(1,2))
  have runs: "k < ns_next_run_id s \<and> nr_id r = k" if "dget (ns_runs s) k = Some r" for k r
    using assms(1) that by (auto simp: wf_native_def dest: all_entriesD)
  have tasks: "k < ns_next_task_id s \<and> nt_id t = k" if "dget (ns_tasks s) k = Some t" for k t
    using assms(1) that by (auto simp: wf_native_def dest: all_entriesD)
  have "wf_native s1"
    using runs tasks ids by (fastforce simp: wf_native_def s1(3-6) all_entries_def)
  moreover have "\<exists>r'. dget (ns_runs s1) k = Some r' \<and> same_run r r'" if "dget (ns_runs s) k = Some r" for k r
    using runs [OF that] that by (simp add: s1(3))
  moreover have "\<exists>t'. dget (ns_tasks s1) k = Some t' \<and> same_task t t'" if "dget (ns_tasks s) k = Some t" for k t
    using tasks [OF that] that by (simp add: s1(4))
  ultimately show "extends s s1" by (simp add: extends_def)
  show "dget (ns_runs s1) (nr_id run) = Some run" "dget (ns_tasks s1) (nt_id task) = Some task"
    "ns_idempotency s1 = ns_idempotency s" by (simp_all add: s1(3,4,7) ids)
qed

lemma extends_update_run:
  "wf_native s \<Longrightarrow> dget (ns_runs s) k = Some r \<Longrightarrow> same_run r r' \<Longrightarrow> extends s (s\<lparr>ns_runs := dset (ns_runs s) k r'\<rparr>)"
  by (auto simp: extends_def wf_native_def all_entries_def same_ids)

lemma extends_update_task:
  "wf_native s \<Longrightarrow> dget (ns_tasks s) k = Some t \<Longrightarrow> same_task t t' \<Longrightarrow> extends s (s\<lparr>ns_tasks := dset (ns_tasks s) k t'\<rparr>)"
  by (auto simp: extends_def wf_native_def all_entries_def same_ids)

lemma for_cancel_same:
  assumes "for_entries (cancel_one now rid) d = (r, d')" "dget d k = Some t"
  shows "\<exists>t'. dget d' k = Some t' \<and> same_task t t'"
  using assms
proof (induction d arbitrary: r d')
  case (Cons jt d)
  obtain j u where jt: "jt = (j, u)" by (cases jt)
  obtain ru u' where u: "cancel_one now rid u = (ru, u')" by (cases "cancel_one now rid u")
  have same: "same_task u u'"
    using u by (auto simp: cancel_one_def split: if_splits sum.splits)
  show ?case
    using Cons u same by (cases ru) (auto simp: jt split: prod.splits if_splits)
qed simp

lemma for_cancel_keys: "for_entries m d = (r, d') \<Longrightarrow> dkeys d' = dkeys d"
  by (induction d arbitrary: r d') (auto split: prod.splits sum.splits)

lemma extends_tasks:
  assumes "wf_native s" "for_entries (cancel_one now rid) (ns_tasks s) = (r, tasks)"
  shows "extends s (s\<lparr>ns_tasks := tasks\<rparr>)"
proof -
  have orig: "\<exists>t0. dget (ns_tasks s) k = Some t0 \<and> same_task t0 t" if "dget tasks k = Some t" for k t
  proof -
    have "k \<in> set (dkeys (ns_tasks s))"
      using that for_cancel_keys [OF assms(2)] by (metis domI dom_map_of_conv_image_fst set_map)
    then obtain t0 where t0: "dget (ns_tasks s) k = Some t0" by (metis domIff dom_map_of_conv_image_fst not_Some_eq set_map)
    then show ?thesis using for_cancel_same [OF assms(2) t0] that by auto
  qed
  have "nt_id t = k \<and> k < ns_next_task_id s" if "dget tasks k = Some t" for k t
    using orig [OF that] assms(1) by (auto simp: wf_native_def same_ids all_entries_def)
  then show ?thesis
    using assms(1) for_cancel_same [OF assms(2)] by (auto simp: extends_def wf_native_def all_entries_def)
qed

section \<open>Repeated submissions\<close>

inductive native_step ::
  "'i idempotency_ops \<Rightarrow> (string \<Rightarrow> string) \<Rightarrow> 'i native_store \<Rightarrow> 'i native_store \<Rightarrow> bool" for iops sha where
  step_create: "native_step iops sha s (snd (create_task_run iops sha now q s))"
| step_replay: "native_step iops sha s (snd (replay_run iops sha now source v s))"
| step_cancel_run: "native_step iops sha s (snd (cancel_native_run now run_id s))"
| step_cancel_task: "native_step iops sha s (snd (cancel_native_task now task_id s))"
| step_create_agent: "native_step iops sha s (snd (create_agent now tenant project name description s))"
| step_update_agent: "native_step iops sha s (snd (update_agent a name' description status s))"
| step_archive_agent: "native_step iops sha s (snd (archive_agent a s))"
| step_create_version: "native_step iops sha s (snd (create_version now a f s))"
| step_update_version: "native_step iops sha s (snd (update_version ver f st s))"
| step_archive_version: "native_step iops sha s (snd (archive_version ver s))"

definition answered ::
  "('i \<Rightarrow> idempotency_scope \<Rightarrow> (int \<times> string \<times> pydict option) option) \<Rightarrow> idempotency_scope \<Rightarrow> string \<Rightarrow>
     int \<Rightarrow> int \<Rightarrow> 'i \<Rightarrow> bool" where
  "answered sl sc h rid tid i \<longleftrightarrow> (\<exists>n resp. sl i sc = Some (n, h, Some resp) \<and>
     dget resp ''run_id'' = Some (VInt rid) \<and> dget resp ''task_id'' = Some (VInt tid))"

lemma cancel_run_extends:
  assumes "wf_native s"
  shows "extends s (snd (cancel_native_run now rid s)) \<and>
    ns_idempotency (snd (cancel_native_run now rid s)) = ns_idempotency s"
proof (cases "dget (ns_runs s) rid")
  case None
  then show ?thesis using assms by (simp add: cancel_native_run_def extends_refl)
next
  case (Some run)
  let ?run = "run\<lparr>nr_status := Run_cancelled, nr_updated_at := now\<rparr>"
  obtain r tasks where t: "for_entries (cancel_one now rid) (ns_tasks s) = (r, tasks)" by fastforce
  let ?s0 = "s\<lparr>ns_runs := dset (ns_runs s) rid ?run\<rparr>"
  let ?s1 = "s\<lparr>ns_runs := dset (ns_runs s) rid ?run, ns_tasks := tasks\<rparr>"
  have e0: "extends s ?s0" using assms Some by (intro extends_update_run) (auto intro: same_run_simps)
  then have "extends ?s0 (?s0\<lparr>ns_tasks := tasks\<rparr>)" using t by (intro extends_tasks) (auto simp: extends_def)
  then have e1: "extends s ?s1" using extends_trans [OF e0] by simp
  then have w1: "wf_native ?s1" by (simp add: extends_def)
  have "extends ?s1 (buffer_event now rid ''run.cancelled'' [] ?s1)"
    by (rule extends_frame) (simp_all add: w1)
  then have e2: "extends s (buffer_event now rid ''run.cancelled'' [] ?s1)" by (rule extends_trans [OF e1])
  show ?thesis
    using Some t e1 e2 extends_refl [OF assms]
    by (simp add: cancel_native_run_def Let_def split: sum.split)
qed

lemma cancel_task_extends:
  assumes "wf_native s"
  shows "extends s (snd (cancel_native_task now tid s)) \<and>
    ns_idempotency (snd (cancel_native_task now tid s)) = ns_idempotency s"
proof (cases "dget (ns_tasks s) tid")
  case None
  then show ?thesis using assms by (simp add: cancel_native_task_def extends_refl)
next
  case (Some task)
  let ?s1 = "s\<lparr>ns_tasks := dset (ns_tasks s) tid (task\<lparr>nt_status := Task_cancelled, nt_updated_at := now\<rparr>)\<rparr>"
  have e1: "extends s ?s1" using assms Some by (intro extends_update_task) (auto intro: same_task_simps)
  have e2: "extends s (buffer_event now rid ty p
      (?s1\<lparr>ns_runs := dset (ns_runs s) k (run\<lparr>nr_status := Run_cancelled, nr_updated_at := now\<rparr>)\<rparr>))"
    if "dget (ns_runs s) k = Some run" for k run rid ty p
  proof -
    let ?s2 = "?s1\<lparr>ns_runs := dset (ns_runs ?s1) k (run\<lparr>nr_status := Run_cancelled, nr_updated_at := now\<rparr>)\<rparr>"
    have "extends ?s1 ?s2" using e1 that by (intro extends_update_run) (auto simp: extends_def intro: same_run_simps)
    moreover from this have "extends ?s2 (buffer_event now rid ty p ?s2)"
      by (intro extends_frame) (auto simp: extends_def)
    ultimately have "extends s (buffer_event now rid ty p ?s2)" using extends_trans e1 by blast
    then show ?thesis by simp
  qed
  show ?thesis
    using Some e1 e2 extends_refl [OF assms]
    by (simp add: cancel_native_task_def Let_def split: sum.split option.split)
qed

context idempotency_backend
begin

lemma create_answered:
  assumes "iinv (ns_idempotency s)" "has_key q"
    and "answered slot (request_scope q (or_str (tr_idempotency_key q) [])) (stable_hash sha (tr_request_body q)) rid tid (ns_idempotency s)"
    and "dget (ns_runs s) rid = Some run" "dget (ns_tasks s) tid = Some task"
  shows "create_task_run iops sha now q s = (Inr (run, task, True), s)"
proof -
  obtain n resp where sl: "slot (ns_idempotency s) (request_scope q (or_str (tr_idempotency_key q) [])) =
      Some (n, stable_hash sha (tr_request_body q), Some resp)"
    and resp: "dget resp ''run_id'' = Some (VInt rid)" "dget resp ''task_id'' = Some (VInt tid)"
    using assms(3) by (auto simp: answered_def)
  have "resp \<noteq> []" using resp by auto
  then show ?thesis
    using assms(2,4,5) resp reserve_replay [OF assms(1) sl]
    by (simp add: create_task_run_def bnd_def idempotency_do_def stored_ref_def)
qed

lemma create_conflict:
  assumes "iinv (ns_idempotency s)" "has_key q" "h \<noteq> stable_hash sha (tr_request_body q)"
    and "answered slot (request_scope q (or_str (tr_idempotency_key q) [])) h rid tid (ns_idempotency s)"
  shows "create_task_run iops sha now q s =
    (Inl (IdempotencyConflictError (or_str (tr_idempotency_key q) [])), s)"
proof -
  obtain n resp where sl: "slot (ns_idempotency s) (request_scope q (or_str (tr_idempotency_key q) [])) = Some (n, h, Some resp)"
    using assms(4) by (auto simp: answered_def)
  show ?thesis
    using assms(2) reserve_conflict [OF assms(1) sl assms(3)]
    by (simp add: create_task_run_def bnd_def idempotency_do_def request_scope_def)
qed

text \<open>Creating the run and completing the reservation under a scope.\<close>

lemma fill_slot:
  assumes "iinv (ns_idempotency s)" "wf_native s" "slot (ns_idempotency s) sc = Some (i, h, r)"
    and "insert_task_run now q s = ((run, task), s1)"
  obtains s2 where "idempotency_do (io_complete iops i [(''run_id'', VInt (nr_id run)), (''task_id'', VInt (nt_id task))]) s1 = (Inr (), s2)"
    "iinv (ns_idempotency s2)" "extends s s2" "dget (ns_runs s2) (nr_id run) = Some run"
    "dget (ns_tasks s2) (nt_id task) = Some task" "answered slot sc h (nr_id run) (nt_id task) (ns_idempotency s2)"
    "\<And>sc'. sc' \<noteq> sc \<Longrightarrow> slot (ns_idempotency s2) sc' = slot (ns_idempotency s) sc'"
proof -
  let ?resp = "[(''run_id'', VInt (nr_id run)), (''task_id'', VInt (nt_id task))]"
  note ins = insert_task_run_effect [OF assms(2,4)]
  have p: "proper_val (VDict ?resp)" by simp
  obtain i2 where i2: "io_complete iops i ?resp (ns_idempotency s) = (Inr (), i2)" "iinv i2"
    "slot i2 = (slot (ns_idempotency s))(sc \<mapsto> (i, h, Some (canon ?resp)))"
    using complete_known [OF assms(1,3) p] by blast
  have "dget (canon ?resp) ''run_id'' = Some (VInt (nr_id run))" "dget (canon ?resp) ''task_id'' = Some (VInt (nt_id task))"
    using canon_int [OF p] by simp_all
  then have a: "answered slot sc h (nr_id run) (nt_id task) i2" by (auto simp: answered_def i2(3))
  have w: "wf_native s1" using ins(1) by (simp add: extends_def)
  have e: "extends s1 (s1\<lparr>ns_idempotency := i2\<rparr>)" by (rule extends_frame) (simp_all add: w)
  show thesis
  proof (rule that)
    show "idempotency_do (io_complete iops i ?resp) s1 = (Inr (), s1\<lparr>ns_idempotency := i2\<rparr>)"
      using i2(1) ins(4) by (simp add: idempotency_do_def)
    show "extends s (s1\<lparr>ns_idempotency := i2\<rparr>)" by (rule extends_trans [OF ins(1) e])
  qed (use i2 a ins in simp_all)
qed

lemma create_first:
  assumes "iinv (ns_idempotency s)" "wf_native s" "has_key q"
    and "slot (ns_idempotency s) (request_scope q (or_str (tr_idempotency_key q) [])) = None"
  shows "\<exists>run task s2. create_task_run iops sha now q s = (Inr (run, task, False), s2) \<and> iinv (ns_idempotency s2) \<and>
    extends s s2 \<and> dget (ns_runs s2) (nr_id run) = Some run \<and> dget (ns_tasks s2) (nt_id task) = Some task \<and>
    answered slot (request_scope q (or_str (tr_idempotency_key q) [])) (stable_hash sha (tr_request_body q))
      (nr_id run) (nt_id task) (ns_idempotency s2) \<and>
    (\<forall>sc'. sc' \<noteq> request_scope q (or_str (tr_idempotency_key q) []) \<longrightarrow>
       slot (ns_idempotency s2) sc' = slot (ns_idempotency s) sc')"
proof -
  let ?sc = "request_scope q (or_str (tr_idempotency_key q) [])" and ?h = "stable_hash sha (tr_request_body q)"
  obtain i i1 where r: "io_reserve iops ?sc ?h (ns_idempotency s) =
      (Inr \<lparr>rv_record_id = i, rv_is_replay = False, rv_response = None\<rparr>, i1)" "iinv i1"
    "slot i1 = (slot (ns_idempotency s))(?sc \<mapsto> (i, ?h, None))"
    using reserve_new [OF assms(1,4), of ?h] by blast
  let ?s0 = "s\<lparr>ns_idempotency := i1\<rparr>"
  have e0: "extends s ?s0" by (rule extends_frame) (simp_all add: assms(2))
  obtain run task s1 where ins: "insert_task_run now q ?s0 = ((run, task), s1)" by (metis prod.collapse)
  obtain s2 where s2: "idempotency_do (io_complete iops i [(''run_id'', VInt (nr_id run)), (''task_id'', VInt (nt_id task))]) s1 = (Inr (), s2)"
    "iinv (ns_idempotency s2)" "extends ?s0 s2" "dget (ns_runs s2) (nr_id run) = Some run"
    "dget (ns_tasks s2) (nt_id task) = Some task" "answered slot ?sc ?h (nr_id run) (nt_id task) (ns_idempotency s2)"
    "\<And>sc'. sc' \<noteq> ?sc \<Longrightarrow> slot (ns_idempotency s2) sc' = slot (ns_idempotency ?s0) sc'"
    using fill_slot [where s = ?s0 and sc = ?sc and i = i and h = ?h and r = None, OF _ _ _ ins] r e0
    by (auto simp: extends_def)
  have "create_task_run iops sha now q s = (Inr (run, task, False), s2)"
    using assms(3) r(1) ins s2(1) by (simp add: create_task_run_def bnd_def seq_def ret_def idempotency_do_def)
  then show ?thesis using s2 extends_trans [OF e0 s2(3)] r(3) by (auto simp del: fun_upd_apply) (auto)
qed

text \<open>A store in which the request of a scope has been answered, with the run and the task it got.\<close>

lemma create_keeps:
  assumes "iinv (ns_idempotency s)" "wf_native s"
  shows "iinv (ns_idempotency (snd (create_task_run iops sha now q s)))"
    and "extends s (snd (create_task_run iops sha now q s))"
    and "answered slot sc h rid tid (ns_idempotency s) \<Longrightarrow>
      answered slot sc h rid tid (ns_idempotency (snd (create_task_run iops sha now q s)))"
proof -
  let ?sc = "request_scope q (or_str (tr_idempotency_key q) [])" and ?h = "stable_hash sha (tr_request_body q)"
  let ?s' = "snd (create_task_run iops sha now q s)"
  obtain run task s1 where ins: "insert_task_run now q s = ((run, task), s1)" by (metis prod.collapse)
  note in1 = insert_task_run_effect [OF assms(2) ins]
  have same: "answered slot sc h rid tid i' \<longleftrightarrow> answered slot sc h rid tid i" if "slot i' sc = slot i sc" for i i'
    using that by (simp add: answered_def)
  consider (nokey) "\<not> has_key q" | (new) "has_key q" "slot (ns_idempotency s) ?sc = None"
    | (conflict) i h' r where "has_key q" "slot (ns_idempotency s) ?sc = Some (i, h', r)" "h' \<noteq> ?h"
    | (replay) i r where "has_key q" "slot (ns_idempotency s) ?sc = Some (i, ?h, r)"
    by (metis option.exhaust surj_pair)
  then have "iinv (ns_idempotency ?s') \<and> extends s ?s' \<and>
    (answered slot sc h rid tid (ns_idempotency s) \<longrightarrow> answered slot sc h rid tid (ns_idempotency ?s'))"
  proof cases
    case nokey
    then show ?thesis using ins in1 assms(1) by (simp add: create_task_run_def)
  next
    case new
    obtain s2 where s2: "?s' = s2" "iinv (ns_idempotency s2)" "extends s s2"
      "\<forall>sc'. sc' \<noteq> ?sc \<longrightarrow> slot (ns_idempotency s2) sc' = slot (ns_idempotency s) sc'"
      using create_first [OF assms new, of sha now] by auto
    have "answered slot sc h rid tid (ns_idempotency s) \<longrightarrow> answered slot sc h rid tid (ns_idempotency s2)"
    proof (cases "sc = ?sc")
      case True
      then show ?thesis using new(2) by (simp add: answered_def)
    next
      case False
      then show ?thesis using s2(4) same by blast
    qed
    then show ?thesis using s2(1-3) by simp
  next
    case conflict
    have "create_task_run iops sha now q s = (Inl (IdempotencyConflictError (scope_key ?sc)), s)"
      using conflict(1) reserve_conflict [OF assms(1) conflict(2,3)]
      by (simp add: create_task_run_def bnd_def idempotency_do_def)
    then show ?thesis using assms extends_refl by simp
  next
    case replay
    have res: "io_reserve iops ?sc ?h (ns_idempotency s) =
        (Inr \<lparr>rv_record_id = i, rv_is_replay = True, rv_response = r\<rparr>, ns_idempotency s)"
      by (rule reserve_replay [OF assms(1) replay(2)])
    show ?thesis
    proof (cases "or_else r [] = []")
      case False
      then have "?s' = s" using replay(1) res by (simp add: create_task_run_def bnd_def idempotency_do_def)
      then show ?thesis using assms extends_refl by simp
    next
      case True
      obtain s2 where s2: "idempotency_do (io_complete iops i [(''run_id'', VInt (nr_id run)), (''task_id'', VInt (nt_id task))]) s1 = (Inr (), s2)"
        "iinv (ns_idempotency s2)" "extends s s2"
        "\<And>sc'. sc' \<noteq> ?sc \<Longrightarrow> slot (ns_idempotency s2) sc' = slot (ns_idempotency s) sc'"
        by (rule fill_slot [OF assms replay(2) ins]) (rule that; assumption)
      have "?s' = s2"
        using replay(1) res True ins s2(1) by (simp add: create_task_run_def bnd_def seq_def ret_def idempotency_do_def)
      moreover have "\<not> answered slot ?sc h rid tid (ns_idempotency s)"
        using replay(2) True by (auto simp: answered_def)
      ultimately show ?thesis using s2 same [of "ns_idempotency s2" "ns_idempotency s"] by (cases "sc = ?sc") auto
    qed
  qed
  then show "iinv (ns_idempotency ?s')" "extends s ?s'"
    "answered slot sc h rid tid (ns_idempotency s) \<Longrightarrow> answered slot sc h rid tid (ns_idempotency ?s')" by auto
qed

lemma replay_keeps:
  assumes "iinv (ns_idempotency s)" "wf_native s"
  shows "iinv (ns_idempotency (snd (replay_run iops sha now source v s))) \<and>
    extends s (snd (replay_run iops sha now source v s)) \<and>
    (answered slot sc h rid tid (ns_idempotency s) \<longrightarrow>
      answered slot sc h rid tid (ns_idempotency (snd (replay_run iops sha now source v s))))"
proof -
  have buf: "iinv (ns_idempotency (buffer_event now r ty p s')) \<and> extends s (buffer_event now r ty p s') \<and>
      (answered slot sc h rid tid (ns_idempotency s) \<longrightarrow> answered slot sc h rid tid (ns_idempotency (buffer_event now r ty p s')))"
    if "iinv (ns_idempotency s')" "extends s s'"
      "answered slot sc h rid tid (ns_idempotency s) \<longrightarrow> answered slot sc h rid tid (ns_idempotency s')" for s' r ty p
    using that extends_trans [OF that(2) extends_frame [of "buffer_event now r ty p s'" s']]
    by (simp add: extends_def)
  show ?thesis
  proof (cases "(get_agent (nr_agent_id source) (nr_tenant_id source) (nr_project_id source) s,
      get_version_by_id (nr_agent_id source) (or_id v (nr_agent_version_id source)) s)")
    case (Pair x y)
    then show ?thesis
    proof (cases "x = None \<or> y = None")
      case True
      then show ?thesis using Pair assms extends_refl by (auto simp: replay_run_def split: option.splits)
    next
      case False
      then obtain a ver where av: "x = Some a" "y = Some ver" by auto
      let ?q = "replay_request source a ver"
      obtain res s1 where c: "create_task_run iops sha now ?q s = (res, s1)" by (metis surj_pair)
      note k = create_keeps [OF assms, where sha = sha and now = now and q = ?q]
      have k1: "iinv (ns_idempotency s1)" "extends s s1"
        "answered slot sc h rid tid (ns_idempotency s) \<longrightarrow> answered slot sc h rid tid (ns_idempotency s1)"
        using k c by simp_all
      have "snd (replay_run iops sha now source v s) = s1 \<or>
          (\<exists>r ty p. snd (replay_run iops sha now source v s) = buffer_event now r ty p s1)"
        using Pair av c by (cases res) (auto simp: replay_run_def bnd_def seq_def upd_def ret_def, blast)
      then show ?thesis using buf [OF k1] k1 by auto
    qed
  qed
qed

lemma step_keeps:
  assumes "native_step iops sha s s'" "iinv (ns_idempotency s)" "wf_native s"
  shows "iinv (ns_idempotency s') \<and> extends s s' \<and>
    (answered slot sc h rid tid (ns_idempotency s) \<longrightarrow> answered slot sc h rid tid (ns_idempotency s'))"
  using assms
proof (cases rule: native_step.cases)
  case (step_create now q)
  then show ?thesis using create_keeps [OF assms(2,3)] by blast
next
  case (step_replay now source v)
  then show ?thesis using replay_keeps [OF assms(2,3)] by blast
next
  case (step_cancel_run now run_id)
  then show ?thesis using cancel_run_extends [OF assms(3), of now run_id] assms(2) by simp
next
  case (step_cancel_task now task_id)
  then show ?thesis using cancel_task_extends [OF assms(3), of now task_id] assms(2) by simp
qed (use assms(2,3) in \<open>simp_all add: extends_frame create_agent_def update_agent_def archive_agent_def
  create_version_def update_version_def archive_version_def Let_def\<close>)

lemma steps_keep:
  assumes "(native_step iops sha)\<^sup>*\<^sup>* s s'" "iinv (ns_idempotency s)" "wf_native s"
  shows "iinv (ns_idempotency s') \<and> extends s s' \<and>
    (answered slot sc h rid tid (ns_idempotency s) \<longrightarrow> answered slot sc h rid tid (ns_idempotency s'))"
  using assms(1)
proof (induction rule: rtranclp_induct)
  case base
  then show ?case using assms(2,3) extends_refl by simp
next
  case (step s1 s2)
  have w: "wf_native s1" using step.IH by (simp add: extends_def)
  have "iinv (ns_idempotency s2) \<and> extends s1 s2 \<and>
      (answered slot sc h rid tid (ns_idempotency s1) \<longrightarrow> answered slot sc h rid tid (ns_idempotency s2))"
    by (rule step_keeps [OF step(2)]) (use step.IH w in blast)+
  then show ?case using step.IH extends_trans by blast
qed

lemma submission_repeated:
  assumes "iinv (ns_idempotency s)" "wf_native s" "has_key q"
    and "slot (ns_idempotency s) (request_scope q (or_str (tr_idempotency_key q) [])) = None"
    and "create_task_run iops sha now q s = (res, s1)" "(native_step iops sha)\<^sup>*\<^sup>* s1 s2"
    and "has_key q'" "request_scope q' (or_str (tr_idempotency_key q') []) = request_scope q (or_str (tr_idempotency_key q) [])"
  shows "\<exists>run task. res = Inr (run, task, False) \<and>
    (if stable_hash sha (tr_request_body q') = stable_hash sha (tr_request_body q)
     then \<exists>run' task'. create_task_run iops sha now' q' s2 = (Inr (run', task', True), s2) \<and>
       same_run run run' \<and> same_task task task'
     else create_task_run iops sha now' q' s2 =
       (Inl (IdempotencyConflictError (or_str (tr_idempotency_key q') [])), s2))"
proof -
  let ?sc = "request_scope q (or_str (tr_idempotency_key q) [])" and ?h = "stable_hash sha (tr_request_body q)"
  obtain run task where c: "res = Inr (run, task, False)" "iinv (ns_idempotency s1)" "extends s s1"
    "dget (ns_runs s1) (nr_id run) = Some run" "dget (ns_tasks s1) (nt_id task) = Some task"
    "answered slot ?sc ?h (nr_id run) (nt_id task) (ns_idempotency s1)"
    using create_first [OF assms(1-4), of sha now] assms(5) by auto
  have "wf_native s1" using c(3) by (simp add: extends_def)
  then have s2: "iinv (ns_idempotency s2)" "extends s1 s2"
    "answered slot ?sc ?h (nr_id run) (nt_id task) (ns_idempotency s2)"
    using steps_keep [OF assms(6) c(2), of ?sc ?h "nr_id run" "nt_id task"] c(6) by simp_all
  obtain run' task' where r: "dget (ns_runs s2) (nr_id run) = Some run'" "same_run run run'"
    "dget (ns_tasks s2) (nt_id task) = Some task'" "same_task task task'"
    using s2(2) c(4,5) unfolding extends_def by blast
  show ?thesis
  proof (cases "stable_hash sha (tr_request_body q') = ?h")
    case True
    then have "create_task_run iops sha now' q' s2 = (Inr (run', task', True), s2)"
      using create_answered [OF s2(1) assms(7) _ r(1,3)] s2(3) assms(8) by simp
    then show ?thesis using True c(1) r by simp
  next
    case False
    then have "create_task_run iops sha now' q' s2 =
        (Inl (IdempotencyConflictError (or_str (tr_idempotency_key q') [])), s2)"
      using create_conflict [OF s2(1) assms(7), of ?h sha "nr_id run" "nt_id task"] s2(3) assms(8) by metis
    then show ?thesis using False c(1) by simp
  qed
qed

end

section \<open>What the store promises\<close>

text \<open>
  C11: Submitting a run with an idempotency key is idempotent for good. When the key is new, the
  submission creates a run and a task. Whatever is then submitted, replayed, cancelled or edited, a
  further submission with the same key, endpoint, tenant and project and a body with the same hash
  returns that run and that task (only their status and update time may have changed), marked as
  replayed, and changes nothing; a body with another hash is refused as a conflict and changes nothing.
\<close>

theorem repeated_submission:
  assumes "wf_idempotency (ns_idempotency s)" "wf_native s" "has_key q"
    and "memory_slot (ns_idempotency s) (request_scope q (or_str (tr_idempotency_key q) [])) = None"
    and "create_task_run memory_idempotency_ops sha now q s = (res, s1)"
    and "(native_step memory_idempotency_ops sha)\<^sup>*\<^sup>* s1 s2"
    and "has_key q'" "request_scope q' (or_str (tr_idempotency_key q') []) = request_scope q (or_str (tr_idempotency_key q) [])"
  shows "\<exists>run task. res = Inr (run, task, False) \<and>
    (if stable_hash sha (tr_request_body q') = stable_hash sha (tr_request_body q)
     then \<exists>run' task'. create_task_run memory_idempotency_ops sha now' q' s2 = (Inr (run', task', True), s2) \<and>
       same_run run run' \<and> same_task task task'
     else create_task_run memory_idempotency_ops sha now' q' s2 =
       (Inl (IdempotencyConflictError (or_str (tr_idempotency_key q') [])), s2))"
  by (rule memory_idempotency.submission_repeated [OF assms])

text \<open>Cancelling the tasks of a run, one after the other.\<close>

lemma cancel_one_cases:
  "cancel_one now rid t =
     (if nt_run_id t = rid \<and> nt_status t = Task_leased
      then (Inl (InvalidStateTransitionError ''task'' ''leased'' ''cancelled''), t)
      else if nt_run_id t = rid \<and> nt_status t \<in> {Task_queued, Task_running}
      then (Inr (), t\<lparr>nt_status := Task_cancelled, nt_updated_at := now\<rparr>)
      else (Inr (), t))"
  by (cases "nt_status t") (simp_all add: cancel_one_def task_transition_table)

lemma for_cancel_leased:
  "(\<exists>k t. (k, t) \<in> set d \<and> nt_run_id t = rid \<and> nt_status t = Task_leased) \<Longrightarrow>
     fst (for_entries (cancel_one now rid) d) = Inl (InvalidStateTransitionError ''task'' ''leased'' ''cancelled'') \<and>
     (\<forall>k t. (k, t) \<in> set d \<and> nt_run_id t = rid \<and> nt_status t = Task_leased \<longrightarrow>
        (k, t) \<in> set (snd (for_entries (cancel_one now rid) d)))"
proof (induction d)
  case (Cons jt d)
  obtain j u where jt: "jt = (j, u)" by (cases jt)
  show ?case
  proof (cases "nt_run_id u = rid \<and> nt_status u = Task_leased")
    case True
    then show ?thesis by (auto simp: jt cancel_one_cases)
  next
    case False
    then obtain u' where u': "cancel_one now rid u = (Inr (), u')"
      by (cases "nt_run_id u = rid \<and> nt_status u \<in> {Task_queued, Task_running}") (auto simp: cancel_one_cases)
    have "\<exists>k t. (k, t) \<in> set d \<and> nt_run_id t = rid \<and> nt_status t = Task_leased" using Cons.prems False jt by auto
    from Cons.IH [OF this] show ?thesis
      using False u' by (auto simp: jt split: prod.splits)
  qed
qed simp

definition cancelled_with :: "datetime \<Rightarrow> int \<Rightarrow> NativeTask \<Rightarrow> NativeTask" where
  "cancelled_with now rid t = (if nt_run_id t = rid \<and> nt_status t \<in> {Task_queued, Task_running}
     then t\<lparr>nt_status := Task_cancelled, nt_updated_at := now\<rparr> else t)"

text \<open>
  C36: What cancelling a run does, for a run that may still be cancelled. If none of its tasks is leased,
  the run and all its queued and running tasks become cancelled and no other run or task changes. If a task of
  the run is leased, the call raises an invalid transition and leaves the run cancelled while the leased
  task stays leased.
\<close>

theorem cancel_run_outcome:
  assumes "dget (ns_runs s) rid = Some run" "nr_status run \<in> {Run_pending, Run_running, Run_interrupted}"
  shows "case cancel_native_run now rid s of (r, s') \<Rightarrow>
    dget (ns_runs s') = (dget (ns_runs s))(rid \<mapsto> run\<lparr>nr_status := Run_cancelled, nr_updated_at := now\<rparr>) \<and>
    (if list_ex (\<lambda>(_, t). nt_run_id t = rid \<and> nt_status t = Task_leased) (ns_tasks s)
     then r = Inl (InvalidStateTransitionError ''task'' ''leased'' ''cancelled'') \<and>
       list_all (\<lambda>(k, t). nt_run_id t = rid \<and> nt_status t = Task_leased \<longrightarrow> (k, t) \<in> set (ns_tasks s')) (ns_tasks s)
     else r = Inr (run\<lparr>nr_status := Run_cancelled, nr_updated_at := now\<rparr>) \<and>
       ns_tasks s' = map (\<lambda>(k, t). (k, cancelled_with now rid t)) (ns_tasks s))"
proof -
  let ?run = "run\<lparr>nr_status := Run_cancelled, nr_updated_at := now\<rparr>"
  let ?f = "for_entries (cancel_one now rid) (ns_tasks s)"
  let ?s1 = "s\<lparr>ns_runs := dset (ns_runs s) rid ?run, ns_tasks := snd ?f\<rparr>"
  have ok: "assert_run_transition (nr_status run) Run_cancelled = Inr ()" "nr_status run \<noteq> Run_cancelled"
    using assms(2) by (auto simp: transition_defs)
  have c: "cancel_native_run now rid s = (case fst ?f of Inl e \<Rightarrow> (Inl e, ?s1)
      | Inr _ \<Rightarrow> (Inr ?run, buffer_event now rid ''run.cancelled'' [] ?s1))"
    using assms(1) ok by (simp add: cancel_native_run_def Let_def split_beta)
  have runs: "dget (dset (ns_runs s) rid ?run) = (dget (ns_runs s))(rid \<mapsto> ?run)" by (rule ext) simp
  show ?thesis
  proof (cases "list_ex (\<lambda>(_, t). nt_run_id t = rid \<and> nt_status t = Task_leased) (ns_tasks s)")
    case True
    then have "\<exists>k t. (k, t) \<in> set (ns_tasks s) \<and> nt_run_id t = rid \<and> nt_status t = Task_leased"
      by (auto simp: list_ex_iff)
    from for_cancel_leased [OF this, of now] show ?thesis using True c runs by (auto simp: list_all_iff)
  next
    case False
    have "for_entries (cancel_one now rid) (ns_tasks s) = (Inr (), map (\<lambda>(k, t). (k, cancelled_with now rid t)) (ns_tasks s))"
      using False by (intro for_entries_total) (auto simp: cancel_one_cases cancelled_with_def list_ex_iff)
    then show ?thesis using False c by (simp add: runs)
  qed
qed

section \<open>An example\<close>

definition demo_agent :: NativeAgent where
  "demo_agent = \<lparr>na_id = 1, na_tenant_id = 1, na_project_id = 1, na_name = ''a'', na_description = None,
     na_status = ''active'', na_created_at = 0\<rparr>"

definition demo_version :: NativeAgentVersion where
  "demo_version = \<lparr>nv_id = 1, nv_agent_id = 1, nv_version = ''1'', nv_package_uri = [], nv_framework = [],
     nv_adapter = [], nv_entrypoint = [], nv_capabilities = [], nv_manifest = [], nv_status = ''ready'', nv_created_at = 0\<rparr>"

definition demo_submission :: "pydict \<Rightarrow> task_run_request" where
  "demo_submission body = \<lparr>tr_tenant_id = 1, tr_project_id = 1, tr_agent = demo_agent, tr_agent_version = demo_version,
     tr_input_data = [], tr_thread_id = None, tr_idempotency_key = Some ''key-1'', tr_endpoint = ''/v1/runs'',
     tr_request_body = body, tr_deployment_id = None\<rparr>"

theorem repeated_submission_witness:
  "\<exists>s1 run task. create_task_run memory_idempotency_ops id 5 (demo_submission [(''a'', VInt 1), (''b'', VInt 2)])
      (init_native init_idempotency (init_buffer 10 100)) = (Inr (run, task, False), s1) \<and>
    (\<exists>run' task'. create_task_run memory_idempotency_ops id 9 (demo_submission [(''b'', VInt 2), (''a'', VInt 1)])
       (snd (cancel_native_run 7 1 s1)) = (Inr (run', task', True), snd (cancel_native_run 7 1 s1)) \<and> same_run run run')"
proof -
  let ?s = "init_native init_idempotency (init_buffer 10 100)"
  let ?q = "demo_submission [(''a'', VInt 1), (''b'', VInt 2)]" and ?q' = "demo_submission [(''b'', VInt 2), (''a'', VInt 1)]"
  obtain res s1 where c: "create_task_run memory_idempotency_ops id 5 ?q ?s = (res, s1)" by (metis surj_pair)
  have step: "(native_step memory_idempotency_ops id)\<^sup>*\<^sup>* s1 (snd (cancel_native_run 7 1 s1))"
    by (rule r_into_rtranclp) (rule step_cancel_run)
  have "stable_hash id (tr_request_body ?q') = stable_hash id (tr_request_body ?q)"
    unfolding demo_submission_def stable_hash_def dumps_sorted_def by simp
  moreover have "wf_idempotency (ns_idempotency ?s)" "wf_native ?s" "has_key ?q" "has_key ?q'"
    "request_scope ?q' (or_str (tr_idempotency_key ?q') []) = request_scope ?q (or_str (tr_idempotency_key ?q) [])"
    "memory_slot (ns_idempotency ?s) (request_scope ?q (or_str (tr_idempotency_key ?q) [])) = None"
    by (simp_all add: wf_init_native init_native_def wf_init_idempotency has_key_def demo_submission_def request_scope_def
      memory_slot_def init_idempotency_def) (simp_all add: wf_native_def wf_idempotency_def)
  ultimately show ?thesis using repeated_submission [OF _ _ _ _ c step, of ?q' 9] c by auto
qed

definition demo_cancel :: "TaskStatus \<Rightarrow> unit native_store" where
  "demo_cancel st = (init_native () (init_buffer 10 100))
     \<lparr>ns_runs := [(1, new_run 0 1 (demo_submission []))],
      ns_tasks := [(1, (new_task 0 1 1 (demo_submission []))\<lparr>nt_status := st\<rparr>)]\<rparr>"

theorem cancel_run_outcome_witness:
  "fst (cancel_native_run 5 1 (demo_cancel Task_leased)) = Inl (InvalidStateTransitionError ''task'' ''leased'' ''cancelled'') \<and>
   map_option nr_status (dget (ns_runs (snd (cancel_native_run 5 1 (demo_cancel Task_leased)))) 1) = Some Run_cancelled"
proof -
  have "dget (ns_runs (demo_cancel Task_leased)) 1 = Some (new_run 0 1 (demo_submission []))"
    "nr_status (new_run 0 1 (demo_submission [])) \<in> {Run_pending, Run_running, Run_interrupted}"
    by (simp_all add: demo_cancel_def new_run_def)
  moreover have "list_ex (\<lambda>(_, t). nt_run_id t = 1 \<and> nt_status t = Task_leased) (ns_tasks (demo_cancel Task_leased))"
    by (simp add: demo_cancel_def new_task_def)
  ultimately show ?thesis using cancel_run_outcome [of "demo_cancel Task_leased" 1 _ 5] by (auto split: prod.splits)
qed

end
