(* ===== verification/Sql_Tables.thy ===== *)
theory Sql_Tables
  imports Task_Backend Json
begin

text \<open>
  The tables \<open>tasks\<close>, \<open>runs\<close>, \<open>run_attempts\<close> and \<open>events\<close> of \<open>domain/models.py\<close> as a database session
  sees them, the transaction scope of \<open>persistence/database.py\<close> and the event repository of
  \<open>persistence/repositories.py\<close>. A table maps primary keys to rows, in the order of the rows; foreign keys
  are not enforced, and of the audit columns only the creation time and the deletion mark are kept.
\<close>

section \<open>Rows\<close>

record TaskRow =
  tk_id :: int
  tk_run_id :: int
  tk_tenant_id :: int
  tk_project_id :: int
  tk_status :: TaskStatus
  tk_attempt :: int
  tk_max_attempts :: int
  tk_queue :: string
  tk_priority :: int
  tk_scheduled_at :: "datetime option"
  tk_started_at :: "datetime option"
  tk_finished_at :: "datetime option"
  tk_leased_until :: "datetime option"
  tk_worker_id :: "string option"
  tk_heartbeat_at :: "datetime option"
  tk_fencing_token :: int
  tk_dedupe_key :: "string option"
  tk_idempotency_key :: "string option"
  tk_error :: "string option"
  tk_dead_letter_reason :: "string option"
  tk_metadata_json :: pydict
  tk_created_at :: datetime
  tk_is_deleted :: bool

record RunRow =
  rw_id :: int
  rw_tenant_id :: int
  rw_project_id :: int
  rw_user_id :: "int option"
  rw_service_account_id :: "int option"
  rw_agent_id :: int
  rw_agent_version_id :: int
  rw_deployment_id :: "int option"
  rw_session_id :: "int option"
  rw_framework :: "string option"
  rw_adapter :: "string option"
  rw_thread_id :: "string option"
  rw_trace_id :: "string option"
  rw_idempotency_key :: "string option"
  rw_status :: RunStatus
  rw_input_ref :: "string option"
  rw_output_ref :: "string option"
  rw_error :: "string option"
  rw_started_at :: "datetime option"
  rw_finished_at :: "datetime option"
  rw_created_at :: datetime
  rw_is_deleted :: bool

record RunAttemptRow =
  ra_id :: int
  ra_run_id :: int
  ra_task_id :: "int option"
  ra_attempt_no :: int
  ra_worker_id :: "string option"
  ra_status :: RunAttemptStatus
  ra_started_at :: "datetime option"
  ra_finished_at :: "datetime option"
  ra_error :: "string option"
  ra_latency_ms :: "int option"
  ra_created_at :: datetime
  ra_is_deleted :: bool

record EventRow =
  er_run_id :: int
  er_attempt_id :: "int option"
  er_tenant_id :: int
  er_project_id :: int
  er_type :: string
  er_sequence :: int
  er_event_id :: string
  er_framework :: "string option"
  er_payload_ref :: "string option"
  er_payload_json :: pydict
  er_visibility_level :: string
  er_is_deleted :: bool

record sql_session =
  se_tasks :: "(int \<times> TaskRow) list"
  se_runs :: "(int \<times> RunRow) list"
  se_attempts :: "(int \<times> RunAttemptRow) list"
  se_events :: "EventRow list"
  se_next_task_id :: int
  se_next_run_id :: int
  se_next_attempt_id :: int

definition put_task :: "TaskRow \<Rightarrow> sql_session \<Rightarrow> sql_session" where
  "put_task t s = s\<lparr>se_tasks := dset (se_tasks s) (tk_id t) t\<rparr>"

definition put_attempt :: "RunAttemptRow \<Rightarrow> sql_session \<Rightarrow> sql_session" where
  "put_attempt a s = s\<lparr>se_attempts := dset (se_attempts s) (ra_id a) a\<rparr>"

text \<open>\<open>session_scope\<close>: the work of a session is committed, or rolled back when it raises.\<close>

definition session_scope :: "('s, 'a) eff \<Rightarrow> ('s, 'a) eff" where
  "session_scope m s = (case m s of (Inl e, _) \<Rightarrow> (Inl e, s) | (Inr x, s') \<Rightarrow> (Inr x, s'))"

section \<open>The event repository\<close>

definition list_by_run :: "int \<Rightarrow> sql_session \<Rightarrow> EventRow list" where
  "list_by_run run_id s =
     sort_key er_sequence (filter (\<lambda>e. er_run_id e = run_id \<and> \<not> er_is_deleted e) (se_events s))"

definition next_sequence :: "int \<Rightarrow> sql_session \<Rightarrow> int" where
  "next_sequence run_id s = (case list_by_run run_id s of
       [] \<Rightarrow> 1
     | e # es \<Rightarrow> fold max (map er_sequence es) (er_sequence e) + 1)"

text \<open>The unique constraint on run and sequence also covers deleted rows.\<close>

definition event_append ::
  "int \<Rightarrow> int \<Rightarrow> int \<Rightarrow> string \<Rightarrow> pydict option \<Rightarrow> int option \<Rightarrow> string option \<Rightarrow> string \<Rightarrow>
     (sql_session, EventRow) eff" where
  "event_append run_id tenant project ty payload attempt framework visibility s =
     (let sequence = next_sequence run_id s;
          e = \<lparr>er_run_id = run_id, er_attempt_id = attempt, er_tenant_id = tenant, er_project_id = project,
               er_type = ty, er_sequence = sequence,
               er_event_id = dec_int run_id @ '':'' @ dec_int sequence, er_framework = framework,
               er_payload_ref = None, er_payload_json = or_else payload [], er_visibility_level = visibility,
               er_is_deleted = False\<rparr>
      in if list_ex (\<lambda>x. er_run_id x = run_id \<and> er_sequence x = sequence) (se_events s)
         then (Inl IntegrityError, s)
         else (Inr e, s\<lparr>se_events := se_events s @ [e]\<rparr>))"

text \<open>While no event is deleted, the next sequence number is free and appending succeeds.\<close>

definition events_kept :: "sql_session \<Rightarrow> bool" where
  "events_kept s \<longleftrightarrow> list_all (\<lambda>e. \<not> er_is_deleted e) (se_events s)"

lemma fold_max_ge: "x \<le> fold max xs (x :: int)" "y \<in> set xs \<Longrightarrow> y \<le> fold max xs (x :: int)"
proof (induction xs arbitrary: x)
  case (Cons z xs)
  { case 1 show ?case using Cons(1) [of "max z x"] by simp }
  { case 2 then show ?case using Cons(1) [of "max z x"] Cons(2) [of "max z x"] by auto }
qed simp_all

lemma next_sequence_fresh:
  assumes "events_kept s" "e \<in> set (se_events s)" "er_run_id e = run_id"
  shows "er_sequence e < next_sequence run_id s"
proof -
  have "e \<in> set (list_by_run run_id s)" using assms by (auto simp: list_by_run_def events_kept_def list_all_iff)
  then obtain x xs where l: "list_by_run run_id s = x # xs" and "e = x \<or> e \<in> set xs"
    by (cases "list_by_run run_id s") auto
  then have "er_sequence e \<le> fold max (map er_sequence xs) (er_sequence x)"
    using fold_max_ge [where xs = "map er_sequence xs" and x = "er_sequence x"] by auto
  with l show ?thesis by (simp add: next_sequence_def)
qed

lemma event_append_ok:
  assumes "events_kept s"
  shows "\<exists>e. event_append run_id tn pr ty p a f v s = (Inr e, s\<lparr>se_events := se_events s @ [e]\<rparr>) \<and>
    er_run_id e = run_id \<and> er_type e = ty \<and> er_payload_json e = or_else p [] \<and>
    events_kept (s\<lparr>se_events := se_events s @ [e]\<rparr>)"
proof -
  have "\<not> list_ex (\<lambda>x. er_run_id x = run_id \<and> er_sequence x = next_sequence run_id s) (se_events s)"
    using next_sequence_fresh [OF assms] by (fastforce simp: list_ex_iff)
  then show ?thesis using assms by (auto simp: event_append_def Let_def events_kept_def)
qed

section \<open>Elapsed milliseconds\<close>

text \<open>
  \<open>int((b - a).total_seconds() * 1000)\<close> in IEEE double arithmetic: the quotient of the microseconds by a
  million is rounded to 53 bits, ties to even, and so is its product with 1000. A float is a pair of a
  mantissa and an exponent.
\<close>

fun bit_length :: "nat \<Rightarrow> nat" where
  "bit_length n = (if n = 0 then 0 else bit_length (n div 2) + 1)"

declare bit_length.simps [simp del]

definition round_div :: "int \<Rightarrow> int \<Rightarrow> int" where
  "round_div p q = (let k = p div q; r = p mod q in
     if 2 * r < q \<or> (2 * r = q \<and> even k) then k else k + 1)"

definition scaled :: "int \<Rightarrow> int \<Rightarrow> int \<Rightarrow> int \<times> int" where
  "scaled p q e = (if 0 \<le> e then (p, q * 2 ^ nat e) else (p * 2 ^ nat (- e), q))"

definition float_quotient :: "int \<Rightarrow> int \<Rightarrow> int \<times> int" where
  "float_quotient p q =
     (let e0 = int (bit_length (nat p)) - int (bit_length (nat q)) - 53;
          (p0, q0) = scaled p q e0;
          e = (if 2 ^ 53 * q0 \<le> p0 then e0 + 1 else e0);
          (p1, q1) = scaled p q e
      in (round_div p1 q1, e))"

definition float_trunc :: "int \<times> int \<Rightarrow> int" where
  "float_trunc me = (case me of (m, e) \<Rightarrow> if 0 \<le> e then m * 2 ^ nat e else m div 2 ^ nat (- e))"

definition elapsed_ms :: "datetime \<Rightarrow> datetime \<Rightarrow> int" where
  "elapsed_ms started finished =
     (let d = finished - started;
          magnitude = (\<lambda>d. case float_quotient d 1000000 of (m, e) \<Rightarrow>
             (case scaled (m * 1000) 1 (- e) of (p, q) \<Rightarrow> float_trunc (float_quotient p q)))
      in if d = 0 then 0 else if d < 0 then - magnitude (- d) else magnitude d)"

end
