(* ===== verification/Quota.thy ===== *)
theory Quota
  imports Sql_Tables
begin

text \<open>
  The concurrency quotas of \<open>scheduler/quota.py\<close>: limits on the leased and running tasks of a tenant, a
  project, an agent and a deployment, counted in the task table before a task is enqueued or leased.
\<close>

section \<open>Counting and checking\<close>

record RuntimeQuota =
  tenant_max_running_tasks :: "int option"
  project_max_running_tasks :: "int option"
  agent_max_running_tasks :: "int option"
  deployment_max_running_tasks :: "int option"

definition active_row :: "TaskRow \<Rightarrow> bool" where
  "active_row t \<longleftrightarrow> tk_status t \<in> {Task_leased, Task_running} \<and> \<not> tk_is_deleted t"

definition count_running :: "int \<Rightarrow> int option \<Rightarrow> sql_session \<Rightarrow> int" where
  "count_running tenant project s = int (length (filter
     (\<lambda>t. tk_tenant_id t = tenant \<and> active_row t \<and> (case project of None \<Rightarrow> True | Some p \<Rightarrow> tk_project_id t = p))
     (dvals (se_tasks s))))"

definition bound_to :: "int option \<Rightarrow> int option \<Rightarrow> sql_session \<Rightarrow> TaskRow \<Rightarrow> bool" where
  "bound_to agent deployment s t = (case dget (se_runs s) (tk_run_id t) of
       None \<Rightarrow> False
     | Some r \<Rightarrow> (case agent of None \<Rightarrow> True | Some a \<Rightarrow> rw_agent_id r = a) \<and>
                (case deployment of None \<Rightarrow> True | Some d \<Rightarrow> rw_deployment_id r = Some d))"

definition count_running_for_run_binding ::
  "int \<Rightarrow> int \<Rightarrow> int option \<Rightarrow> int option \<Rightarrow> sql_session \<Rightarrow> int" where
  "count_running_for_run_binding tenant project agent deployment s = int (length (filter
     (\<lambda>t. tk_tenant_id t = tenant \<and> tk_project_id t = project \<and> active_row t \<and> bound_to agent deployment s t)
     (dvals (se_tasks s))))"

definition within :: "string \<Rightarrow> int option \<Rightarrow> int \<Rightarrow> exn + unit" where
  "within scope limit current = (case limit of
       None \<Rightarrow> Inr ()
     | Some l \<Rightarrow> if l \<le> current then Inl (QuotaExceededError scope l current) else Inr ())"

fun first_error :: "(exn + unit) list \<Rightarrow> exn + unit" where
  "first_error [] = Inr ()"
| "first_error (Inl e # _) = Inl e"
| "first_error (Inr _ # rs) = first_error rs"

definition assert_can_enqueue ::
  "RuntimeQuota \<Rightarrow> int \<Rightarrow> int \<Rightarrow> int option \<Rightarrow> int option \<Rightarrow> sql_session \<Rightarrow> exn + unit" where
  "assert_can_enqueue quota tenant project agent deployment s = first_error
     [within ''tenant'' (tenant_max_running_tasks quota) (count_running tenant None s),
      within ''project'' (project_max_running_tasks quota) (count_running tenant (Some project) s),
      (if agent = None then Inr () else within ''agent'' (agent_max_running_tasks quota)
         (count_running_for_run_binding tenant project agent None s)),
      (if deployment = None then Inr () else within ''deployment'' (deployment_max_running_tasks quota)
         (count_running_for_run_binding tenant project None deployment s))]"

definition assert_task_within_quota :: "RuntimeQuota \<Rightarrow> TaskRow \<Rightarrow> sql_session \<Rightarrow> exn + unit" where
  "assert_task_within_quota quota t s =
     (case assert_can_enqueue quota (tk_tenant_id t) (tk_project_id t) None None s of
        Inl e \<Rightarrow> Inl e
      | Inr _ \<Rightarrow> (case dget (se_runs s) (tk_run_id t) of
          None \<Rightarrow> Inr ()
        | Some run \<Rightarrow> first_error
            [within ''agent'' (agent_max_running_tasks quota)
               (count_running_for_run_binding (tk_tenant_id t) (tk_project_id t) (Some (rw_agent_id run)) None s),
             (if rw_deployment_id run = None then Inr () else
                within ''deployment'' (deployment_max_running_tasks quota)
                  (count_running_for_run_binding (tk_tenant_id t) (tk_project_id t) None (rw_deployment_id run) s))]))"

definition assert_can_lease :: "RuntimeQuota \<Rightarrow> TaskRow \<Rightarrow> sql_session \<Rightarrow> exn + unit" where
  "assert_can_lease quota t s = assert_task_within_quota quota t s"

section \<open>What a passed check means\<close>

definition below :: "int option \<Rightarrow> int \<Rightarrow> bool" where
  "below limit n \<longleftrightarrow> (case limit of None \<Rightarrow> True | Some l \<Rightarrow> n < l)"

definition at_most :: "int option \<Rightarrow> int \<Rightarrow> bool" where
  "at_most limit n \<longleftrightarrow> (case limit of None \<Rightarrow> True | Some l \<Rightarrow> n \<le> l)"

lemma within_ok: "within scope limit n = Inr () \<longleftrightarrow> below limit n"
  by (simp add: within_def below_def split: option.splits)

lemma first_error_ok: "first_error rs = Inr () \<longleftrightarrow> list_all (\<lambda>r. r = Inr ()) rs"
  by (induction rs rule: first_error.induct) auto

lemma within_quota: "within scope limit n = Inl e \<Longrightarrow> \<exists>l c. e = QuotaExceededError scope l c"
  by (auto simp: within_def split: option.splits if_splits)

text \<open>The limits that concern a task, with the number of active tasks each counts.\<close>

definition limits_of :: "RuntimeQuota \<Rightarrow> TaskRow \<Rightarrow> sql_session \<Rightarrow> (int option \<times> int) list" where
  "limits_of quota t s =
     [(tenant_max_running_tasks quota, count_running (tk_tenant_id t) None s),
      (project_max_running_tasks quota, count_running (tk_tenant_id t) (Some (tk_project_id t)) s)] @
     (case dget (se_runs s) (tk_run_id t) of
        None \<Rightarrow> []
      | Some run \<Rightarrow>
          [(agent_max_running_tasks quota,
            count_running_for_run_binding (tk_tenant_id t) (tk_project_id t) (Some (rw_agent_id run)) None s)] @
          (if rw_deployment_id run = None then [] else
          [(deployment_max_running_tasks quota,
            count_running_for_run_binding (tk_tenant_id t) (tk_project_id t) None (rw_deployment_id run) s)]))"

lemma can_lease_iff:
  "assert_can_lease quota t s = Inr () \<longleftrightarrow> list_all (\<lambda>(l, n). below l n) (limits_of quota t s)"
proof -
  have "assert_can_enqueue quota (tk_tenant_id t) (tk_project_id t) None None s = Inr () \<longleftrightarrow>
     below (tenant_max_running_tasks quota) (count_running (tk_tenant_id t) None s) \<and>
     below (project_max_running_tasks quota) (count_running (tk_tenant_id t) (Some (tk_project_id t)) s)"
    by (simp add: assert_can_enqueue_def first_error_ok within_ok)
  then show ?thesis
    by (cases "assert_can_enqueue quota (tk_tenant_id t) (tk_project_id t) None None s")
      (auto simp: assert_can_lease_def assert_task_within_quota_def limits_of_def first_error_ok within_ok
        split: option.splits)
qed

lemma first_error_quota:
  "list_all (\<lambda>r. \<forall>e. r = Inl e \<longrightarrow> (\<exists>sc l c. e = QuotaExceededError sc l c)) rs \<Longrightarrow>
     first_error rs = Inl e \<Longrightarrow> \<exists>sc l c. e = QuotaExceededError sc l c"
  by (induction rs rule: first_error.induct) auto

lemma can_lease_error: "assert_can_lease quota t s = Inl e \<Longrightarrow> \<exists>sc l c. e = QuotaExceededError sc l c"
  by (auto simp: assert_can_lease_def assert_task_within_quota_def assert_can_enqueue_def
      split: sum.splits option.splits if_splits elim!: first_error_quota [rotated])
    (meson within_quota)+

end
