(* ===== verification/Sql_Backend.thy ===== *)
theory Sql_Backend
  imports Quota
begin

text \<open>
  The task queue on a database, \<open>scheduler/sqlalchemy_backend.py\<close>: the same interface as the in-memory
  queue, on the shared tables. A lease picks the due task of the least busy project and claims it with a
  conditional update; what other sessions do to the task table before that update is the parameter
  \<open>others\<close>. The reaper also closes the attempt and the run of a task whose worker is gone.
\<close>

section \<open>State\<close>

record sql_backend =
  sb_session :: sql_session
  sb_quota :: "RuntimeQuota option"
  sb_last_quota_error :: "(string \<times> int \<times> int) option"
  sb_dead_letters :: "(int \<times> pydict) list"

definition in_session :: "(sql_session, 'a) eff \<Rightarrow> (sql_backend, 'a) eff" where
  "in_session m b = (case m (sb_session b) of (r, s) \<Rightarrow> (r, b\<lparr>sb_session := s\<rparr>))"

definition on_task_row :: "int \<Rightarrow> (TaskRow, 'a) eff \<Rightarrow> (sql_session, 'a) eff" where
  "on_task_row = on_entry se_tasks (\<lambda>ts s. s\<lparr>se_tasks := ts\<rparr>)"

section \<open>Computations on a row\<close>

definition row_transition :: "TaskStatus \<Rightarrow> (TaskRow, unit) eff" where
  [eff_simps]: "row_transition target = (\<lambda>t. (assert_task_transition (tk_status t) target, t))"

definition row_status :: "TaskStatus \<Rightarrow> (TaskRow, unit) eff" where
  [eff_simps]: "row_status st = seq (row_transition st) (upd (\<lambda>t. t\<lparr>tk_status := st\<rparr>))"

definition row_fencing_token :: "int \<Rightarrow> (TaskRow, unit) eff" where
  [eff_simps]: "row_fencing_token tok =
     (\<lambda>t. if tk_fencing_token t \<noteq> tok then (Inl (StaleFencingTokenError (tk_id t)), t) else (Inr (), t))"

definition row_owner :: "string \<Rightarrow> (TaskRow, unit) eff" where
  [eff_simps]: "row_owner w =
     (\<lambda>t. if tk_worker_id t \<noteq> Some w then (Inl (TaskLeaseError (tk_id t)), t) else (Inr (), t))"

definition row_promote :: "(TaskRow, unit) eff" where
  [eff_simps]: "row_promote = when_st (\<lambda>t. tk_status t = Task_leased) (row_status Task_running)"

definition row_heartbeat :: "datetime \<Rightarrow> string \<Rightarrow> int \<Rightarrow> (TaskRow, unit) eff" where
  [eff_simps]: "row_heartbeat now w lease_seconds = seq (row_owner w)
     (upd (\<lambda>t. t\<lparr>tk_heartbeat_at := Some now, tk_leased_until := Some (now + seconds lease_seconds)\<rparr>))"

definition row_complete :: "datetime \<Rightarrow> string \<Rightarrow> int \<Rightarrow> (TaskRow, unit) eff" where
  [eff_simps]: "row_complete now w tok =
     seq (row_fencing_token tok)
    (seq (row_owner w)
    (seq row_promote
    (seq (row_status Task_succeeded)
         (upd (\<lambda>t. t\<lparr>tk_finished_at := Some now, tk_leased_until := None\<rparr>)))))"

definition error_message :: "pydict \<Rightarrow> string" where
  "error_message e = (case dget e ''message'' of
       None \<Rightarrow> repr_val (VDict e) | Some VNone \<Rightarrow> repr_val (VDict e) | Some v \<Rightarrow> str_item v)"

definition row_fail :: "datetime \<Rightarrow> string \<Rightarrow> int \<Rightarrow> pydict \<Rightarrow> (TaskRow, bool) eff" where
  [eff_simps]: "row_fail now w tok e =
     seq (row_fencing_token tok)
    (seq (row_owner w)
    (seq row_promote
    (seq (row_status Task_failed)
    (seq (upd (\<lambda>t. t\<lparr>tk_error := Some (error_message e)\<rparr>))
         (\<lambda>t. if tk_attempt t + 1 \<ge> tk_max_attempts t
              then seq (row_status Task_dead_letter)
                  (seq (upd (\<lambda>t. t\<lparr>tk_finished_at := Some now, tk_dead_letter_reason := tk_error t,
                                   tk_leased_until := None\<rparr>)) (ret True)) t
              else seq (row_status Task_retrying)
                  (seq (upd (\<lambda>t. t\<lparr>tk_attempt := tk_attempt t + 1, tk_worker_id := None,
                                   tk_leased_until := None\<rparr>))
                  (seq (row_status Task_queued) (ret False))) t)))))"

definition row_cancel :: "datetime \<Rightarrow> (TaskRow, unit) eff" where
  [eff_simps]: "row_cancel now = seq row_promote (seq (row_status Task_cancelled)
     (upd (\<lambda>t. t\<lparr>tk_finished_at := Some now\<rparr>)))"

definition row_mark_running :: "datetime \<Rightarrow> string \<Rightarrow> int \<Rightarrow> (TaskRow, unit) eff" where
  [eff_simps]: "row_mark_running now w tok = seq (row_owner w) (seq (row_fencing_token tok)
     (seq (row_status Task_running)
        (upd (\<lambda>t. t\<lparr>tk_started_at := Some (or_else (tk_started_at t) now)\<rparr>))))"

section \<open>Enqueueing\<close>

definition setdefault :: "pydict \<Rightarrow> string \<Rightarrow> pyval \<Rightarrow> pydict" where
  "setdefault d k v = (if dget d k = None then dset d k v else d)"

definition task_metadata :: "task_payload \<Rightarrow> int \<Rightarrow> int \<Rightarrow> pydict" where
  "task_metadata p tenant project =
     (let m0 = or_else (p_metadata p) [];
          m1 = setdefault m0 ''partition_key'' (VStr (dec_int tenant @ '':'' @ dec_int project));
          m2 = setdefault m1 ''resource_class'' (VStr (or_else (p_resource_class p) ''default''));
          m3 = (case p_agent_id p of None \<Rightarrow> m2 | Some a \<Rightarrow> setdefault m2 ''agent_id'' (VInt a))
      in case p_deployment_id p of None \<Rightarrow> m3 | Some d \<Rightarrow> setdefault m3 ''deployment_id'' (VInt d))"

definition new_task_row :: "datetime \<Rightarrow> int \<Rightarrow> task_payload \<Rightarrow> int \<Rightarrow> int \<Rightarrow> int \<Rightarrow> TaskRow" where
  "new_task_row now tid p run_id tenant project =
     \<lparr>tk_id = tid, tk_run_id = run_id, tk_tenant_id = tenant, tk_project_id = project,
      tk_status = Task_queued, tk_attempt = or_else (p_attempt p) 0, tk_max_attempts = or_else (p_max_attempts p) 3,
      tk_queue = or_else (p_queue p) ''default'', tk_priority = or_else (p_priority p) 0,
      tk_scheduled_at = p_scheduled_at p, tk_started_at = None, tk_finished_at = None, tk_leased_until = None,
      tk_worker_id = None, tk_heartbeat_at = None, tk_fencing_token = 0, tk_dedupe_key = None,
      tk_idempotency_key = p_idempotency_key p, tk_error = None, tk_dead_letter_reason = None,
      tk_metadata_json = task_metadata p tenant project, tk_created_at = now, tk_is_deleted = False\<rparr>"

definition sql_enqueue :: "datetime \<Rightarrow> task_payload \<Rightarrow> (sql_backend, int) eff" where
  "sql_enqueue now p b = (case (p_tenant_id p, p_project_id p) of
       (Some tenant, Some project) \<Rightarrow>
         (case (case sb_quota b of None \<Rightarrow> Inr () | Some quota \<Rightarrow>
                  assert_can_enqueue quota tenant project (p_agent_id p) (p_deployment_id p) (sb_session b)) of
            Inl e \<Rightarrow> (Inl e, b)
          | Inr _ \<Rightarrow> (case p_run_id p of
              None \<Rightarrow> (Inl KeyError, b)
            | Some run_id \<Rightarrow>
                let s = sb_session b; tid = se_next_task_id s
                in (Inr tid, b\<lparr>sb_session := (put_task (new_task_row now tid p run_id tenant project) s)
                                 \<lparr>se_next_task_id := tid + 1\<rparr>\<rparr>)))
     | _ \<Rightarrow> (Inl KeyError, b))"

section \<open>Reaping expired leases\<close>

definition latest_attempt :: "int \<Rightarrow> sql_session \<Rightarrow> RunAttemptRow option" where
  "latest_attempt task_id s = first_by (\<lambda>a. - ra_attempt_no a)
     (filter (\<lambda>a. ra_task_id a = Some task_id \<and> \<not> ra_is_deleted a) (dvals (se_attempts s)))"

definition fail_attempt_for_reaper :: "datetime \<Rightarrow> RunAttemptRow option \<Rightarrow> (sql_session, unit) eff" where
  "fail_attempt_for_reaper now attempt s = (case attempt of
       None \<Rightarrow> (Inr (), s)
     | Some a \<Rightarrow> if ra_status a \<noteq> Attempt_running then (Inr (), s)
         else (case assert_run_attempt_transition (ra_status a) Attempt_failed of
            Inl e \<Rightarrow> (Inl e, s)
          | Inr _ \<Rightarrow> (Inr (), put_attempt (a\<lparr>ra_status := Attempt_failed, ra_error := Some ''lease_expired'',
               ra_finished_at := Some now,
               ra_latency_ms := (case ra_started_at a of None \<Rightarrow> ra_latency_ms a
                                 | Some st \<Rightarrow> Some (elapsed_ms st now))\<rparr>) s)))"

definition reaper_event :: "TaskRow \<Rightarrow> string \<Rightarrow> pydict \<Rightarrow> (sql_session, unit) eff" where
  "reaper_event t ty payload =
     seq (event_append (tk_run_id t) (tk_tenant_id t) (tk_project_id t) ty (Some payload) None None ''internal'')
         (ret ())"

definition fail_run_for_reaper :: "datetime \<Rightarrow> int \<Rightarrow> (sql_session, unit) eff" where
  "fail_run_for_reaper now run_id s = (case dget (se_runs s) run_id of
       None \<Rightarrow> (Inr (), s)
     | Some run \<Rightarrow> if rw_status run = Run_failed then (Inr (), s)
         else
           let run1 = (if rw_status run = Run_pending
                       then run\<lparr>rw_status := Run_running, rw_started_at := Some (or_else (rw_started_at run) now)\<rparr>
                       else run);
               s1 = s\<lparr>se_runs := dset (se_runs s) run_id run1\<rparr>
           in case assert_run_transition (rw_status run1) Run_failed of
                Inl e \<Rightarrow> (Inl e, s1)
              | Inr _ \<Rightarrow> (Inr (), s\<lparr>se_runs := dset (se_runs s) run_id
                  (run1\<lparr>rw_status := Run_failed, rw_error := Some ''lease_expired'', rw_finished_at := Some now\<rparr>)\<rparr>))"

definition expired_payload :: "TaskRow \<Rightarrow> pydict" where
  "expired_payload t = [(''task_id'', VInt (tk_id t)), (''reason'', VStr ''lease_expired'')]"

definition dead_letter_expired :: "datetime \<Rightarrow> TaskRow \<Rightarrow> (sql_session, unit) eff" where
  "dead_letter_expired now t =
     seq (on_task_row (tk_id t) (seq (row_status Task_dead_letter)
            (upd (\<lambda>t. t\<lparr>tk_finished_at := Some now, tk_dead_letter_reason := Some ''lease_expired'',
                        tk_worker_id := None, tk_leased_until := None\<rparr>))))
    (seq (fail_run_for_reaper now (tk_run_id t))
    (seq (reaper_event t ''attempt.failed'' (expired_payload t))
    (seq (reaper_event t ''task.dead_letter'' (expired_payload t))
    (seq (reaper_event t ''run.failed'' (expired_payload t))
         (reaper_event t ''stream.failed'' (expired_payload t))))))"

definition requeue_expired :: "RunAttemptRow option \<Rightarrow> TaskRow \<Rightarrow> (sql_session, unit) eff" where
  "requeue_expired latest t =
     seq (on_task_row (tk_id t) (seq (row_status Task_queued)
            (upd (\<lambda>t. t\<lparr>tk_worker_id := None, tk_leased_until := None\<rparr>))))
         (reaper_event t (if latest \<noteq> None then ''task.retrying'' else ''task.lease_expired'')
            [(''task_id'', VInt (tk_id t)), (''status'', VStr ''queued''), (''reason'', VStr ''lease_expired'')])"

definition reap_row :: "datetime \<Rightarrow> int \<Rightarrow> (sql_session, unit) eff" where
  "reap_row now tid s = (case dget (se_tasks s) tid of
       None \<Rightarrow> (Inr (), s)
     | Some t \<Rightarrow>
         let latest = latest_attempt (tk_id t) s in
         if tk_status t = Task_running then
           seq (fail_attempt_for_reaper now latest)
               (if tk_attempt t + 1 \<ge> tk_max_attempts t then dead_letter_expired now t
                else seq (on_task_row (tk_id t) (seq (row_status Task_retrying)
                            (upd (\<lambda>t. t\<lparr>tk_attempt := tk_attempt t + 1\<rparr>))))
                    (seq (reaper_event t ''attempt.failed'' (expired_payload t))
                         (requeue_expired latest t))) s
         else requeue_expired latest t s)"

definition expired_row :: "datetime \<Rightarrow> TaskRow \<Rightarrow> bool" where
  "expired_row now t \<longleftrightarrow> active_row t \<and> (case tk_leased_until t of None \<Rightarrow> False | Some u \<Rightarrow> u < now)"

fun reap_rows :: "datetime \<Rightarrow> int list \<Rightarrow> (sql_session, int) eff" where
  "reap_rows now [] = ret 0"
| "reap_rows now (tid # tids) = seq (reap_row now tid) (bnd (reap_rows now tids) (\<lambda>n. ret (n + 1)))"

definition sql_reap :: "datetime \<Rightarrow> (sql_session, int) eff" where
  "sql_reap now s = reap_rows now (map tk_id (filter (expired_row now) (dvals (se_tasks s)))) s"

section \<open>Leasing\<close>

text \<open>The dictionary \<open>_snapshot\<close> returns, with the entries the in-memory queue does not have.\<close>

record sql_snapshot = task_snapshot +
  ss_partition_key :: "pyval option"
  ss_resource_class :: "pyval option"
  ss_quota_blocking_reason :: "pyval option"

definition decode_ref :: "string option \<Rightarrow> exn + pydict" where
  "decode_ref value = (case value of
       None \<Rightarrow> Inr []
     | Some v \<Rightarrow> if \<not> startswith v ''json:'' then Inr []
         else (case loads (drop (length ''json:'') v) of
                 None \<Rightarrow> Inl (ValueError ''json'')
               | Some (VDict d) \<Rightarrow> Inr d
               | Some _ \<Rightarrow> Inr []))"

definition sql_snapshot_of :: "TaskRow \<Rightarrow> sql_session \<Rightarrow> exn + sql_snapshot" where
  "sql_snapshot_of t s =
     (case (case dget (se_runs s) (tk_run_id t) of None \<Rightarrow> Inr [] | Some run \<Rightarrow> decode_ref (rw_input_ref run)) of
        Inl e \<Rightarrow> Inl e
      | Inr input \<Rightarrow> Inr
          \<lparr>sn_payload = empty_payload\<lparr>p_tenant_id := Some (tk_tenant_id t),
             p_project_id := Some (tk_project_id t), p_input_data := Some input\<rparr>,
           sn_task_id = tk_id t, sn_run_id = tk_run_id t, sn_queue = tk_queue t, sn_priority = tk_priority t,
           sn_status = tk_status t, sn_attempt = tk_attempt t, sn_max_attempts = tk_max_attempts t,
           sn_worker_id = tk_worker_id t, sn_leased_until = tk_leased_until t,
           sn_heartbeat_at = tk_heartbeat_at t, sn_scheduled_at = tk_scheduled_at t,
           sn_fencing_token = tk_fencing_token t,
           ss_partition_key = dget (tk_metadata_json t) ''partition_key'',
           ss_resource_class = dget (tk_metadata_json t) ''resource_class'',
           ss_quota_blocking_reason = dget (tk_metadata_json t) ''quota_blocking_reason''\<rparr>)"

definition active_partition_count :: "TaskRow \<Rightarrow> sql_session \<Rightarrow> int" where
  "active_partition_count t s = int (length (filter
     (\<lambda>u. tk_tenant_id u = tk_tenant_id t \<and> tk_project_id u = tk_project_id t \<and> active_row u)
     (dvals (se_tasks s))))"

definition due_row :: "datetime \<Rightarrow> string \<Rightarrow> TaskRow \<Rightarrow> bool" where
  "due_row now q t \<longleftrightarrow> tk_queue t = q \<and> tk_status t = Task_queued \<and> \<not> tk_is_deleted t \<and>
     (case tk_scheduled_at t of None \<Rightarrow> True | Some at \<Rightarrow> at \<le> now)"

definition candidate_key :: "sql_session \<Rightarrow> TaskRow \<Rightarrow> int \<times> int \<times> datetime" where
  "candidate_key s t = (active_partition_count t s, - tk_priority t, tk_created_at t)"

definition candidates :: "datetime \<Rightarrow> string \<Rightarrow> sql_session \<Rightarrow> TaskRow list" where
  "candidates now q s = sort_key (candidate_key s)
     (sort_key (\<lambda>t. (- tk_priority t, tk_created_at t)) (filter (due_row now q) (dvals (se_tasks s))))"

definition record_quota_block :: "TaskRow \<Rightarrow> string \<times> int \<times> int \<Rightarrow> sql_session \<Rightarrow> sql_session" where
  "record_quota_block c err s = (case err of (scope, limit, current) \<Rightarrow>
     snd (on_task_row (tk_id c) (upd (\<lambda>t. t
       \<lparr>tk_metadata_json := dset (tk_metadata_json c) ''quota_blocking_reason''
          (VDict [(''error_code'', VStr ''runtime_quota_exceeded''), (''scope'', VStr scope),
                  (''limit'', VInt limit), (''current'', VInt current)]),
        tk_error := Some (''runtime_quota_exceeded:'' @ scope)\<rparr>)) s))"

definition claimed_row :: "string \<Rightarrow> datetime \<Rightarrow> datetime \<Rightarrow> TaskRow \<Rightarrow> TaskRow" where
  "claimed_row w until now t = t\<lparr>tk_status := Task_leased, tk_worker_id := Some w,
     tk_leased_until := Some until, tk_heartbeat_at := Some now,
     tk_fencing_token := tk_fencing_token t + 1\<rparr>"

text \<open>
  \<open>_claim_queued_task\<close>. The candidate is the row as this session loaded it; the update is evaluated on
  the table as it is then.
\<close>

type_synonym interference = "TaskRow \<Rightarrow> (int \<times> TaskRow) list \<Rightarrow> (int \<times> TaskRow) list"

definition claim_queued_task ::
  "interference \<Rightarrow> string \<Rightarrow> datetime \<Rightarrow> datetime \<Rightarrow> TaskRow \<Rightarrow> (sql_session, TaskRow option) eff" where
  "claim_queued_task others w until now c s =
     (case assert_task_transition (tk_status c) Task_leased of
        Inl e \<Rightarrow> (Inl e, s)
      | Inr _ \<Rightarrow>
          let s1 = s\<lparr>se_tasks := others c (se_tasks s)\<rparr>
          in case dget (se_tasks s1) (tk_id c) of
               None \<Rightarrow> (Inr None, s1)
             | Some t \<Rightarrow> if tk_status t = Task_queued \<and> \<not> tk_is_deleted t
                 then (Inr (Some (claimed_row w until now t)),
                       s1\<lparr>se_tasks := dset (se_tasks s1) (tk_id c) (claimed_row w until now t)\<rparr>)
                 else (Inr None, s1))"

definition quota_check :: "RuntimeQuota option \<Rightarrow> TaskRow \<Rightarrow> sql_session \<Rightarrow> exn + unit" where
  "quota_check quota c s = (case quota of None \<Rightarrow> Inr () | Some q \<Rightarrow> assert_can_lease q c s)"

fun lease_loop ::
  "interference \<Rightarrow> RuntimeQuota option \<Rightarrow> string \<Rightarrow> datetime \<Rightarrow> datetime \<Rightarrow> TaskRow list \<Rightarrow>
     (string \<times> int \<times> int) option \<Rightarrow> (sql_session, TaskRow option \<times> (string \<times> int \<times> int) option) eff" where
  "lease_loop others quota w until now [] err s = (Inr (None, err), s)"
| "lease_loop others quota w until now (c # cs) err s = (case quota_check quota c s of
     Inl (QuotaExceededError scope limit current) \<Rightarrow>
       lease_loop others quota w until now cs (Some (scope, limit, current))
         (record_quota_block c (scope, limit, current) s)
   | Inl e \<Rightarrow> (Inl e, s)
   | Inr _ \<Rightarrow> (case claim_queued_task others w until now c s of
        (Inl e, s1) \<Rightarrow> (Inl e, s1)
      | (Inr None, s1) \<Rightarrow> lease_loop others quota w until now cs err s1
      | (Inr (Some t), s1) \<Rightarrow> (Inr (Some t, err), s1)))"

definition sql_lease ::
  "interference \<Rightarrow> datetime \<Rightarrow> datetime \<Rightarrow> string \<Rightarrow> string \<Rightarrow> int \<Rightarrow> (sql_backend, sql_snapshot option) eff" where
  "sql_lease others now reap_now q w lease_seconds =
     seq (in_session (sql_reap reap_now)) (\<lambda>b.
       case candidates now q (sb_session b) of
         [] \<Rightarrow> (Inr None, b)
       | c # cs \<Rightarrow>
           (case lease_loop others (sb_quota b) w (now + seconds lease_seconds) now (c # cs) None (sb_session b) of
              (Inl e, s1) \<Rightarrow> (Inl e, b\<lparr>sb_session := s1\<rparr>)
            | (Inr (None, err), s1) \<Rightarrow> (Inr None, b\<lparr>sb_session := s1, sb_last_quota_error := err\<rparr>)
            | (Inr (Some t, _), s1) \<Rightarrow>
                (case sql_snapshot_of t s1 of
                   Inl e \<Rightarrow> (Inl e, b\<lparr>sb_session := s1, sb_last_quota_error := None\<rparr>)
                 | Inr sn \<Rightarrow> (Inr (Some sn), b\<lparr>sb_session := s1, sb_last_quota_error := None\<rparr>))))"

section \<open>The other operations\<close>

definition sql_heartbeat :: "datetime \<Rightarrow> int \<Rightarrow> string \<Rightarrow> int \<Rightarrow> (sql_backend, unit) eff" where
  "sql_heartbeat now tid w lease_seconds = in_session (on_task_row tid (row_heartbeat now w lease_seconds))"

definition sql_assert_can_complete :: "int \<Rightarrow> string \<Rightarrow> int \<Rightarrow> (sql_backend, unit) eff" where
  "sql_assert_can_complete tid w tok = in_session (on_task_row tid (seq (row_fencing_token tok) (row_owner w)))"

definition sql_complete_task :: "datetime \<Rightarrow> int \<Rightarrow> string \<Rightarrow> int \<Rightarrow> (sql_backend, unit) eff" where
  "sql_complete_task now tid w tok = in_session (on_task_row tid (row_complete now w tok))"

definition sql_fail :: "datetime \<Rightarrow> int \<Rightarrow> string \<Rightarrow> int \<Rightarrow> pydict \<Rightarrow> (sql_backend, unit) eff" where
  "sql_fail now tid w tok e =
     bnd (in_session (on_task_row tid (row_fail now w tok e)))
         (\<lambda>dead. if dead then upd (\<lambda>b. b\<lparr>sb_dead_letters := sb_dead_letters b @ [(tid, e)]\<rparr>) else ret ())"

definition sql_cancel :: "datetime \<Rightarrow> int \<Rightarrow> (sql_backend, unit) eff" where
  "sql_cancel now tid = in_session (on_task_row tid (row_cancel now))"

definition sql_mark_running :: "datetime \<Rightarrow> int \<Rightarrow> string \<Rightarrow> int \<Rightarrow> (sql_backend, unit) eff" where
  "sql_mark_running now tid w tok = in_session (on_task_row tid (row_mark_running now w tok))"

definition sql_will_retry :: "int \<Rightarrow> (sql_backend, bool) eff" where
  "sql_will_retry tid = in_session (on_task_row tid (gets (\<lambda>t. tk_attempt t + 1 < tk_max_attempts t)))"

definition sql_reap_expired_leases :: "datetime \<Rightarrow> (sql_backend, int) eff" where
  "sql_reap_expired_leases now = in_session (sql_reap now)"

end
