(* ===== verification/Sql_Safety.thy ===== *)
theory Sql_Safety
  imports Sql_Backend
begin

text \<open>
  What the database queue guarantees: every operation, also one that raises, keeps the rows under their
  ids and never lowers a fencing token, whatever other sessions do in between; hence a worker that lost
  its lease is refused for good. The contract of the task backends holds on the tables.
\<close>

section \<open>Rows stay and tokens grow\<close>

definition wf_rows :: "(int \<times> TaskRow) list \<Rightarrow> bool" where
  "wf_rows ts \<longleftrightarrow> distinct (dkeys ts) \<and> (\<forall>k t. dget ts k = Some t \<longrightarrow> tk_id t = k)"

definition rows_grow :: "(int \<times> TaskRow) list \<Rightarrow> (int \<times> TaskRow) list \<Rightarrow> bool" where
  "rows_grow ts ts' \<longleftrightarrow> (wf_rows ts \<longrightarrow> wf_rows ts' \<and> set (dkeys ts') = set (dkeys ts) \<and>
     (\<forall>k t. dget ts k = Some t \<longrightarrow> (\<exists>t'. dget ts' k = Some t' \<and> tk_fencing_token t \<le> tk_fencing_token t')))"

lemma rows_grow_refl [simp]: "rows_grow ts ts"
  by (auto simp: rows_grow_def)

lemma rows_grow_trans: "rows_grow a b \<Longrightarrow> rows_grow b c \<Longrightarrow> rows_grow a c"
  by (auto simp: rows_grow_def) (meson order_trans)

lemma rows_grow_dset:
  "dget ts k = Some t \<Longrightarrow> tk_fencing_token t \<le> tk_fencing_token t' \<Longrightarrow> tk_id t' = tk_id t \<Longrightarrow>
     rows_grow ts (dset ts k t')"
  by (auto simp: rows_grow_def wf_rows_def simp del: map_of_eq_Some_iff dest: dget_Some_in)
    (force dest: dget_Some_in)

definition ses_grows :: "sql_session \<Rightarrow> sql_session \<Rightarrow> bool" where
  "ses_grows s s' \<longleftrightarrow> rows_grow (se_tasks s) (se_tasks s') \<and> se_next_task_id s' = se_next_task_id s"

lemma ses_grows_refl [simp]: "ses_grows s s"
  by (simp add: ses_grows_def)

lemma ses_grows_trans: "ses_grows a b \<Longrightarrow> ses_grows b c \<Longrightarrow> ses_grows a c"
  by (auto simp: ses_grows_def intro: rows_grow_trans)

lemma ses_grows_wf: "ses_grows s s' \<Longrightarrow> wf_rows (se_tasks s) \<Longrightarrow> wf_rows (se_tasks s')"
  by (simp add: ses_grows_def rows_grow_def)

text \<open>A computation of the session that only makes rows grow.\<close>

definition grows :: "(sql_session, 'a) eff \<Rightarrow> bool" where
  "grows m \<longleftrightarrow> (\<forall>s. ses_grows s (snd (m s)))"

lemma growsI: "(\<And>s. ses_grows s (snd (m s))) \<Longrightarrow> grows m"
  by (simp add: grows_def)

lemma growsD: "grows m \<Longrightarrow> m s = (r, s') \<Longrightarrow> ses_grows s s'"
  by (metis grows_def snd_conv)

lemma grows_ret [simp]: "grows (ret x)"
  by (simp add: grows_def ret_def)

lemma grows_bnd: "grows m \<Longrightarrow> (\<And>x. grows (f x)) \<Longrightarrow> grows (bnd m f)"
  by (rule growsI) (auto simp: bnd_def split: prod.splits sum.splits intro: ses_grows_trans growsD dest: growsD
      simp: grows_def)

lemma grows_seq: "grows m \<Longrightarrow> grows n \<Longrightarrow> grows (seq m n)"
  by (simp add: seq_def grows_bnd)

text \<open>A computation on a row that keeps its id and does not lower its token.\<close>

definition row_grows :: "(TaskRow, 'a) eff \<Rightarrow> bool" where
  "row_grows m \<longleftrightarrow> (\<forall>t. tk_id (snd (m t)) = tk_id t \<and> tk_fencing_token t \<le> tk_fencing_token (snd (m t)))"

lemma on_task_row_grows:
  assumes "row_grows m"
  shows "grows (on_task_row k m)"
proof (rule growsI)
  fix s :: sql_session
  show "ses_grows s (snd (on_task_row k m s))"
  proof (cases "dget (se_tasks s) k")
    case (Some t)
    obtain r t' where m: "m t = (r, t')" by fastforce
    then have t': "tk_id t' = tk_id t" "tk_fencing_token t \<le> tk_fencing_token t'"
      using assms unfolding row_grows_def by (metis snd_conv)+
    have "rows_grow (se_tasks s) (dset (se_tasks s) k t')"
      using t' Some by (intro rows_grow_dset)
    then show ?thesis using Some m by (simp add: on_task_row_def on_entry_def ses_grows_def)
  qed (simp add: on_task_row_def on_entry_def)
qed

lemma row_ops_grow:
  "row_grows (row_heartbeat now w n)" "row_grows (row_complete now w tok)" "row_grows (row_fail now w tok e)"
  "row_grows (row_cancel now)" "row_grows (row_mark_running now w tok)"
  "row_grows (seq (row_fencing_token tok) (row_owner w))" "row_grows (gets g)"
  "row_grows (seq (row_status st) (upd (\<lambda>t. t\<lparr>tk_attempt := tk_attempt t + 1\<rparr>)))"
  "row_grows (seq (row_status st) (upd (\<lambda>t. t\<lparr>tk_worker_id := None, tk_leased_until := None\<rparr>)))"
  "row_grows (seq (row_status st) (upd (\<lambda>t. t\<lparr>tk_finished_at := Some now, tk_dead_letter_reason := d,
      tk_worker_id := None, tk_leased_until := None\<rparr>)))"
  by (auto simp: row_grows_def eff_simps split: sum.splits)

lemma same_tasks_grows:
  "(\<And>s. se_tasks (snd (m s)) = se_tasks s \<and> se_next_task_id (snd (m s)) = se_next_task_id s) \<Longrightarrow> grows m"
  by (simp add: grows_def ses_grows_def)

lemma reaper_event_tasks [simp]: "se_tasks (snd (reaper_event t ty p s)) = se_tasks s"
  "se_next_task_id (snd (reaper_event t ty p s)) = se_next_task_id s"
  by (simp_all add: reaper_event_def seq_def bnd_def event_append_def ret_def Let_def)

lemma fail_run_tasks [simp]: "se_tasks (snd (fail_run_for_reaper now r s)) = se_tasks s"
  "se_next_task_id (snd (fail_run_for_reaper now r s)) = se_next_task_id s"
  by (auto simp: fail_run_for_reaper_def Let_def split: option.splits sum.splits)

lemma fail_attempt_tasks [simp]: "se_tasks (snd (fail_attempt_for_reaper now a s)) = se_tasks s"
  "se_next_task_id (snd (fail_attempt_for_reaper now a s)) = se_next_task_id s"
  by (auto simp: fail_attempt_for_reaper_def put_attempt_def split: option.splits sum.splits)

lemma session_parts_grow:
  "grows (reaper_event t ty p)" "grows (fail_run_for_reaper now r)" "grows (fail_attempt_for_reaper now a)"
  by (simp_all add: same_tasks_grows)

lemma expired_parts_grow: "grows (requeue_expired la t)" "grows (dead_letter_expired now t)"
  unfolding requeue_expired_def dead_letter_expired_def
  by (intro grows_seq on_task_row_grows row_ops_grow session_parts_grow)+

lemma reap_row_grows: "grows (reap_row now tid)"
proof (rule growsI)
  fix s :: sql_session
  show "ses_grows s (snd (reap_row now tid s))"
  proof (cases "dget (se_tasks s) tid")
    case (Some t)
    let ?la = "latest_attempt (tk_id t) s"
    let ?m = "if tk_status t = Task_running then seq (fail_attempt_for_reaper now ?la)
        (if tk_attempt t + 1 \<ge> tk_max_attempts t then dead_letter_expired now t
         else seq (on_task_row (tk_id t) (seq (row_status Task_retrying)
                     (upd (\<lambda>t. t\<lparr>tk_attempt := tk_attempt t + 1\<rparr>))))
             (seq (reaper_event t ''attempt.failed'' (expired_payload t)) (requeue_expired ?la t)))
      else requeue_expired ?la t"
    have "grows ?m"
      by (simp add: expired_parts_grow grows_seq on_task_row_grows row_ops_grow session_parts_grow)
    moreover have "reap_row now tid s = ?m s" using Some by (simp add: reap_row_def Let_def)
    ultimately show ?thesis by (simp only: grows_def)
  qed (simp add: reap_row_def)
qed

lemma reap_rows_grows: "grows (reap_rows now tids)"
  by (induction tids) (auto intro!: grows_seq grows_bnd reap_row_grows)

lemma sql_reap_grows: "grows (sql_reap now)"
  using reap_rows_grows by (auto simp: grows_def sql_reap_def)

section \<open>Interference of other sessions\<close>

definition interferes :: "interference \<Rightarrow> bool" where
  "interferes others \<longleftrightarrow> (\<forall>c ts. rows_grow ts (others c ts))"

lemma no_interference [simp]: "interferes (\<lambda>_ ts. ts)"
  by (simp add: interferes_def)

lemma record_quota_block_grows: "ses_grows s (record_quota_block c err s)"
proof -
  obtain sc l n where "err = (sc, l, n)" by (cases err)
  then show ?thesis
    unfolding record_quota_block_def prod.case
    by (simp, intro on_task_row_grows [unfolded grows_def, rule_format]) (simp add: row_grows_def upd_def)
qed

lemma claim_grows:
  assumes "interferes others" "claim_queued_task others w until now c s = (r, s')" "wf_rows (se_tasks s)"
  shows "ses_grows s s'"
proof (cases "assert_task_transition (tk_status c) Task_leased")
  case (Inr u)
  have o: "rows_grow (se_tasks s) (others c (se_tasks s))" using assms(1) by (simp add: interferes_def)
  then have wf: "wf_rows (others c (se_tasks s))" using assms(3) by (simp add: rows_grow_def)
  show ?thesis
  proof (cases "dget (others c (se_tasks s)) (tk_id c)")
    case None
    with assms(2) Inr o show ?thesis by (auto simp: claim_queued_task_def ses_grows_def)
  next
    case (Some t)
    then have "tk_id t = tk_id c" using wf by (simp add: wf_rows_def)
    then have "rows_grow (others c (se_tasks s)) (dset (others c (se_tasks s)) (tk_id c) (claimed_row w until now t))"
      by (intro rows_grow_dset [OF Some]) (simp_all add: claimed_row_def)
    then show ?thesis using assms(2) Inr o Some
      by (auto simp: claim_queued_task_def Let_def ses_grows_def split: if_splits intro: rows_grow_trans)
  qed
qed (use assms(2) in \<open>simp add: claim_queued_task_def\<close>)

text \<open>
  A successful claim: the row was queued when it was updated, and its token is the one the worker gets.
\<close>

lemma claim_Some:
  assumes "interferes others" "wf_rows (se_tasks s)" "claim_queued_task others w until now c s = (Inr (Some t), s')"
  shows "dget (se_tasks s') (tk_id t) = Some t \<and> tk_status t = Task_leased \<and> tk_worker_id t = Some w \<and>
    (\<exists>t0. dget (others c (se_tasks s)) (tk_id t) = Some t0 \<and> tk_status t0 = Task_queued \<and> \<not> tk_is_deleted t0 \<and>
      t = claimed_row w until now t0)"
proof -
  have wf: "wf_rows (others c (se_tasks s))" using assms(1,2) by (auto simp: interferes_def rows_grow_def)
  obtain t0 where t0: "dget (others c (se_tasks s)) (tk_id c) = Some t0" "tk_status t0 = Task_queued" "\<not> tk_is_deleted t0"
      "t = claimed_row w until now t0" "s' = s\<lparr>se_tasks := dset (others c (se_tasks s)) (tk_id c) t\<rparr>"
    using assms(3) by (auto simp: claim_queued_task_def Let_def split: sum.splits option.splits if_splits)
  moreover have "tk_id t0 = tk_id c" using wf t0(1) by (simp add: wf_rows_def)
  ultimately show ?thesis by (simp add: claimed_row_def)
qed

lemma lease_loop_grows:
  "interferes others \<Longrightarrow> lease_loop others quota w until now cs err s = (r, s') \<Longrightarrow> wf_rows (se_tasks s) \<Longrightarrow>
     ses_grows s s' \<and>
     (\<forall>t err'. r = Inr (Some t, err') \<longrightarrow> dget (se_tasks s') (tk_id t) = Some t \<and> tk_status t = Task_leased \<and>
        tk_worker_id t = Some w)"
proof (induction cs arbitrary: err s)
  case (Cons c cs)
  have wf: "wf_rows (se_tasks x)" if "ses_grows s x" for x
    using that Cons.prems(3) by (rule ses_grows_wf)
  show ?case
  proof (cases "quota_check quota c s")
    case (Inl e)
    show ?thesis
    proof (cases "\<exists>sc l n. e = QuotaExceededError sc l n")
      case True
      then obtain sc l n where e: "e = QuotaExceededError sc l n" by blast
      let ?s = "record_quota_block c (sc, l, n) s"
      have g: "ses_grows s ?s" by (rule record_quota_block_grows)
      have "lease_loop others quota w until now cs (Some (sc, l, n)) ?s = (r, s')"
        using Cons.prems(2) Inl e by simp
      from Cons.IH [OF Cons.prems(1) this wf [OF g]] g show ?thesis by (blast intro: ses_grows_trans)
    next
      case False
      then have "r = Inl e" "s' = s" using Cons.prems(2) Inl by (auto split: exn.splits)
      then show ?thesis by simp
    qed
  next
    case (Inr u)
    obtain cr s1 where cl: "claim_queued_task others w until now c s = (cr, s1)" by fastforce
    note g = claim_grows [OF Cons.prems(1) cl Cons.prems(3)]
    consider e where "cr = Inl e" | "cr = Inr None" | t where "cr = Inr (Some t)"
      by (metis obj_sumE option.exhaust)
    then show ?thesis
    proof cases
      case 2
      with Cons.prems(2) Inr cl have "lease_loop others quota w until now cs err s1 = (r, s')" by simp
      from Cons.IH [OF Cons.prems(1) this wf [OF g]] g show ?thesis by (blast intro: ses_grows_trans)
    next
      case 3
      with Cons.prems(2) Inr cl have "r = Inr (Some t, err)" "s' = s1" by auto
      then show ?thesis using g claim_Some [OF Cons.prems(1) Cons.prems(3)] cl 3 by auto
    qed (use Cons.prems(2) Inr cl g in auto)
  qed
qed auto

section \<open>Operations of the backend\<close>

abbreviation rows :: "sql_backend \<Rightarrow> (int \<times> TaskRow) list" where
  "rows b \<equiv> se_tasks (sb_session b)"

definition wf_sql :: "sql_backend \<Rightarrow> bool" where
  "wf_sql b \<longleftrightarrow> wf_rows (rows b) \<and> (\<forall>k \<in> set (dkeys (rows b)). k < se_next_task_id (sb_session b))"

lemma in_session_grows: "grows m \<Longrightarrow> in_session m b = (r, b') \<Longrightarrow> ses_grows (sb_session b) (sb_session b')"
  by (auto simp: in_session_def split: prod.splits dest: growsD)

lemma snapshot_fields:
  "sql_snapshot_of t s = Inr sn \<Longrightarrow> sn_task_id sn = tk_id t \<and> sn_fencing_token sn = tk_fencing_token t \<and>
     sn_run_id sn = tk_run_id t"
  by (auto simp: sql_snapshot_of_def split: sum.splits option.splits)

lemma sql_lease_grows:
  assumes "interferes others" "sql_lease others now rn q w n b = (r, b')" "wf_rows (rows b)"
  shows "ses_grows (sb_session b) (sb_session b') \<and> (\<forall>sn. r = Inr (Some sn) \<longrightarrow>
    (\<exists>t. dget (rows b') (sn_task_id sn) = Some t \<and> tk_status t = Task_leased \<and> tk_worker_id t = Some w \<and>
      tk_fencing_token t = sn_fencing_token sn \<and> tk_run_id t = sn_run_id sn))"
proof -
  obtain r1 b1 where r1: "in_session (sql_reap rn) b = (r1, b1)" by fastforce
  have g1: "ses_grows (sb_session b) (sb_session b1)" using in_session_grows [OF sql_reap_grows r1] .
  then have wf: "wf_rows (rows b1)" using assms(3) by (rule ses_grows_wf)
  show ?thesis
  proof (cases r1)
    case (Inl e)
    then show ?thesis using assms(2) r1 g1 by (auto simp: sql_lease_def seq_def bnd_def)
  next
    case (Inr u)
    obtain lr s1 where l: "lease_loop others (sb_quota b1) w (now + seconds n) now (candidates now q (sb_session b1))
        None (sb_session b1) = (lr, s1)" by fastforce
    note g2 = lease_loop_grows [OF assms(1) l wf]
    then have g: "ses_grows (sb_session b) s1" using g1 ses_grows_trans by blast
    show ?thesis
      using assms(2) r1 Inr l g g1 g2
      by (auto simp: sql_lease_def seq_def bnd_def dest!: snapshot_fields
          split: list.splits sum.splits prod.splits option.splits)
  qed
qed

text \<open>
  Histories: each session performs operations of the backend in any order; a step of another session is a
  step like any other, and \<open>others\<close> lets them also fall between the two statements of a lease.
\<close>

inductive sql_step :: "sql_backend \<Rightarrow> sql_backend \<Rightarrow> bool" where
  step_enqueue: "sql_step b (snd (sql_enqueue now p b))"
| step_lease: "interferes others \<Longrightarrow> sql_step b (snd (sql_lease others now rn q w n b))"
| step_heartbeat: "sql_step b (snd (sql_heartbeat now k w n b))"
| step_mark_running: "sql_step b (snd (sql_mark_running now k w tok b))"
| step_complete: "sql_step b (snd (sql_complete_task now k w tok b))"
| step_fail: "sql_step b (snd (sql_fail now k w tok e b))"
| step_cancel: "sql_step b (snd (sql_cancel now k b))"
| step_reap: "sql_step b (snd (sql_reap_expired_leases now b))"

lemma sql_enqueue_cases:
  assumes "sql_enqueue now p b = (r, b')"
  obtains "b' = b"
  | t where "tk_id t = se_next_task_id (sb_session b)"
      "b' = b\<lparr>sb_session := (put_task t (sb_session b))\<lparr>se_next_task_id := tk_id t + 1\<rparr>\<rparr>"
proof (cases "b' = b")
  case False
  then obtain run_id tenant project where
    "b' = b\<lparr>sb_session := (put_task (new_task_row now (se_next_task_id (sb_session b)) p run_id tenant project)
       (sb_session b))\<lparr>se_next_task_id := se_next_task_id (sb_session b) + 1\<rparr>\<rparr>"
    using assms by (auto simp: sql_enqueue_def Let_def split: option.splits sum.splits)
  then show ?thesis by (intro that(2) [of "new_task_row now (se_next_task_id (sb_session b)) p run_id tenant project"])
      (simp_all add: new_task_row_def)
qed (rule that(1))

lemma sql_enqueue_kept:
  assumes "wf_sql b" "sql_enqueue now p b = (r, b')"
  shows "wf_sql b' \<and> (\<forall>k t. dget (rows b) k = Some t \<longrightarrow> dget (rows b') k = Some t)"
  using assms(2)
proof (cases rule: sql_enqueue_cases)
  case 1
  with assms(1) show ?thesis by simp
next
  case (2 t)
  have "k < tk_id t" if "(k, x) \<in> set (rows b)" for k x
    using assms(1) that 2(1) by (force simp: wf_sql_def)
  then have old: "\<And>k x. dget (rows b) k = Some x \<Longrightarrow> k < tk_id t" by (blast dest: dget_Some_in)
  have "wf_rows (dset (rows b) (tk_id t) t)"
    using assms(1) by (auto simp: wf_sql_def wf_rows_def simp del: map_of_eq_Some_iff)
  moreover have "\<forall>k \<in> set (dkeys (dset (rows b) (tk_id t) t)). k < tk_id t + 1"
    using assms(1) 2(1) by (auto simp: wf_sql_def)
  ultimately show ?thesis using old 2(2) by (auto simp: wf_sql_def put_task_def simp del: map_of_eq_Some_iff)
qed

lemma wf_sql_grows: "ses_grows (sb_session b) (sb_session b') \<Longrightarrow> wf_sql b \<Longrightarrow> wf_sql b'"
  by (simp add: wf_sql_def ses_grows_def rows_grow_def)

definition token_reached :: "int \<Rightarrow> int \<Rightarrow> sql_backend \<Rightarrow> bool" where
  "token_reached k n b \<longleftrightarrow> wf_sql b \<and> (\<exists>t. dget (rows b) k = Some t \<and> n \<le> tk_fencing_token t)"

lemma token_reached_grows:
  "ses_grows (sb_session b) (sb_session b') \<Longrightarrow> token_reached k n b \<Longrightarrow> token_reached k n b'"
  by (auto simp: token_reached_def wf_sql_grows) (meson order_trans rows_grow_def ses_grows_def wf_sql_def)

lemma sql_ops_grow:
  "ses_grows (sb_session b) (sb_session (snd (sql_heartbeat now k w n b)))"
  "ses_grows (sb_session b) (sb_session (snd (sql_mark_running now k w tok b)))"
  "ses_grows (sb_session b) (sb_session (snd (sql_complete_task now k w tok b)))"
  "ses_grows (sb_session b) (sb_session (snd (sql_cancel now k b)))"
  "ses_grows (sb_session b) (sb_session (snd (sql_reap_expired_leases now b)))"
  unfolding sql_heartbeat_def sql_mark_running_def sql_complete_task_def sql_cancel_def sql_reap_expired_leases_def
  by (rule in_session_grows [OF _ prod.collapse [symmetric]],
      simp add: on_task_row_grows row_ops_grow sql_reap_grows)+

lemma sql_fail_grows: "ses_grows (sb_session b) (sb_session (snd (sql_fail now k w tok e b)))"
proof -
  obtain r b1 where m: "in_session (on_task_row k (row_fail now w tok e)) b = (r, b1)" by fastforce
  have "ses_grows (sb_session b) (sb_session b1)"
    by (rule in_session_grows [OF on_task_row_grows [OF row_ops_grow(3)] m])
  with m show ?thesis by (cases r) (auto simp: sql_fail_def bnd_def upd_def ret_def)
qed

lemma step_token_reached: "sql_step b b' \<Longrightarrow> token_reached k n b \<Longrightarrow> token_reached k n b'"
proof (induction rule: sql_step.induct)
  case (step_enqueue b now p)
  then show ?case using sql_enqueue_kept [OF _ prod.collapse [symmetric]] by (fastforce simp: token_reached_def)
next
  case (step_lease others b now rn q w n)
  then show ?case
    using sql_lease_grows [OF step_lease.hyps prod.collapse [symmetric]] token_reached_grows
    by (meson token_reached_def wf_sql_def)
qed (blast intro: token_reached_grows sql_ops_grow sql_fail_grows)+

lemma steps_token_reached: "sql_step\<^sup>*\<^sup>* b b' \<Longrightarrow> token_reached k n b \<Longrightarrow> token_reached k n b'"
  by (induction rule: rtranclp_induct) (auto intro: step_token_reached)

lemma stale_token_refused:
  assumes "token_reached k n b" "tok < n"
  shows "sql_complete_task now k w tok b = (Inl (StaleFencingTokenError k), b)"
    and "sql_fail now k w tok e b = (Inl (StaleFencingTokenError k), b)"
proof -
  obtain t where t: "dget (rows b) k = Some t" "tok \<noteq> tk_fencing_token t" "tk_id t = k"
    using assms by (auto simp: token_reached_def wf_sql_def wf_rows_def)
  then show "sql_complete_task now k w tok b = (Inl (StaleFencingTokenError k), b)"
    "sql_fail now k w tok e b = (Inl (StaleFencingTokenError k), b)"
    by (simp_all add: sql_complete_task_def sql_fail_def in_session_def on_task_row_def on_entry_def row_complete_def
        row_fail_def row_fencing_token_def seq_def bnd_def AList.update_triv)
qed


text \<open>A queue with one task, leased by \<open>w1\<close>, whose lease expires, and then by \<open>w2\<close>.\<close>

definition empty_sql :: "RuntimeQuota option \<Rightarrow> sql_backend" where
  "empty_sql quota = \<lparr>sb_session = \<lparr>se_tasks = [], se_runs = [], se_attempts = [], se_events = [], se_next_task_id = 1,
     se_next_run_id = 1, se_next_attempt_id = 1\<rparr>,
     sb_quota = quota, sb_last_quota_error = None, sb_dead_letters = []\<rparr>"

definition demo_job :: task_payload where
  "demo_job = empty_payload\<lparr>p_run_id := Some 7, p_tenant_id := Some 1, p_project_id := Some 1\<rparr>"

definition demo_sql :: sql_backend where
  "demo_sql = snd (sql_lease (\<lambda>_ ts. ts) 9 9 ''default'' ''w1'' 30 (snd (sql_enqueue 0 demo_job (empty_sql None))))"

lemma wf_empty_sql: "wf_sql (empty_sql quota)"
  by (simp add: wf_sql_def wf_rows_def empty_sql_def)

lemma demo_sql_wf: "wf_sql demo_sql"
proof -
  let ?b = "snd (sql_enqueue 0 demo_job (empty_sql None))"
  have b: "wf_sql ?b" using sql_enqueue_kept [OF wf_empty_sql prod.collapse [symmetric]] by blast
  then have "wf_rows (rows ?b)" by (simp add: wf_sql_def)
  from sql_lease_grows [OF no_interference prod.collapse [symmetric] this] b show ?thesis
    unfolding demo_sql_def using wf_sql_grows by blast
qed

lemma demo_sql_second:
  "(case fst (sql_lease (\<lambda>_ ts. ts) 40000000 40000000 ''default'' ''w2'' 30 demo_sql) of
      Inr (Some sn) \<Rightarrow> sn_task_id sn = 1 \<and> sn_fencing_token sn = 2 | _ \<Rightarrow> False)"
  by code_simp


section \<open>The contract of the task backends\<close>

definition sql_view :: "sql_backend \<Rightarrow> int \<Rightarrow> task_view option" where
  "sql_view b k = map_option (\<lambda>t. \<lparr>v_run_id = tk_run_id t, v_status = tk_status t, v_worker_id = tk_worker_id t,
     v_token = tk_fencing_token t, v_attempt = tk_attempt t, v_max_attempts = tk_max_attempts t\<rparr>) (dget (rows b) k)"

text \<open>The operations a worker calls, in a session nobody interferes with, at the clock reading \<open>now\<close>.\<close>

definition sql_ops :: "datetime \<Rightarrow> sql_backend task_backend_ops" where
  "sql_ops now = \<lparr>op_lease = (\<lambda>q w n. bnd (sql_lease (\<lambda>_ ts. ts) now now q w n)
       (\<lambda>sn. ret (map_option task_snapshot.truncate sn))),
     op_mark_running = sql_mark_running now, op_assert_can_complete = sql_assert_can_complete,
     op_will_retry = sql_will_retry, op_complete = sql_complete_task now, op_fail = sql_fail now\<rparr>"

lemmas sql_op_defs = sql_mark_running_def sql_assert_can_complete_def sql_will_retry_def sql_complete_task_def
  sql_fail_def in_session_def on_task_row_def on_entry_def

lemma sql_view_upd:
  "dget (rows b) k = Some t \<Longrightarrow>
     sql_view (b\<lparr>sb_session := (sb_session b)\<lparr>se_tasks := dset (rows b) k t'\<rparr>\<rparr>) =
       (sql_view b)(k \<mapsto> \<lparr>v_run_id = tk_run_id t', v_status = tk_status t', v_worker_id = tk_worker_id t',
         v_token = tk_fencing_token t', v_attempt = tk_attempt t', v_max_attempts = tk_max_attempts t'\<rparr>)"
  by (rule ext) (simp add: sql_view_def)

lemma wf_sql_dset:
  "wf_sql b \<Longrightarrow> dget (rows b) k = Some t \<Longrightarrow> tk_id t' = tk_id t \<Longrightarrow>
     wf_sql (b\<lparr>sb_session := (sb_session b)\<lparr>se_tasks := dset (rows b) k t'\<rparr>\<rparr>)"
  by (auto simp: wf_sql_def wf_rows_def simp del: map_of_eq_Some_iff dest: dget_Some_in)
    (force dest: dget_Some_in)+

lemma sql_view_Some:
  "wf_sql b \<Longrightarrow> sql_view b k = Some v \<longleftrightarrow> (\<exists>t. dget (rows b) k = Some t \<and> tk_id t = k \<and>
     v = \<lparr>v_run_id = tk_run_id t, v_status = tk_status t, v_worker_id = tk_worker_id t,
     v_token = tk_fencing_token t, v_attempt = tk_attempt t, v_max_attempts = tk_max_attempts t\<rparr>)"
  by (auto simp: sql_view_def wf_sql_def wf_rows_def simp del: map_of_eq_Some_iff)

lemma sql_check:
  assumes "wf_sql b"
  shows "view_check k w tok (sql_view b k) = (case dget (rows b) k of
       None \<Rightarrow> Inl KeyError
     | Some t \<Rightarrow> if tk_fencing_token t \<noteq> tok then Inl (StaleFencingTokenError k)
                else if tk_worker_id t \<noteq> Some w then Inl (TaskLeaseError k) else Inr ())"
  by (simp add: view_check_def sql_view_def split: option.splits)

lemma sql_fail_contract:
  assumes "wf_sql b" "dget (rows b) tid = Some t" "tk_fencing_token t = tok" "tk_worker_id t = Some w"
    "tk_status t = Task_running" and v: "v = \<lparr>v_run_id = tk_run_id t, v_status = tk_status t, v_worker_id = tk_worker_id t,
     v_token = tk_fencing_token t, v_attempt = tk_attempt t, v_max_attempts = tk_max_attempts t\<rparr>"
  shows "\<exists>b'. op_fail (sql_ops now) tid w tok e b = (Inr (), b') \<and> wf_sql b' \<and>
    sql_view b' = (sql_view b)(tid \<mapsto> view_failed v)"
proof -
  let ?d = "t\<lparr>tk_error := Some (error_message e), tk_status := Task_dead_letter, tk_finished_at := Some now,
     tk_dead_letter_reason := Some (error_message e), tk_leased_until := None\<rparr>"
  let ?q = "t\<lparr>tk_error := Some (error_message e), tk_attempt := tk_attempt t + 1,
     tk_worker_id := None, tk_leased_until := None, tk_status := Task_queued\<rparr>"
  let ?t = "if tk_attempt t + 1 \<ge> tk_max_attempts t then ?d else ?q"
  let ?b = "b\<lparr>sb_session := (sb_session b)\<lparr>se_tasks := dset (rows b) tid ?t\<rparr>\<rparr>"
  have "op_fail (sql_ops now) tid w tok e b = (Inr (), if tk_attempt t + 1 \<ge> tk_max_attempts t
      then ?b\<lparr>sb_dead_letters := sb_dead_letters b @ [(tid, e)]\<rparr> else ?b)"
    using assms(2-5) by (simp add: sql_ops_def sql_op_defs eff_simps task_transition_table)
  moreover have "wf_sql ?b" by (rule wf_sql_dset [OF assms(1,2)]) simp
  then have "wf_sql (?b\<lparr>sb_dead_letters := ds\<rparr>)" for ds by (simp add: wf_sql_def)
  moreover have "sql_view (x\<lparr>sb_dead_letters := ds\<rparr>) = sql_view x" for x ds by (rule ext) (simp add: sql_view_def)
  ultimately show ?thesis
    using \<open>wf_sql ?b\<close> sql_view_upd [OF assms(2), of ?t] v by (auto simp: view_failed_def retries_left_def)
qed

interpretation sql_queue: runtime_task_backend "sql_ops now" sql_view wf_sql
proof (unfold_locales, goal_cases)
  case (1 b q w n sn b')
  then obtain sn' where l: "sql_lease (\<lambda>_ ts. ts) now now q w n b = (Inr (Some sn'), b')" "sn = task_snapshot.truncate sn'"
    by (auto simp: sql_ops_def bnd_def ret_def split: prod.splits sum.splits)
  have "wf_rows (rows b)" using 1(1) by (simp add: wf_sql_def)
  from sql_lease_grows [OF no_interference l(1) this] show ?case
    by (auto simp: sql_view_def l(2) task_snapshot.defs)
next
  case (2 b q w n r b')
  then obtain r' where l: "sql_lease (\<lambda>_ ts. ts) now now q w n b = (r', b')"
    by (auto simp: sql_ops_def bnd_def ret_def split: prod.splits sum.splits)
  have "wf_rows (rows b)" using 2(1) by (simp add: wf_sql_def)
  from sql_lease_grows [OF no_interference l this] 2(1) show ?case using wf_sql_grows by blast
next
  case (3 b tid w tok)
  then show ?case
    by (auto simp: sql_check sql_ops_def sql_op_defs seq_def bnd_def row_fencing_token_def row_owner_def
        AList.update_triv wf_sql_def wf_rows_def simp del: map_of_eq_Some_iff split: option.splits)
next
  case (4 b tid v)
  then show ?case
    by (auto simp: sql_view_Some sql_ops_def sql_op_defs gets_def retries_left_def AList.update_triv)
next
  case (5 b tid v tok w)
  then obtain t where t: "dget (rows b) tid = Some t" "tk_fencing_token t = tok" "tk_worker_id t = Some w"
      "tk_status t = Task_leased" and v: "v = \<lparr>v_run_id = tk_run_id t, v_status = tk_status t, v_worker_id = tk_worker_id t,
     v_token = tk_fencing_token t, v_attempt = tk_attempt t, v_max_attempts = tk_max_attempts t\<rparr>"
    by (auto simp: sql_view_Some)
  let ?t = "t\<lparr>tk_status := Task_running, tk_started_at := Some (or_else (tk_started_at t) now)\<rparr>"
  have "op_mark_running (sql_ops now) tid w tok b =
      (Inr (), b\<lparr>sb_session := (sb_session b)\<lparr>se_tasks := dset (rows b) tid ?t\<rparr>\<rparr>)"
    using t by (simp add: sql_ops_def sql_op_defs eff_simps task_transition_table)
  then show ?case using wf_sql_dset [OF 5(1) t(1), of ?t] sql_view_upd [OF t(1), of ?t] v by auto
next
  case (6 b tid v tok w)
  then obtain t where t: "dget (rows b) tid = Some t" "tk_fencing_token t = tok" "tk_worker_id t = Some w"
      "tk_status t = Task_running" and v: "v = \<lparr>v_run_id = tk_run_id t, v_status = tk_status t, v_worker_id = tk_worker_id t,
     v_token = tk_fencing_token t, v_attempt = tk_attempt t, v_max_attempts = tk_max_attempts t\<rparr>"
    by (auto simp: sql_view_Some)
  let ?t = "t\<lparr>tk_status := Task_succeeded, tk_finished_at := Some now, tk_leased_until := None\<rparr>"
  have "op_complete (sql_ops now) tid w tok b =
      (Inr (), b\<lparr>sb_session := (sb_session b)\<lparr>se_tasks := dset (rows b) tid ?t\<rparr>\<rparr>)"
    using t by (simp add: sql_ops_def sql_op_defs eff_simps task_transition_table)
  then show ?case using wf_sql_dset [OF 6(1) t(1), of ?t] sql_view_upd [OF t(1), of ?t] v by auto
next
  case (7 b tid v tok w e)
  then obtain t where t: "dget (rows b) tid = Some t" "tk_fencing_token t = tok" "tk_worker_id t = Some w"
      "tk_status t = Task_running" and v: "v = \<lparr>v_run_id = tk_run_id t, v_status = tk_status t, v_worker_id = tk_worker_id t,
     v_token = tk_fencing_token t, v_attempt = tk_attempt t, v_max_attempts = tk_max_attempts t\<rparr>"
    by (auto simp: sql_view_Some)
  show ?case by (rule sql_fail_contract [OF 7(1) t v])
next
  case (8 b tid w tok x)
  then show ?case
    by (auto simp: sql_check sql_ops_def sql_op_defs seq_def bnd_def row_complete_def row_fencing_token_def row_owner_def
        AList.update_triv wf_sql_def wf_rows_def simp del: map_of_eq_Some_iff split: option.splits if_splits)
next
  case (9 b tid w tok x e)
  then show ?case
    by (auto simp: sql_check sql_ops_def sql_op_defs seq_def bnd_def row_fail_def row_fencing_token_def row_owner_def
        AList.update_triv wf_sql_def wf_rows_def simp del: map_of_eq_Some_iff split: option.splits if_splits)
qed

end
