(* ===== verification/Sql_Reaper.thy ===== *)
theory Sql_Reaper
  imports Sql_Safety
begin

text \<open>
  What the reaper of the database queue does to every expired lease, to the attempts and to the runs, and
  the one situation in which it raises: a task out of attempts whose run can no longer fail. As a lease
  reaps first and its transaction is rolled back, that single row blocks all queues.
\<close>

section \<open>The effect on one row\<close>

definition exhausted :: "TaskRow \<Rightarrow> bool" where
  "exhausted t \<longleftrightarrow> tk_status t = Task_running \<and> tk_max_attempts t \<le> tk_attempt t + 1"

definition reaped_row :: "datetime \<Rightarrow> TaskRow \<Rightarrow> TaskRow" where
  "reaped_row now t =
     (if \<not> expired_row now t then t
      else if exhausted t then t\<lparr>tk_status := Task_dead_letter, tk_finished_at := Some now,
        tk_dead_letter_reason := Some ''lease_expired'', tk_worker_id := None, tk_leased_until := None\<rparr>
      else if tk_status t = Task_running then t\<lparr>tk_attempt := tk_attempt t + 1, tk_status := Task_queued,
        tk_worker_id := None, tk_leased_until := None\<rparr>
      else t\<lparr>tk_status := Task_queued, tk_worker_id := None, tk_leased_until := None\<rparr>)"

definition failable :: "RunRow \<Rightarrow> bool" where
  "failable r \<longleftrightarrow> rw_status r \<in> {Run_pending, Run_running, Run_failed}"

definition failed_run :: "datetime \<Rightarrow> RunRow \<Rightarrow> RunRow" where
  "failed_run now r = (if rw_status r = Run_failed then r
     else if rw_status r = Run_pending then r\<lparr>rw_started_at := Some (or_else (rw_started_at r) now),
       rw_status := Run_failed, rw_error := Some ''lease_expired'', rw_finished_at := Some now\<rparr>
     else r\<lparr>rw_status := Run_failed, rw_error := Some ''lease_expired'', rw_finished_at := Some now\<rparr>)"

lemma failed_run_idem [simp]: "failed_run now (failed_run now r) = failed_run now r"
  by (simp add: failed_run_def)

lemma failed_run_failable [simp]: "failable (failed_run now r)"
  by (simp add: failed_run_def failable_def)

lemma fail_attempt_ok:
  "\<exists>as. fail_attempt_for_reaper now a s = (Inr (), s\<lparr>se_attempts := as\<rparr>)"
proof (cases "\<exists>x. a = Some x \<and> ra_status x = Attempt_running")
  case False
  then have "fail_attempt_for_reaper now a s = (Inr (), s)"
    by (auto simp: fail_attempt_for_reaper_def split: option.splits)
  then show ?thesis by (intro exI [of _ "se_attempts s"]) simp
qed (auto simp: fail_attempt_for_reaper_def put_attempt_def attempt_transition_table)

lemma fail_run_ok:
  assumes "\<And>r. dget (se_runs s) rid = Some r \<Longrightarrow> failable r"
  shows "\<exists>rs. fail_run_for_reaper now rid s = (Inr (), s\<lparr>se_runs := rs\<rparr>) \<and>
    (\<forall>k. dget rs k = map_option (\<lambda>r. if k = rid then failed_run now r else r) (dget (se_runs s) k))"
proof (cases "dget (se_runs s) rid")
  case None
  have runs: "dget (se_runs s) k = map_option (\<lambda>r. if k = rid then failed_run now r else r) (dget (se_runs s) k)" for k
    using None by (cases "dget (se_runs s) k"; cases "k = rid") simp_all
  have "fail_run_for_reaper now rid s = (Inr (), s\<lparr>se_runs := se_runs s\<rparr>)"
    using None by (simp add: fail_run_for_reaper_def)
  then show ?thesis by (intro exI [of _ "se_runs s"] conjI allI runs)
next
  case (Some r)
  let ?rs = "if rw_status r = Run_failed then se_runs s else dset (se_runs s) rid (failed_run now r)"
  have "fail_run_for_reaper now rid s = (Inr (), s\<lparr>se_runs := ?rs\<rparr>)"
    using Some assms [OF Some]
    by (auto simp: fail_run_for_reaper_def failable_def failed_run_def run_transition_table Let_def)
  moreover have "dget ?rs k = map_option (\<lambda>r. if k = rid then failed_run now r else r) (dget (se_runs s) k)" for k
    using Some by (cases "dget (se_runs s) k"; cases "k = rid") (simp_all add: failed_run_def)
  ultimately show ?thesis by (intro exI [of _ ?rs] conjI allI)
qed

lemma events_kept_only [simp]:
  "events_kept (s\<lparr>se_tasks := ts\<rparr>) = events_kept s" "events_kept (s\<lparr>se_runs := rs\<rparr>) = events_kept s"
  "events_kept (s\<lparr>se_attempts := as\<rparr>) = events_kept s"
  by (simp_all add: events_kept_def)

text \<open>A computation that succeeds and only adds events.\<close>

definition emits :: "(sql_session, unit) eff \<Rightarrow> bool" where
  "emits m \<longleftrightarrow> (\<forall>s. events_kept s \<longrightarrow>
     (\<exists>es. m s = (Inr (), s\<lparr>se_events := es\<rparr>) \<and> events_kept (s\<lparr>se_events := es\<rparr>)))"

lemma emits_event: "emits (reaper_event t ty p)"
  unfolding emits_def
proof (intro allI impI)
  fix s :: sql_session
  assume "events_kept s"
  from event_append_ok [OF this, of "tk_run_id t" "tk_tenant_id t" "tk_project_id t" ty "Some p" None None "''internal''"]
  show "\<exists>es. reaper_event t ty p s = (Inr (), s\<lparr>se_events := es\<rparr>) \<and> events_kept (s\<lparr>se_events := es\<rparr>)"
    by (auto simp: reaper_event_def seq_def bnd_def ret_def)
qed

lemma emits_seq: "emits m \<Longrightarrow> emits n \<Longrightarrow> emits (seq m n)"
  by (force simp: emits_def seq_def bnd_def)

lemma emitsD: "emits m \<Longrightarrow> events_kept s \<Longrightarrow> \<exists>es. m s = (Inr (), s\<lparr>se_events := es\<rparr>) \<and> events_kept (s\<lparr>se_events := es\<rparr>)"
  by (simp add: emits_def)

lemma dead_letter_ok:
  assumes "dget (se_tasks s) (tk_id t) = Some t" "expired_row now t" "exhausted t" "events_kept s"
    "\<And>r. dget (se_runs s) (tk_run_id t) = Some r \<Longrightarrow> failable r"
  shows "\<exists>rs es. dead_letter_expired now t s =
      (Inr (), s\<lparr>se_tasks := dset (se_tasks s) (tk_id t) (reaped_row now t), se_runs := rs, se_events := es\<rparr>) \<and>
    events_kept (s\<lparr>se_events := es\<rparr>) \<and>
    (\<forall>k. dget rs k = map_option (\<lambda>r. if k = tk_run_id t then failed_run now r else r) (dget (se_runs s) k))"
proof -
  let ?s1 = "s\<lparr>se_tasks := dset (se_tasks s) (tk_id t) (reaped_row now t)\<rparr>"
  obtain rs where rs: "fail_run_for_reaper now (tk_run_id t) ?s1 = (Inr (), ?s1\<lparr>se_runs := rs\<rparr>)"
      "\<forall>k. dget rs k = map_option (\<lambda>r. if k = tk_run_id t then failed_run now r else r) (dget (se_runs s) k)"
    using fail_run_ok [where s = ?s1 and rid = "tk_run_id t" and now = now] assms(5) by auto
  have row: "on_task_row (tk_id t) (seq (row_status Task_dead_letter)
            (upd (\<lambda>t. t\<lparr>tk_finished_at := Some now, tk_dead_letter_reason := Some ''lease_expired'',
                        tk_worker_id := None, tk_leased_until := None\<rparr>))) s = (Inr (), ?s1)"
    using assms(1-3) by (simp add: on_task_row_def reaped_row_def exhausted_def eff_simps task_transition_table)
  let ?events = "seq (reaper_event t ''attempt.failed'' (expired_payload t))
    (seq (reaper_event t ''task.dead_letter'' (expired_payload t))
    (seq (reaper_event t ''run.failed'' (expired_payload t)) (reaper_event t ''stream.failed'' (expired_payload t))))"
  have "emits ?events" by (intro emits_seq emits_event)
  then obtain es where es: "?events (?s1\<lparr>se_runs := rs\<rparr>) = (Inr (), ?s1\<lparr>se_runs := rs, se_events := es\<rparr>)"
      "events_kept (?s1\<lparr>se_runs := rs, se_events := es\<rparr>)"
    using emitsD [of ?events "?s1\<lparr>se_runs := rs\<rparr>"] assms(4) by auto
  have "dead_letter_expired now t s = (Inr (), ?s1\<lparr>se_runs := rs, se_events := es\<rparr>)"
    unfolding dead_letter_expired_def seq_def [of "on_task_row _ _"] seq_def [of "fail_run_for_reaper _ _"]
    by (simp add: bnd_def row rs es(1))
  then show ?thesis using rs(2) es(2) by (auto simp: events_kept_def)
qed

lemma requeue_ok:
  assumes "dget (se_tasks s) (tk_id u) = Some t" "tk_status t \<in> {Task_leased, Task_retrying}" "events_kept s"
  shows "\<exists>es. requeue_expired la u s = (Inr (), s\<lparr>se_tasks := dset (se_tasks s) (tk_id u)
      (t\<lparr>tk_status := Task_queued, tk_worker_id := None, tk_leased_until := None\<rparr>), se_events := es\<rparr>) \<and>
    events_kept (s\<lparr>se_events := es\<rparr>)"
proof -
  let ?s1 = "s\<lparr>se_tasks := dset (se_tasks s) (tk_id u)
      (t\<lparr>tk_status := Task_queued, tk_worker_id := None, tk_leased_until := None\<rparr>)\<rparr>"
  have row: "on_task_row (tk_id u) (seq (row_status Task_queued)
            (upd (\<lambda>t. t\<lparr>tk_worker_id := None, tk_leased_until := None\<rparr>))) s = (Inr (), ?s1)"
    using assms(1,2) by (auto simp: on_task_row_def eff_simps task_transition_table)
  obtain es where "reaper_event u (if la \<noteq> None then ''task.retrying'' else ''task.lease_expired'')
      [(''task_id'', VInt (tk_id u)), (''status'', VStr ''queued''), (''reason'', VStr ''lease_expired'')] ?s1 =
      (Inr (), ?s1\<lparr>se_events := es\<rparr>)" "events_kept (?s1\<lparr>se_events := es\<rparr>)"
    using emitsD [OF emits_event, where s = ?s1] assms(3) by (metis events_kept_only(1))
  then show ?thesis using row by (auto simp: requeue_expired_def seq_def bnd_def events_kept_def)
qed

lemma reap_row_ok:
  assumes "dget (se_tasks s) tid = Some t" "tk_id t = tid" "expired_row now t" "events_kept s"
    "\<And>r. exhausted t \<Longrightarrow> dget (se_runs s) (tk_run_id t) = Some r \<Longrightarrow> failable r"
  shows "\<exists>s'. reap_row now tid s = (Inr (), s') \<and> se_tasks s' = dset (se_tasks s) tid (reaped_row now t) \<and>
    events_kept s' \<and>
    (\<forall>k. dget (se_runs s') k = map_option (\<lambda>r. if exhausted t \<and> k = tk_run_id t then failed_run now r else r) (dget (se_runs s) k))"
proof -
  let ?la = "latest_attempt (tk_id t) s"
  have id: "map_option (\<lambda>r. r) x = x" for x :: "RunRow option" by (cases x) simp_all
  consider "exhausted t" | "tk_status t = Task_running" "\<not> exhausted t" | "tk_status t = Task_leased"
    using assms(3) by (auto simp: expired_row_def active_row_def)
  then show ?thesis
  proof cases
    case 1
    obtain as where as: "fail_attempt_for_reaper now ?la s = (Inr (), s\<lparr>se_attempts := as\<rparr>)"
      using fail_attempt_ok by blast
    have "tk_status t = Task_running" "tk_max_attempts t \<le> tk_attempt t + 1" using 1 by (auto simp: exhausted_def)
    then show ?thesis
      using dead_letter_ok [where s = "s\<lparr>se_attempts := as\<rparr>" and t = t and now = now] 1 as assms
      by (auto simp: reap_row_def Let_def seq_def bnd_def events_kept_def)
  next
    case 2
    obtain as where as: "fail_attempt_for_reaper now ?la s = (Inr (), s\<lparr>se_attempts := as\<rparr>)"
      using fail_attempt_ok by blast
    let ?t = "t\<lparr>tk_status := Task_retrying, tk_attempt := tk_attempt t + 1\<rparr>"
    let ?s1 = "s\<lparr>se_attempts := as, se_tasks := dset (se_tasks s) tid ?t\<rparr>"
    have row: "on_task_row tid (seq (row_status Task_retrying) (upd (\<lambda>t. t\<lparr>tk_attempt := tk_attempt t + 1\<rparr>)))
        (s\<lparr>se_attempts := as\<rparr>) = (Inr (), ?s1)"
      using assms(1) 2 by (simp add: on_task_row_def eff_simps task_transition_table)
    obtain es where es: "reaper_event t ''attempt.failed'' (expired_payload t) ?s1 = (Inr (), ?s1\<lparr>se_events := es\<rparr>)"
        "events_kept (?s1\<lparr>se_events := es\<rparr>)"
      using emitsD [OF emits_event, where s = ?s1] assms(4) by (metis events_kept_only(1,3))
    show ?thesis
      using requeue_ok [where s = "?s1\<lparr>se_events := es\<rparr>" and u = t and t = ?t and la = ?la] 2 as row es assms
      by (auto simp: reap_row_def Let_def seq_def bnd_def events_kept_def exhausted_def reaped_row_def id)
  next
    case 3
    then show ?thesis
      using requeue_ok [where s = s and u = t and t = t and la = ?la] assms
      by (auto simp: reap_row_def Let_def events_kept_def exhausted_def reaped_row_def id)
  qed
qed

section \<open>The effect on the tables\<close>

text \<open>Some task of the list takes the run with it.\<close>

definition takes_run :: "sql_session \<Rightarrow> int list \<Rightarrow> int \<Rightarrow> bool" where
  "takes_run s ids rid \<longleftrightarrow> list_ex (\<lambda>i. case dget (se_tasks s) i of None \<Rightarrow> False
     | Some t \<Rightarrow> exhausted t \<and> tk_run_id t = rid) ids"

definition reapable :: "datetime \<Rightarrow> sql_session \<Rightarrow> int \<Rightarrow> bool" where
  "reapable now s i \<longleftrightarrow> (case dget (se_tasks s) i of None \<Rightarrow> False
     | Some t \<Rightarrow> tk_id t = i \<and> expired_row now t \<and> (exhausted t \<longrightarrow>
         (case dget (se_runs s) (tk_run_id t) of None \<Rightarrow> True | Some r \<Rightarrow> failable r)))"

lemma reap_rows_ok:
  "distinct ids \<Longrightarrow> list_all (reapable now s) ids \<Longrightarrow> events_kept s \<Longrightarrow>
   \<exists>s'. reap_rows now ids s = (Inr (int (length ids)), s') \<and> events_kept s' \<and>
     (\<forall>k. dget (se_tasks s') k = (if k \<in> set ids then map_option (reaped_row now) (dget (se_tasks s) k) else dget (se_tasks s) k)) \<and>
     (\<forall>k. dget (se_runs s') k = map_option (\<lambda>r. if takes_run s ids k then failed_run now r else r) (dget (se_runs s) k))"
proof (induction ids arbitrary: s)
  case Nil
  have id: "map_option (\<lambda>r. r) x = x" for x :: "RunRow option" by (cases x) simp_all
  show ?case using Nil by (simp add: takes_run_def ret_def id)
next
  case (Cons i ids)
  obtain t where t: "dget (se_tasks s) i = Some t" "tk_id t = i" "expired_row now t"
      "\<And>r. exhausted t \<Longrightarrow> dget (se_runs s) (tk_run_id t) = Some r \<Longrightarrow> failable r"
    using Cons.prems(2) by (auto simp: reapable_def split: option.splits)
  obtain s1 where s1: "reap_row now i s = (Inr (), s1)" "se_tasks s1 = dset (se_tasks s) i (reaped_row now t)" "events_kept s1"
      and runs: "\<And>k. dget (se_runs s1) k = map_option (\<lambda>r. if exhausted t \<and> k = tk_run_id t then failed_run now r else r) (dget (se_runs s) k)"
    using reap_row_ok [OF t(1-3) Cons.prems(3) t(4)] by blast
  have other: "dget (se_tasks s1) j = dget (se_tasks s) j" if "j \<in> set ids" for j
    using that Cons.prems(1) s1(2) by auto
  have "reapable now s1 j" if "j \<in> set ids" for j
    using that Cons.prems(2) other [OF that] runs
    by (auto simp: reapable_def list_all_iff split: option.splits)
  then have "list_all (reapable now s1) ids" by (simp add: list_all_iff)
  from Cons.IH [OF _ this s1(3)] Cons.prems(1) obtain s2 where
    s2: "reap_rows now ids s1 = (Inr (int (length ids)), s2)" "events_kept s2"
    and t2: "\<And>k. dget (se_tasks s2) k = (if k \<in> set ids then map_option (reaped_row now) (dget (se_tasks s1) k) else dget (se_tasks s1) k)"
    and r2: "\<And>k. dget (se_runs s2) k = map_option (\<lambda>r. if takes_run s1 ids k then failed_run now r else r) (dget (se_runs s1) k)"
    by auto
  have same: "takes_run s1 ids k = takes_run s ids k" for k
    unfolding takes_run_def list_ex_iff using other by (metis (no_types, lifting))
  have "takes_run s (i # ids) k \<longleftrightarrow> exhausted t \<and> k = tk_run_id t \<or> takes_run s ids k" for k
    using t(1) by (auto simp: takes_run_def)
  then have "dget (se_runs s2) k = map_option (\<lambda>r. if takes_run s (i # ids) k then failed_run now r else r) (dget (se_runs s) k)" for k
    unfolding r2 runs same by (cases "dget (se_runs s) k") simp_all
  moreover have "dget (se_tasks s2) k =
      (if k \<in> set (i # ids) then map_option (reaped_row now) (dget (se_tasks s) k) else dget (se_tasks s) k)" for k
    using t2 other s1(2) t(1) Cons.prems(1) by (cases "k = i") auto
  ultimately show ?case using s1(1) s2 by (simp add: seq_def bnd_def ret_def)
qed

definition expired_ids :: "datetime \<Rightarrow> sql_session \<Rightarrow> int list" where
  "expired_ids now s = map tk_id (filter (expired_row now) (dvals (se_tasks s)))"

lemma wf_rows_member: "wf_rows ts \<Longrightarrow> t \<in> set (dvals ts) \<Longrightarrow> dget ts (tk_id t) = Some t"
  by (force simp: wf_rows_def dest: dget_of_mem)

lemma expired_ids_iff:
  assumes "wf_rows (se_tasks s)"
  shows "i \<in> set (expired_ids now s) \<longleftrightarrow> (\<exists>t. dget (se_tasks s) i = Some t \<and> expired_row now t)"
proof
  assume "i \<in> set (expired_ids now s)"
  then obtain t where "t \<in> set (dvals (se_tasks s))" "expired_row now t" "i = tk_id t"
    by (auto simp: expired_ids_def)
  then show "\<exists>t. dget (se_tasks s) i = Some t \<and> expired_row now t" using wf_rows_member [OF assms] by blast
next
  assume "\<exists>t. dget (se_tasks s) i = Some t \<and> expired_row now t"
  then obtain t where t: "dget (se_tasks s) i = Some t" "expired_row now t" by blast
  then have "tk_id t = i" using assms by (simp add: wf_rows_def)
  moreover have "t \<in> set (dvals (se_tasks s))" using t(1) by (rule dget_in_dvals)
  ultimately show "i \<in> set (expired_ids now s)" using t(2) unfolding expired_ids_def set_map set_filter by blast
qed

lemma distinct_dvals_ids:
  assumes "wf_rows (se_tasks s)"
  shows "distinct (map tk_id (dvals (se_tasks s)))"
proof -
  have "map tk_id (dvals (se_tasks s)) = dkeys (se_tasks s)"
    using assms by (auto simp: wf_rows_def intro!: map_cong)
  moreover have "distinct (dkeys (se_tasks s))" using assms by (simp add: wf_rows_def)
  ultimately show ?thesis by (simp only:)
qed

lemma distinct_expired_ids: "wf_rows (se_tasks s) \<Longrightarrow> distinct (expired_ids now s)"
  unfolding expired_ids_def by (intro distinct_map_filter distinct_dvals_ids)

lemma takes_expired:
  assumes "wf_rows (se_tasks s)"
  shows "takes_run s (expired_ids now s) k \<longleftrightarrow>
    list_ex (\<lambda>t. expired_row now t \<and> exhausted t \<and> tk_run_id t = k) (dvals (se_tasks s))"
proof -
  have "(case dget (se_tasks s) (tk_id t) of None \<Rightarrow> False | Some u \<Rightarrow> exhausted u \<and> tk_run_id u = k) \<longleftrightarrow>
      exhausted t \<and> tk_run_id t = k" if "t \<in> set (dvals (se_tasks s))" for t
    using wf_rows_member [OF assms that] by simp
  then show ?thesis unfolding takes_run_def expired_ids_def list_ex_iff set_map set_filter by blast
qed

text \<open>
  C9: What reaping does on the database, when no event has been deleted and every expired task that is
  out of attempts belongs to a run that is pending, running, failed or gone. It succeeds and returns the
  number of expired leases. A leased task goes back to the queue; a running one goes back with its attempt
  counted, or, when that was its last attempt, is dead-lettered; no other task changes. Exactly the runs of
  the dead-lettered tasks become failed, with the reason, unless they had failed before.
\<close>

theorem sql_reap_exact:
  assumes "wf_rows (se_tasks s)" "events_kept s"
    "list_all (\<lambda>t. expired_row now t \<and> exhausted t \<longrightarrow>
       (case dget (se_runs s) (tk_run_id t) of None \<Rightarrow> True | Some r \<Rightarrow> failable r)) (dvals (se_tasks s))"
  shows "\<exists>s'. sql_reap now s = (Inr (int (length (filter (expired_row now) (dvals (se_tasks s))))), s') \<and>
    (\<forall>k. dget (se_tasks s') k = map_option (reaped_row now) (dget (se_tasks s) k)) \<and>
    (\<forall>k. dget (se_runs s') k = map_option (\<lambda>r. if list_ex (\<lambda>t. expired_row now t \<and> exhausted t \<and> tk_run_id t = k)
        (dvals (se_tasks s)) then failed_run now r else r) (dget (se_runs s) k))"
proof -
  let ?ids = "expired_ids now s"
  have row: "\<exists>t. dget (se_tasks s) i = Some t \<and> t \<in> set (dvals (se_tasks s)) \<and> tk_id t = i \<and> expired_row now t" if i: "i \<in> set ?ids" for i
  proof -
    obtain t where t: "dget (se_tasks s) i = Some t" "expired_row now t"
      using expired_ids_iff [OF assms(1), of i now] i by auto
    moreover have "tk_id t = i" using t(1) assms(1) by (simp add: wf_rows_def)
    ultimately show ?thesis using dget_in_dvals [OF t(1)] by blast
  qed
  have "reapable now s i" if i: "i \<in> set ?ids" for i
  proof -
    obtain t where t: "dget (se_tasks s) i = Some t" "t \<in> set (dvals (se_tasks s))" "tk_id t = i" "expired_row now t"
      using row [OF i] by blast
    with assms(3) have "exhausted t \<longrightarrow> (case dget (se_runs s) (tk_run_id t) of None \<Rightarrow> True | Some r \<Rightarrow> failable r)"
      unfolding list_all_iff by blast
    with t show ?thesis by (simp add: reapable_def)
  qed
  then have "list_all (reapable now s) ?ids" by (simp add: list_all_iff)
  from reap_rows_ok [OF distinct_expired_ids [OF assms(1)] this assms(2)] obtain s' where
    s': "reap_rows now ?ids s = (Inr (int (length ?ids)), s')"
      "\<And>k. dget (se_tasks s') k = (if k \<in> set ?ids then map_option (reaped_row now) (dget (se_tasks s) k) else dget (se_tasks s) k)"
      "\<And>k. dget (se_runs s') k = map_option (\<lambda>r. if takes_run s ?ids k then failed_run now r else r) (dget (se_runs s) k)"
    by (elim exE conjE) (rule that, assumption, erule spec, erule spec)
  have tasks: "dget (se_tasks s') k = map_option (reaped_row now) (dget (se_tasks s) k)" for k
    unfolding s'(2) using expired_ids_iff [OF assms(1), of k now]
    by (cases "dget (se_tasks s) k") (auto simp: reaped_row_def simp del: map_of_eq_Some_iff)
  have "sql_reap now s = (Inr (int (length (filter (expired_row now) (dvals (se_tasks s))))), s')"
    using s'(1) by (simp add: sql_reap_def expired_ids_def)
  then show ?thesis
    by (intro exI [of _ s'] conjI allI) (simp_all only: tasks s'(3) takes_expired [OF assms(1)])
qed

text \<open>A task in its last attempt, held by a worker that is gone, and its run.\<close>

definition demo_run :: "RunStatus \<Rightarrow> RunRow" where
  "demo_run st = \<lparr>rw_id = 7, rw_tenant_id = 1, rw_project_id = 1, rw_user_id = None,
     rw_service_account_id = None, rw_agent_id = 3, rw_agent_version_id = 4,
     rw_deployment_id = None, rw_session_id = None, rw_framework = None, rw_adapter = None, rw_thread_id = None, rw_trace_id = None, rw_idempotency_key = None, rw_status = st, rw_input_ref = None,
     rw_output_ref = None, rw_error = None, rw_started_at = Some 0, rw_finished_at = None,
     rw_created_at = 0, rw_is_deleted = False\<rparr>"

definition demo_lost :: "RunStatus \<Rightarrow> sql_session" where
  "demo_lost st = \<lparr>se_tasks = [(1, (new_task_row 0 1 demo_job 7 1 1)\<lparr>tk_status := Task_running, tk_attempt := 2,
       tk_worker_id := Some ''w1'', tk_leased_until := Some 30, tk_fencing_token := 1\<rparr>)],
     se_runs = [(7, demo_run st)], se_attempts = [], se_events = [], se_next_task_id = 2, se_next_run_id = 8,
     se_next_attempt_id = 1\<rparr>"

theorem sql_reap_exact_witness:
  "\<exists>s'. sql_reap 50 (demo_lost Run_running) = (Inr 1, s') \<and>
     map_option tk_status (dget (se_tasks s') 1) = Some Task_dead_letter \<and>
     map_option rw_status (dget (se_runs s') 7) = Some Run_failed"
proof -
  have row: "wf_rows (se_tasks (demo_lost Run_running))" "events_kept (demo_lost Run_running)"
    "list_all (\<lambda>t. expired_row 50 t \<and> exhausted t \<longrightarrow>
       (case dget (se_runs (demo_lost Run_running)) (tk_run_id t) of None \<Rightarrow> True | Some r \<Rightarrow> failable r))
       (dvals (se_tasks (demo_lost Run_running)))"
    by (simp_all add: demo_lost_def wf_rows_def events_kept_def new_task_row_def demo_run_def failable_def)
  show ?thesis using sql_reap_exact [OF row]
    by (auto simp: demo_lost_def expired_row_def active_row_def exhausted_def new_task_row_def demo_run_def
        demo_job_def empty_payload_def reaped_row_def failed_run_def split: if_splits)
qed

section \<open>A row that blocks every queue\<close>

definition stuck :: "RunRow \<Rightarrow> bool" where
  "stuck r \<longleftrightarrow> rw_status r \<in> {Run_interrupted, Run_succeeded, Run_cancelled, Run_timeout}"

text \<open>A computation that, if it succeeds, leaves one task and one run that cannot fail alone.\<close>

definition spares :: "int \<Rightarrow> int \<Rightarrow> RunRow \<Rightarrow> (sql_session, 'a) eff \<Rightarrow> bool" where
  "spares k rid r m \<longleftrightarrow> (\<forall>s x s'. m s = (Inr x, s') \<longrightarrow> dget (se_tasks s') k = dget (se_tasks s) k \<and>
     (dget (se_runs s) rid = Some r \<longrightarrow> dget (se_runs s') rid = Some r))"

lemma spares_bnd: "spares k rid r m \<Longrightarrow> (\<And>x. spares k rid r (f x)) \<Longrightarrow> spares k rid r (bnd m f)"
  unfolding spares_def bnd_def by (fastforce split: prod.splits sum.splits)

lemma spares_seq: "spares k rid r m \<Longrightarrow> spares k rid r n \<Longrightarrow> spares k rid r (seq m n)"
  by (simp add: seq_def spares_bnd)

lemma spares_basic:
  "spares k rid r (ret x)" "j \<noteq> k \<Longrightarrow> spares k rid r (on_task_row j m)" "spares k rid r (reaper_event t ty p)"
  "spares k rid r (fail_attempt_for_reaper now a)"
  by (auto simp: spares_def ret_def on_task_row_def on_entry_def reaper_event_def seq_def bnd_def event_append_def Let_def
      fail_attempt_for_reaper_def put_attempt_def split: option.splits prod.splits if_splits sum.splits)

lemma fail_run_raises:
  assumes "dget (se_runs s) rid = Some r" "stuck r"
  shows "\<exists>e. fst (fail_run_for_reaper now rid s) = Inl e"
  using assms by (cases "rw_status r") (simp_all add: stuck_def fail_run_for_reaper_def Let_def run_transition_table)

lemma fail_run_other: "j \<noteq> k \<Longrightarrow> dget (se_runs (snd (fail_run_for_reaper now j s))) k = dget (se_runs s) k"
  by (simp add: fail_run_for_reaper_def Let_def split: option.splits sum.splits)

lemma spares_fail_run:
  assumes "stuck r"
  shows "spares k rid r (fail_run_for_reaper now j)"
  unfolding spares_def
proof (intro allI impI)
  fix s x s'
  assume eq: "fail_run_for_reaper now j s = (Inr x, s')"
  show "dget (se_tasks s') k = dget (se_tasks s) k \<and> (dget (se_runs s) rid = Some r \<longrightarrow> dget (se_runs s') rid = Some r)"
  proof -
    have "se_tasks s' = se_tasks s" using fail_run_tasks(1) [of now j s] unfolding eq by simp
    then show ?thesis
      using fail_run_raises [OF _ assms, of s j now] fail_run_other [of j rid now s] eq by (cases "j = rid") auto
  qed
qed

lemma reap_row_spares:
  assumes "stuck r" "j \<noteq> k" "reap_row now j s = (Inr x, s')" "wf_rows (se_tasks s)"
  shows "dget (se_tasks s') k = dget (se_tasks s) k \<and> (dget (se_runs s) rid = Some r \<longrightarrow> dget (se_runs s') rid = Some r)"
proof (cases "dget (se_tasks s) j")
  case None
  then show ?thesis using assms(3) by (simp add: reap_row_def)
next
  case (Some t)
  let ?la = "latest_attempt (tk_id t) s"
  let ?m = "if tk_status t = Task_running then seq (fail_attempt_for_reaper now ?la)
        (if tk_attempt t + 1 \<ge> tk_max_attempts t then dead_letter_expired now t
         else seq (on_task_row (tk_id t) (seq (row_status Task_retrying)
                     (upd (\<lambda>t. t\<lparr>tk_attempt := tk_attempt t + 1\<rparr>))))
             (seq (reaper_event t ''attempt.failed'' (expired_payload t)) (requeue_expired ?la t)))
      else requeue_expired ?la t"
  have id: "tk_id t \<noteq> k" using Some assms(2,4) by (auto simp: wf_rows_def)
  have "spares k rid r (requeue_expired ?la t)" "spares k rid r (dead_letter_expired now t)"
    unfolding requeue_expired_def dead_letter_expired_def
    by (intro spares_seq spares_basic spares_fail_run id assms(1))+
  then have "spares k rid r ?m" using id by (simp add: spares_seq spares_basic)
  moreover have "reap_row now j s = ?m s" using Some by (simp add: reap_row_def Let_def)
  then have "?m s = (Inr x, s')" using assms(3) by (simp only:)
  ultimately show ?thesis unfolding spares_def by blast
qed

lemma reap_row_raises:
  assumes "dget (se_tasks s) (tk_id t) = Some t" "exhausted t" "dget (se_runs s) (tk_run_id t) = Some r" "stuck r"
  shows "\<exists>e s'. reap_row now (tk_id t) s = (Inl e, s')"
proof -
  obtain as where as: "fail_attempt_for_reaper now (latest_attempt (tk_id t) s) s = (Inr (), s\<lparr>se_attempts := as\<rparr>)"
    using fail_attempt_ok by blast
  have st: "tk_status t = Task_running" "tk_max_attempts t \<le> tk_attempt t + 1" using assms(2) by (auto simp: exhausted_def)
  let ?s = "s\<lparr>se_attempts := as, se_tasks := dset (se_tasks s) (tk_id t) (t\<lparr>tk_status := Task_dead_letter,
      tk_finished_at := Some now, tk_dead_letter_reason := Some ''lease_expired'', tk_worker_id := None, tk_leased_until := None\<rparr>)\<rparr>"
  obtain e s' where f: "fail_run_for_reaper now (tk_run_id t) ?s = (Inl e, s')"
    using fail_run_raises [where s = ?s and rid = "tk_run_id t" and r = r and now = now] assms(3,4)
    by (cases "fail_run_for_reaper now (tk_run_id t) ?s") auto
  have row: "on_task_row (tk_id t) (seq (row_status Task_dead_letter)
            (upd (\<lambda>t. t\<lparr>tk_finished_at := Some now, tk_dead_letter_reason := Some ''lease_expired'',
                        tk_worker_id := None, tk_leased_until := None\<rparr>))) (s\<lparr>se_attempts := as\<rparr>) = (Inr (), ?s)"
    using assms(1) st by (simp add: on_task_row_def eff_simps task_transition_table)
  have "dead_letter_expired now t (s\<lparr>se_attempts := as\<rparr>) = (Inl e, s')"
    unfolding dead_letter_expired_def seq_def [of "on_task_row _ _"] seq_def [of "fail_run_for_reaper _ _"]
    by (simp add: bnd_def row f)
  then show ?thesis using assms(1) st as by (simp add: reap_row_def Let_def seq_def bnd_def)
qed

lemma reap_rows_raise:
  "tk_id t \<in> set ids \<Longrightarrow> wf_rows (se_tasks s) \<Longrightarrow> dget (se_tasks s) (tk_id t) = Some t \<Longrightarrow> exhausted t \<Longrightarrow>
     dget (se_runs s) (tk_run_id t) = Some r \<Longrightarrow> stuck r \<Longrightarrow> \<exists>e s'. reap_rows now ids s = (Inl e, s')"
proof (induction ids arbitrary: s)
  case (Cons i ids)
  obtain res s1 where i: "reap_row now i s = (res, s1)" by fastforce
  show ?case
  proof (cases res)
    case (Inl e)
    with i show ?thesis by (simp add: seq_def bnd_def)
  next
    case (Inr u)
    then have ne: "i \<noteq> tk_id t" using reap_row_raises [OF Cons.prems(3-6), of now] i by auto
    have "wf_rows (se_tasks s1)" using growsD [OF reap_row_grows i] Cons.prems(2) by (rule ses_grows_wf)
    moreover note reap_row_spares [OF Cons.prems(6) ne, of now s u s1 "tk_run_id t"] i Inr Cons.prems(2,3,5)
    moreover have "tk_id t \<in> set ids" using Cons.prems(1) ne by simp
    ultimately obtain e s' where "reap_rows now ids s1 = (Inl e, s')" using Cons.IH Cons.prems(4,6) by metis
    with i Inr show ?thesis by (simp add: seq_def bnd_def)
  qed
qed simp

text \<open>
  C12: One row can block all queues. If an expired running task is out of attempts and its run is
  interrupted, succeeded, cancelled or timed out, then every lease, of any queue by any worker and
  whatever other sessions do meanwhile, raises, and as its transaction is rolled back it changes
  nothing: the row is still there for the next lease.
\<close>

theorem sql_lease_blocked:
  assumes "wf_sql b" "dget (rows b) k = Some t" "expired_row rn t" "exhausted t"
    "dget (se_runs (sb_session b)) (tk_run_id t) = Some r" "stuck r"
  shows "\<exists>e. session_scope (sql_lease others now rn q w n) b = (Inl e, b)"
proof -
  have wf: "wf_rows (rows b)" and id: "tk_id t = k" using assms(1,2) by (auto simp: wf_sql_def wf_rows_def)
  then have "tk_id t \<in> set (expired_ids rn (sb_session b))" using expired_ids_iff [OF wf] assms(2,3) by auto
  from reap_rows_raise [OF this wf _ assms(4-6), of rn] assms(2) id
  obtain e s' where "sql_reap rn (sb_session b) = (Inl e, s')" by (auto simp: sql_reap_def expired_ids_def)
  then show ?thesis by (simp add: session_scope_def sql_lease_def seq_def bnd_def in_session_def)
qed

definition demo_blocked :: sql_backend where
  "demo_blocked = (empty_sql None)\<lparr>sb_session := demo_lost Run_succeeded\<rparr>"

theorem sql_lease_blocked_witness:
  "\<exists>e. session_scope (sql_lease (\<lambda>_ ts. ts) 50 50 ''other'' ''w9'' 30) demo_blocked = (Inl e, demo_blocked)"
proof -
  let ?t = "snd (hd (rows demo_blocked))"
  have "wf_sql demo_blocked" "dget (rows demo_blocked) 1 = Some ?t" "expired_row 50 ?t" "exhausted ?t"
    "dget (se_runs (sb_session demo_blocked)) (tk_run_id ?t) = Some (demo_run Run_succeeded)"
    by (simp_all add: demo_blocked_def demo_lost_def expired_row_def active_row_def exhausted_def new_task_row_def
        demo_job_def empty_payload_def wf_sql_def wf_rows_def)
  moreover have "stuck (demo_run Run_succeeded)" by (simp add: stuck_def demo_run_def)
  ultimately show ?thesis by (rule sql_lease_blocked)
qed

end
