(* ===== verification/Sql_Leasing.thy ===== *)
theory Sql_Leasing
  imports Sql_Reaper
begin

text \<open>
  Which task a lease of the database queue returns when no other session interferes, and that the
  concurrency quotas hold after it.
\<close>

section \<open>What a quota check looks at\<close>

definition quota_key :: "TaskRow \<Rightarrow> int \<times> int \<times> bool \<times> int" where
  "quota_key t = (tk_tenant_id t, tk_project_id t, active_row t, tk_run_id t)"

definition same_load :: "sql_session \<Rightarrow> sql_session \<Rightarrow> bool" where
  "same_load s s' \<longleftrightarrow> map quota_key (dvals (se_tasks s')) = map quota_key (dvals (se_tasks s)) \<and> se_runs s' = se_runs s"

lemma same_load_refl [simp]: "same_load s s"
  by (simp add: same_load_def)

lemma same_load_trans: "same_load a b \<Longrightarrow> same_load b c \<Longrightarrow> same_load a c"
  by (simp add: same_load_def)

lemma filter_length_map: "(\<And>x. P x \<longleftrightarrow> Q (g x)) \<Longrightarrow> length (filter P xs) = length (filter Q (map g xs))"
  by (induction xs) auto

lemma count_running_key:
  "count_running tenant project s = int (length (filter (\<lambda>(tn, pr, a, _). tn = tenant \<and> a \<and>
     (case project of None \<Rightarrow> True | Some p \<Rightarrow> pr = p)) (map quota_key (dvals (se_tasks s)))))"
  unfolding count_running_def by (subst filter_length_map [where g = quota_key]) (auto simp: quota_key_def)

lemma count_binding_key:
  "count_running_for_run_binding tenant project agent deployment s = int (length (filter (\<lambda>(tn, pr, a, r).
     tn = tenant \<and> pr = project \<and> a \<and> (case dget (se_runs s) r of None \<Rightarrow> False
       | Some r \<Rightarrow> (case agent of None \<Rightarrow> True | Some a \<Rightarrow> rw_agent_id r = a) \<and>
                (case deployment of None \<Rightarrow> True | Some d \<Rightarrow> rw_deployment_id r = Some d)))
     (map quota_key (dvals (se_tasks s)))))"
  unfolding count_running_for_run_binding_def
  by (subst filter_length_map [where g = quota_key]) (auto simp: quota_key_def bound_to_def)

lemma count_same_load:
  "same_load s s' \<Longrightarrow> count_running tn pr s' = count_running tn pr s"
  "same_load s s' \<Longrightarrow> count_running_for_run_binding t p a d s' = count_running_for_run_binding t p a d s"
  by (simp_all only: count_running_key count_binding_key same_load_def)

lemma limits_same_load: "same_load s s' \<Longrightarrow> limits_of quota t s' = limits_of quota t s"
  by (auto simp: limits_of_def count_same_load split: option.splits) (simp_all add: same_load_def)

definition in_quota :: "RuntimeQuota option \<Rightarrow> sql_session \<Rightarrow> TaskRow \<Rightarrow> bool" where
  "in_quota quota s c \<longleftrightarrow> quota_check quota c s = Inr ()"

lemma in_quota_same_load: "same_load s s' \<Longrightarrow> in_quota quota s' c = in_quota quota s c"
  by (auto simp: in_quota_def quota_check_def can_lease_iff limits_same_load split: option.splits)

lemma quota_check_cases:
  obtains "quota_check quota c s = Inr ()"
  | sc l n where "quota_check quota c s = Inl (QuotaExceededError sc l n)"
proof (cases "quota_check quota c s")
  case (Inl e)
  then obtain q where "assert_can_lease q c s = Inl e" by (auto simp: quota_check_def split: option.splits)
  from can_lease_error [OF this] Inl that show ?thesis by blast
qed (use that in simp)

section \<open>Candidates over quota\<close>

text \<open>Being passed over only leaves a note on the row.\<close>

definition noted :: "TaskRow \<Rightarrow> TaskRow \<Rightarrow> bool" where
  "noted t t' \<longleftrightarrow> (\<exists>m e. t' = t\<lparr>tk_metadata_json := m, tk_error := e\<rparr>)"

lemma noted_refl [simp]: "noted t t"
proof -
  have "t = t\<lparr>tk_metadata_json := tk_metadata_json t, tk_error := tk_error t\<rparr>" by simp
  then show ?thesis unfolding noted_def by blast
qed

lemma noted_trans: "noted t u \<Longrightarrow> noted u v \<Longrightarrow> noted t v"
  by (auto simp: noted_def) (metis)

definition only_notes :: "sql_session \<Rightarrow> sql_session \<Rightarrow> bool" where
  "only_notes s s' \<longleftrightarrow> same_load s s' \<and>
     (\<forall>k. rel_option noted (dget (se_tasks s) k) (dget (se_tasks s') k))"

lemma only_notes_refl [simp]: "only_notes s s"
  by (auto simp: only_notes_def option.rel_refl)

lemma only_notes_trans: "only_notes a b \<Longrightarrow> only_notes b c \<Longrightarrow> only_notes a c"
  unfolding only_notes_def
  by (auto intro: same_load_trans) (smt (verit) noted_trans option.rel_cases option.rel_intros(2) option.rel_sel)

lemma map_dvals_dset_same:
  "dget d k = Some v \<Longrightarrow> distinct (dkeys d) \<Longrightarrow> g v' = g v \<Longrightarrow> map g (dvals (dset d k v')) = map g (dvals d)"
  by (induction d) (auto split: if_splits)

lemma record_quota_block_notes:
  assumes "wf_rows (se_tasks s)"
  shows "only_notes s (record_quota_block c err s)"
    and "k \<noteq> tk_id c \<Longrightarrow> dget (se_tasks (record_quota_block c err s)) k = dget (se_tasks s) k"
proof -
  obtain sc l n where err: "err = (sc, l, n)" by (cases err)
  show "k \<noteq> tk_id c \<Longrightarrow> dget (se_tasks (record_quota_block c err s)) k = dget (se_tasks s) k"
    by (simp add: record_quota_block_def err on_task_row_def on_entry_def upd_def split: option.splits)
  show "only_notes s (record_quota_block c err s)"
  proof (cases "dget (se_tasks s) (tk_id c)")
    case None
    then show ?thesis by (simp add: record_quota_block_def err on_task_row_def on_entry_def)
  next
    case (Some t)
    then obtain m e where r: "record_quota_block c err s =
        s\<lparr>se_tasks := dset (se_tasks s) (tk_id c) (t\<lparr>tk_metadata_json := m, tk_error := e\<rparr>)\<rparr>"
      by (simp add: record_quota_block_def err on_task_row_def on_entry_def upd_def)
    have "rel_option noted (dget (se_tasks s) k) (dget (se_tasks (record_quota_block c err s)) k)" for k
      using Some by (auto simp: r option.rel_refl noted_def)
    moreover have "same_load s (record_quota_block c err s)"
      using map_dvals_dset_same [OF Some, where g = quota_key] assms
      by (simp add: same_load_def r wf_rows_def quota_key_def active_row_def)
    ultimately show ?thesis by (simp add: only_notes_def)
  qed
qed

section \<open>The loop over the candidates\<close>

abbreviation alone :: interference where
  "alone \<equiv> \<lambda>_ ts. ts"

definition listed :: "sql_session \<Rightarrow> TaskRow list \<Rightarrow> bool" where
  "listed s cs \<longleftrightarrow> distinct (map tk_id cs) \<and> list_all (\<lambda>c. dget (se_tasks s) (tk_id c) = Some c \<and>
     tk_status c = Task_queued \<and> \<not> tk_is_deleted c) cs"

lemma claim_alone:
  assumes "dget (se_tasks s) (tk_id c) = Some c" "tk_status c = Task_queued" "\<not> tk_is_deleted c"
  shows "claim_queued_task alone w until now c s = (Inr (Some (claimed_row w until now c)),
    s\<lparr>se_tasks := dset (se_tasks s) (tk_id c) (claimed_row w until now c)\<rparr>)"
  using assms by (simp add: claim_queued_task_def task_transition_table)

lemma lease_loop_alone:
  "listed s cs \<Longrightarrow> wf_rows (se_tasks s) \<Longrightarrow>
   \<exists>s0 err'. only_notes s s0 \<and> wf_rows (se_tasks s0) \<and> lease_loop alone quota w until now cs err s =
     (case find (in_quota quota s) cs of
        None \<Rightarrow> (Inr (None, err'), s0)
      | Some c \<Rightarrow> (Inr (Some (claimed_row w until now c), err'),
          s0\<lparr>se_tasks := dset (se_tasks s0) (tk_id c) (claimed_row w until now c)\<rparr>))"
proof (induction cs arbitrary: s err)
  case Nil
  then show ?case by (intro exI [of _ s]) simp
next
  case (Cons c cs)
  have c: "dget (se_tasks s) (tk_id c) = Some c" "tk_status c = Task_queued" "\<not> tk_is_deleted c"
    using Cons.prems(1) by (simp_all add: listed_def)
  show ?case
  proof (cases rule: quota_check_cases [of quota c s])
    case 1
    then show ?thesis using claim_alone [OF c] Cons.prems(2)
      by (intro exI [of _ s]) (simp add: in_quota_def)
  next
    case (2 sc l n)
    let ?s = "record_quota_block c (sc, l, n) s"
    have n: "only_notes s ?s" by (rule record_quota_block_notes [OF Cons.prems(2)])
    have wf: "wf_rows (se_tasks ?s)" using record_quota_block_grows Cons.prems(2) by (rule ses_grows_wf)
    have "dget (se_tasks ?s) (tk_id u) = dget (se_tasks s) (tk_id u)" if "u \<in> set cs" for u
    proof (rule record_quota_block_notes(2) [OF Cons.prems(2)])
      have "tk_id u \<in> set (map tk_id cs)" using that by simp
      then show "tk_id u \<noteq> tk_id c" using Cons.prems(1) by (auto simp: listed_def)
    qed
    then have "listed ?s cs" using Cons.prems(1) by (simp add: listed_def list_all_iff)
    from Cons.IH [OF this wf, of "Some (sc, l, n)"] obtain s0 err' where
      "only_notes ?s s0" "wf_rows (se_tasks s0)" and l: "lease_loop alone quota w until now cs (Some (sc, l, n)) ?s =
     (case find (in_quota quota ?s) cs of
        None \<Rightarrow> (Inr (None, err'), s0)
      | Some c \<Rightarrow> (Inr (Some (claimed_row w until now c), err'),
          s0\<lparr>se_tasks := dset (se_tasks s0) (tk_id c) (claimed_row w until now c)\<rparr>))" by blast
    moreover have "in_quota quota ?s = in_quota quota s"
      using n in_quota_same_load by (auto simp: only_notes_def)
    moreover have "\<not> in_quota quota s c" using 2 by (simp add: in_quota_def)
    ultimately show ?thesis using 2 only_notes_trans [OF n]
      by (intro exI [of _ s0] exI [of _ err']) simp
  qed
qed

lemma candidates_listed:
  assumes "wf_rows (se_tasks s)"
  shows "listed s (candidates now q s)"
proof -
  have "distinct (map tk_id (dvals (se_tasks s)))"
    using distinct_dvals_ids [OF assms] .
  then have "distinct (map tk_id (filter (due_row now q) (dvals (se_tasks s))))" by (rule distinct_map_filter)
  then have "distinct (map tk_id (candidates now q s))"
    by (simp add: candidates_def distinct_map)
  then show ?thesis using wf_rows_member [OF assms]
    by (auto simp: listed_def candidates_def list_all_iff due_row_def)
qed

lemma find_first:
  "sorted (map k xs) \<Longrightarrow> find P xs = Some c \<Longrightarrow> c \<in> set xs \<and> P c \<and> (\<forall>u \<in> set xs. P u \<longrightarrow> k c \<le> k u)"
  by (induction xs) (auto split: if_splits)

section \<open>What a lease returns\<close>

lemma sql_lease_alone:
  assumes "wf_sql b" "sql_reap rn (sb_session b) = (Inr m, s1)" "sql_lease alone now rn q w n b = (r, b')"
  shows "wf_rows (se_tasks s1) \<and> (\<exists>s0. only_notes s1 s0 \<and> wf_rows (se_tasks s0) \<and>
    (case find (in_quota (sb_quota b) s1) (candidates now q s1) of
       None \<Rightarrow> r = Inr None \<and> sb_session b' = s0
     | Some c \<Rightarrow>
         r = (case sql_snapshot_of (claimed_row w (now + seconds n) now c) (sb_session b') of Inl e \<Rightarrow> Inl e | Inr sn \<Rightarrow> Inr (Some sn)) \<and>
         sb_session b' = s0\<lparr>se_tasks := dset (se_tasks s0) (tk_id c) (claimed_row w (now + seconds n) now c)\<rparr>))"
proof -
  have "wf_rows (rows b)" using assms(1) by (simp add: wf_sql_def)
  then have wf: "wf_rows (se_tasks s1)" using growsD [OF sql_reap_grows assms(2)] by (rule ses_grows_wf [rotated])
  obtain s0 err where s0: "only_notes s1 s0" "wf_rows (se_tasks s0)"
    and l: "lease_loop alone (sb_quota b) w (now + seconds n) now (candidates now q s1) None s1 =
     (case find (in_quota (sb_quota b) s1) (candidates now q s1) of
        None \<Rightarrow> (Inr (None, err), s0)
      | Some c \<Rightarrow> (Inr (Some (claimed_row w (now + seconds n) now c), err),
          s0\<lparr>se_tasks := dset (se_tasks s0) (tk_id c) (claimed_row w (now + seconds n) now c)\<rparr>))"
    using lease_loop_alone [OF candidates_listed [OF wf] wf] by blast
  show ?thesis
  proof (cases "candidates now q s1")
    case Nil
    then have "r = Inr None" "sb_session b' = s1"
      using assms(2,3) by (auto simp: sql_lease_def seq_def bnd_def in_session_def)
    with Nil wf show ?thesis by (intro conjI exI [of _ s1]) simp_all
  next
    case (Cons c cs)
    have lease: "(r, b') = (case lease_loop alone (sb_quota b) w (now + seconds n) now (candidates now q s1) None s1 of
              (Inl e, s1') \<Rightarrow> (Inl e, b\<lparr>sb_session := s1, sb_session := s1'\<rparr>)
            | (Inr (None, err), s1') \<Rightarrow> (Inr None, b\<lparr>sb_session := s1, sb_session := s1', sb_last_quota_error := err\<rparr>)
            | (Inr (Some t, _), s1') \<Rightarrow>
                (case sql_snapshot_of t s1' of
                   Inl e \<Rightarrow> (Inl e, b\<lparr>sb_session := s1, sb_session := s1', sb_last_quota_error := None\<rparr>)
                 | Inr sn \<Rightarrow> (Inr (Some sn), b\<lparr>sb_session := s1, sb_session := s1', sb_last_quota_error := None\<rparr>)))"
      using assms(2,3) Cons by (simp add: sql_lease_def seq_def bnd_def in_session_def del: lease_loop.simps)
    show ?thesis
    proof (cases "find (in_quota (sb_quota b) s1) (candidates now q s1)")
      case None
      with lease l s0 wf show ?thesis by (intro conjI exI [of _ s0]) simp_all
    next
      case (Some c)
      with lease l s0 wf show ?thesis by (intro conjI exI [of _ s0]) (simp_all split: sum.splits)
    qed
  qed
qed

text \<open>
  C6: Which task a lease of the database queue returns, when reaping succeeds and no other session
  interferes. It returns nothing exactly when no task of the queue is queued, due and within all quotas.
  Otherwise it takes, among those, one of the project with the fewest active tasks, of the highest priority
  there and the oldest among equals, hands it to the worker with the next token and returns its snapshot (or
  raises if the input stored with the run is not JSON). The other tasks keep everything but a note that a
  quota blocked them.
\<close>

theorem sql_lease_functional:
  assumes "wf_sql b" "sql_reap rn (sb_session b) = (Inr m, s1)" "sql_lease alone now rn q w n b = (r, b')"
  shows "case find (in_quota (sb_quota b) s1) (candidates now q s1) of
      None \<Rightarrow> r = Inr None \<and> (\<forall>t \<in> set (dvals (se_tasks s1)). due_row now q t \<longrightarrow> \<not> in_quota (sb_quota b) s1 t) \<and>
        (\<forall>k. rel_option noted (dget (se_tasks s1) k) (dget (rows b') k))
    | Some c \<Rightarrow> c \<in> set (dvals (se_tasks s1)) \<and> due_row now q c \<and> in_quota (sb_quota b) s1 c \<and>
        (\<forall>u \<in> set (dvals (se_tasks s1)). due_row now q u \<and> in_quota (sb_quota b) s1 u \<longrightarrow>
           candidate_key s1 c \<le> candidate_key s1 u) \<and>
        dget (rows b') (tk_id c) = Some (claimed_row w (now + seconds n) now c) \<and>
        r = (case sql_snapshot_of (claimed_row w (now + seconds n) now c) (sb_session b') of
               Inl e \<Rightarrow> Inl e | Inr sn \<Rightarrow> Inr (Some sn)) \<and>
        (\<forall>k. k \<noteq> tk_id c \<longrightarrow> rel_option noted (dget (se_tasks s1) k) (dget (rows b') k))"
proof -
  obtain s0 where s0: "only_notes s1 s0" and l: "case find (in_quota (sb_quota b) s1) (candidates now q s1) of
       None \<Rightarrow> r = Inr None \<and> sb_session b' = s0
     | Some c \<Rightarrow>
         r = (case sql_snapshot_of (claimed_row w (now + seconds n) now c) (sb_session b') of Inl e \<Rightarrow> Inl e | Inr sn \<Rightarrow> Inr (Some sn)) \<and>
         sb_session b' = s0\<lparr>se_tasks := dset (se_tasks s0) (tk_id c) (claimed_row w (now + seconds n) now c)\<rparr>"
    using sql_lease_alone [OF assms] by blast
  have nts: "rel_option noted (dget (se_tasks s1) k) (dget (se_tasks s0) k)" for k
    using s0 by (simp add: only_notes_def)
  have mem: "set (candidates now q s1) = {t \<in> set (dvals (se_tasks s1)). due_row now q t}"
    by (auto simp: candidates_def)
  have "sorted (map (candidate_key s1) (candidates now q s1))" by (simp add: candidates_def)
  note first = find_first [OF this, where P = "in_quota (sb_quota b) s1"]
  show ?thesis
  proof (cases "find (in_quota (sb_quota b) s1) (candidates now q s1)")
    case None
    then have "\<forall>t \<in> set (candidates now q s1). \<not> in_quota (sb_quota b) s1 t" by (simp add: find_None_iff)
    with None l nts mem show ?thesis by auto
  next
    case (Some c)
    note first [OF Some]
    with Some l nts mem show ?thesis by auto
  qed
qed

text \<open>One more active task, at most, is counted after the claim.\<close>

lemma filter_dset_le: "int (length (filter P (dvals (dset d k v)))) \<le> int (length (filter P (dvals d))) + 1"
  by (induction d) (auto split: if_splits)

lemma count_after_claim:
  "count_running tn pr (s\<lparr>se_tasks := dset (se_tasks s) k t\<rparr>) \<le> count_running tn pr s + 1"
  "count_running_for_run_binding a p g d (s\<lparr>se_tasks := dset (se_tasks s) k t\<rparr>) \<le>
     count_running_for_run_binding a p g d s + 1"
proof -
  have b: "bound_to g d (s\<lparr>se_tasks := dset (se_tasks s) k t\<rparr>) = bound_to g d s"
    by (rule ext) (simp add: bound_to_def)
  have u: "se_tasks (s\<lparr>se_tasks := ts\<rparr>) = ts" for ts by simp
  show "count_running_for_run_binding a p g d (s\<lparr>se_tasks := dset (se_tasks s) k t\<rparr>) \<le>
     count_running_for_run_binding a p g d s + 1"
    unfolding count_running_for_run_binding_def b u by (rule filter_dset_le)
  show "count_running tn pr (s\<lparr>se_tasks := dset (se_tasks s) k t\<rparr>) \<le> count_running tn pr s + 1"
    unfolding count_running_def u by (rule filter_dset_le)
qed

lemma below_at_most: "below l n \<Longrightarrow> m \<le> n + 1 \<Longrightarrow> at_most l m"
  by (auto simp: below_def at_most_def split: option.splits)

lemma limits_after_claim:
  assumes "list_all (\<lambda>(l, n). below l n) (limits_of quota t s)"
    "tk_tenant_id t' = tk_tenant_id t" "tk_project_id t' = tk_project_id t" "tk_run_id t' = tk_run_id t"
  shows "list_all (\<lambda>(l, n). at_most l n) (limits_of quota t' (s\<lparr>se_tasks := dset (se_tasks s) k u\<rparr>))"
  using assms by (auto simp: limits_of_def split: option.splits 
      intro: below_at_most [OF _ count_after_claim(1)] below_at_most [OF _ count_after_claim(2)])

text \<open>
  C10: A lease respects the quotas. When no other session interferes and a lease returns a task, then after
  it the leased and running tasks of the task's tenant, of its project, of the agent of its run and of its
  deployment number at most their configured limits, wherever a limit is configured.
\<close>

theorem sql_quota_respected:
  assumes "wf_sql b" "sb_quota b = Some quota" "sql_lease alone now rn q w n b = (Inr (Some sn), b')"
  shows "\<exists>t. dget (rows b') (sn_task_id sn) = Some t \<and>
    list_all (\<lambda>(l, n). at_most l n) (limits_of quota t (sb_session b'))"
proof -
  obtain m s1 where reap: "sql_reap rn (sb_session b) = (Inr m, s1)"
    using assms(3) by (cases "sql_reap rn (sb_session b)")
      (auto simp: sql_lease_def seq_def bnd_def in_session_def split: sum.splits)
  obtain s0 c where s0: "only_notes s1 s0" and f: "find (in_quota (sb_quota b) s1) (candidates now q s1) = Some c"
    and sn: "sql_snapshot_of (claimed_row w (now + seconds n) now c) (sb_session b') = Inr sn"
    and b': "sb_session b' = s0\<lparr>se_tasks := dset (se_tasks s0) (tk_id c) (claimed_row w (now + seconds n) now c)\<rparr>"
  proof (cases "find (in_quota (sb_quota b) s1) (candidates now q s1)")
    case None
    then show ?thesis using sql_lease_alone [OF assms(1) reap assms(3)] by simp
  next
    case (Some c)
    from sql_lease_alone [OF assms(1) reap assms(3), unfolded Some option.case] obtain s0 where
      "only_notes s1 s0" and r: "Inr (Some sn) = (case sql_snapshot_of (claimed_row w (now + seconds n) now c) (sb_session b') of
        Inl e \<Rightarrow> Inl e | Inr sn \<Rightarrow> Inr (Some sn))"
      and "sb_session b' = s0\<lparr>se_tasks := dset (se_tasks s0) (tk_id c) (claimed_row w (now + seconds n) now c)\<rparr>" by blast
    moreover have "sql_snapshot_of (claimed_row w (now + seconds n) now c) (sb_session b') = Inr sn"
      using r by (simp split: sum.splits)
    ultimately show ?thesis using that Some by blast
  qed
  have "in_quota (sb_quota b) s1 c" using f by (auto simp: find_Some_iff)
  then have "list_all (\<lambda>(l, n). below l n) (limits_of quota c s0)"
    using s0 assms(2) limits_same_load [of s1 s0]
    by (simp add: only_notes_def in_quota_def quota_check_def can_lease_iff)
  from limits_after_claim [OF this] have
    "list_all (\<lambda>(l, n). at_most l n) (limits_of quota (claimed_row w (now + seconds n) now c) (sb_session b'))"
    unfolding b' by (simp add: claimed_row_def)
  moreover have "dget (rows b') (sn_task_id sn) = Some (claimed_row w (now + seconds n) now c)"
    using snapshot_fields [OF sn] by (simp add: b' claimed_row_def)
  ultimately show ?thesis by blast
qed

section \<open>An example\<close>

text \<open>Two tasks of one project, the first leased, and one of another; each project may run one task.\<close>

definition demo_quota :: RuntimeQuota where
  "demo_quota = \<lparr>tenant_max_running_tasks = None, project_max_running_tasks = Some 1,
     agent_max_running_tasks = None, deployment_max_running_tasks = None\<rparr>"

definition demo_row :: "int \<Rightarrow> int \<Rightarrow> TaskStatus \<Rightarrow> TaskRow" where
  "demo_row i project st = (new_task_row i i demo_job 7 1 project)\<lparr>tk_status := st\<rparr>"

definition demo_busy :: sql_backend where
  "demo_busy = (empty_sql (Some demo_quota))\<lparr>sb_session :=
     \<lparr>se_tasks = [(1, demo_row 1 1 Task_running), (2, demo_row 2 1 Task_queued), (3, demo_row 3 2 Task_queued)],
      se_runs = [], se_attempts = [], se_events = [], se_next_task_id = 4,
      se_next_run_id = 1, se_next_attempt_id = 1\<rparr>\<rparr>"

lemma demo_busy_wf: "wf_sql demo_busy"
  by (simp add: demo_busy_def wf_sql_def wf_rows_def demo_row_def new_task_row_def)

lemma demo_busy_reap: "sql_reap 9 (sb_session demo_busy) = (Inr 0, sb_session demo_busy)"
  by code_simp

lemma demo_busy_choice:
  "map_option tk_id (find (in_quota (sb_quota demo_busy) (sb_session demo_busy))
     (candidates 9 ''default'' (sb_session demo_busy))) = Some 3"
  by code_simp

theorem sql_lease_functional_witness:
  "\<exists>c b'. tk_id c = 3 \<and> snd (sql_lease alone 9 9 ''default'' ''w2'' 30 demo_busy) = b' \<and> due_row 9 ''default'' c \<and>
     dget (rows b') 3 = Some (claimed_row ''w2'' (9 + seconds 30) 9 c)"
proof -
  obtain r b' where l: "sql_lease alone 9 9 ''default'' ''w2'' 30 demo_busy = (r, b')" by fastforce
  obtain c where c: "find (in_quota (sb_quota demo_busy) (sb_session demo_busy))
     (candidates 9 ''default'' (sb_session demo_busy)) = Some c" "tk_id c = 3"
    using demo_busy_choice by blast
  from sql_lease_functional [OF demo_busy_wf demo_busy_reap l, unfolded c(1) option.case] c(2) l show ?thesis by auto
qed

lemma demo_busy_lease:
  "(case fst (sql_lease alone 9 9 ''default'' ''w2'' 30 demo_busy) of Inr (Some sn) \<Rightarrow> sn_task_id sn = 3 | _ \<Rightarrow> False)"
  by code_simp

theorem sql_quota_respected_witness:
  "\<exists>sn b' t. sql_lease alone 9 9 ''default'' ''w2'' 30 demo_busy = (Inr (Some sn), b') \<and> sn_task_id sn = 3 \<and>
     dget (rows b') 3 = Some t \<and> count_running (tk_tenant_id t) (Some (tk_project_id t)) (sb_session b') \<le> 1"
proof -
  obtain sn b' where l: "sql_lease alone 9 9 ''default'' ''w2'' 30 demo_busy = (Inr (Some sn), b')" "sn_task_id sn = 3"
    using demo_busy_lease by (cases "sql_lease alone 9 9 ''default'' ''w2'' 30 demo_busy")
      (auto split: sum.splits option.splits)
  have q: "sb_quota demo_busy = Some demo_quota" by (simp add: demo_busy_def empty_sql_def)
  obtain t where t: "dget (rows b') (sn_task_id sn) = Some t"
      "list_all (\<lambda>(l, n). at_most l n) (limits_of demo_quota t (sb_session b'))"
    using sql_quota_respected [OF demo_busy_wf q l(1)] by blast
  then show ?thesis using l t by (auto simp: limits_of_def demo_quota_def at_most_def)
qed

end
