(* ===== verification/Policy.thy ===== *)
theory Policy
  imports Prelude
begin

text \<open>
  The policy engine of \<open>policy/engine.py\<close> and \<open>policy/decisions.py\<close>: rules matched against a request,
  denial before approval before permission, the limits and redactions of all permitting rules combined, and
  an audit record for every denial and every demand for approval.
\<close>

section \<open>Requests, rules and decisions\<close>

datatype Decision =
    Decision_allow | Decision_deny | Decision_allow_with_redaction | Decision_allow_with_limit
  | Decision_require_approval | Decision_require_dry_run | Decision_fallback

fun decision_value :: "Decision \<Rightarrow> string" where
  "decision_value Decision_allow = ''allow''"
| "decision_value Decision_deny = ''deny''"
| "decision_value Decision_allow_with_redaction = ''allow_with_redaction''"
| "decision_value Decision_allow_with_limit = ''allow_with_limit''"
| "decision_value Decision_require_approval = ''require_approval''"
| "decision_value Decision_require_dry_run = ''require_dry_run''"
| "decision_value Decision_fallback = ''fallback''"

record policy_decision =
  pd_decision :: Decision
  pd_reason :: "string option"
  pd_matched_policy_ids :: "string list"
  pd_limits :: pydict
  pd_redactions :: "string list"
  pd_approval_required :: bool
  pd_expires_at :: "datetime option"
  pd_metadata :: pydict

definition plain_decision :: "Decision \<Rightarrow> policy_decision" where
  "plain_decision d = \<lparr>pd_decision = d, pd_reason = None, pd_matched_policy_ids = [], pd_limits = [],
     pd_redactions = [], pd_approval_required = False, pd_expires_at = None, pd_metadata = []\<rparr>"

definition decision_allow :: policy_decision where
  "decision_allow = plain_decision Decision_allow"

definition decision_deny :: "string \<Rightarrow> string option \<Rightarrow> policy_decision" where
  "decision_deny reason policy_id = (plain_decision Decision_deny)
     \<lparr>pd_reason := Some reason, pd_matched_policy_ids := filter (\<lambda>i. i \<noteq> []) (case policy_id of None \<Rightarrow> [] | Some i \<Rightarrow> [i])\<rparr>"

definition decision_require_approval :: "string \<Rightarrow> string option \<Rightarrow> policy_decision" where
  "decision_require_approval reason policy_id = (plain_decision Decision_require_approval)
     \<lparr>pd_reason := Some reason, pd_matched_policy_ids := filter (\<lambda>i. i \<noteq> []) (case policy_id of None \<Rightarrow> [] | Some i \<Rightarrow> [i]),
      pd_approval_required := True\<rparr>"

record PolicyRequest =
  pr_tenant_id :: int
  pr_project_id :: "int option"
  pr_actor_id :: "string option"
  pr_actor_type :: string
  pr_resource_type :: string
  pr_resource_id :: "int option"
  pr_action :: string
  pr_risk_level :: "string option"
  pr_user_id :: "int option"
  pr_service_account_id :: "int option"
  pr_agent_id :: "int option"
  pr_agent_version_id :: "int option"
  pr_deployment_id :: "int option"
  pr_environment :: "string option"
  pr_runtime_context :: pydict
  pr_request_metadata :: pydict

record AuditRecord =
  au_tenant_id :: int
  au_project_id :: "int option"
  au_actor_id :: "string option"
  au_actor_type :: string
  au_resource_type :: string
  au_resource_id :: "int option"
  au_action :: string
  au_result :: string
  au_reason :: "string option"
  au_matched_policy_ids :: "string list"
  au_metadata :: pydict

record StaticPolicyRule =
  rl_policy_id :: string
  rl_resource_type :: string
  rl_action :: string
  rl_decision :: Decision
  rl_reason :: string
  rl_tenant_id :: "int option"
  rl_project_id :: "int option"
  rl_environment :: "string option"
  rl_risk_level :: "string option"
  rl_resource_id :: "int option"
  rl_expires_at :: "datetime option"
  rl_metadata :: pydict

definition matches :: "StaticPolicyRule \<Rightarrow> PolicyRequest \<Rightarrow> bool" where
  "matches r q =
     (if rl_resource_type r \<noteq> pr_resource_type q \<or> rl_action r \<noteq> pr_action q then False
      else if rl_tenant_id r \<noteq> None \<and> rl_tenant_id r \<noteq> Some (pr_tenant_id q) then False
      else if rl_project_id r \<noteq> None \<and> rl_project_id r \<noteq> pr_project_id q then False
      else if rl_environment r \<noteq> None \<and> rl_environment r \<noteq> pr_environment q then False
      else if rl_risk_level r \<noteq> None \<and> rl_risk_level r \<noteq> pr_risk_level q then False
      else if rl_resource_id r \<noteq> None \<and> rl_resource_id r \<noteq> pr_resource_id q then False
      else True)"

definition metadata_limits :: "pydict \<Rightarrow> pydict" where
  "metadata_limits m = (case dget m ''limits'' of Some (VDict d) \<Rightarrow> d | _ \<Rightarrow> [])"

definition metadata_redactions :: "pydict \<Rightarrow> string list" where
  "metadata_redactions m = (case dget m ''redactions'' of
       Some (VList items) \<Rightarrow> filter (\<lambda>s. s \<noteq> []) (map (\<lambda>v. strip (str_item v)) items)
     | _ \<Rightarrow> [])"

definition to_decision :: "StaticPolicyRule \<Rightarrow> policy_decision" where
  "to_decision r =
     (if rl_decision r = Decision_deny then decision_deny (rl_reason r) (Some (rl_policy_id r))
      else if rl_decision r = Decision_require_approval
        then decision_require_approval (rl_reason r) (Some (rl_policy_id r))
      else \<lparr>pd_decision = rl_decision r, pd_reason = Some (rl_reason r),
            pd_matched_policy_ids = [rl_policy_id r], pd_limits = metadata_limits (rl_metadata r),
            pd_redactions = metadata_redactions (rl_metadata r), pd_approval_required = False,
            pd_expires_at = rl_expires_at r, pd_metadata = rl_metadata r\<rparr>)"

section \<open>Combining the permitting rules\<close>

definition permits :: "Decision \<Rightarrow> bool" where
  "permits d \<longleftrightarrow> d \<in> {Decision_allow, Decision_allow_with_redaction, Decision_allow_with_limit}"

record composing =
  co_ids :: "string list"
  co_limits :: pydict
  co_redactions :: "string list"
  co_primary :: StaticPolicyRule

fun add_new :: "string list \<Rightarrow> string list \<Rightarrow> string list" where
  "add_new acc [] = acc"
| "add_new acc (x # xs) = add_new (if x \<in> set acc then acc else acc @ [x]) xs"

definition compose_rule :: "StaticPolicyRule \<Rightarrow> composing \<Rightarrow> composing" where
  "compose_rule r c =
     (if \<not> permits (rl_decision r) then c
      else c\<lparr>co_ids := co_ids c @ [rl_policy_id r],
             co_limits := dmerge (co_limits c) (metadata_limits (rl_metadata r)),
             co_redactions := add_new (co_redactions c) (metadata_redactions (rl_metadata r)),
             co_primary :=
               (if rl_decision (co_primary c) \<noteq> Decision_allow_with_limit \<and> rl_decision r = Decision_allow_with_limit
                then r
                else if rl_decision (co_primary c) = Decision_allow \<and> rl_decision r = Decision_allow_with_redaction
                then r else co_primary c)\<rparr>)"

text \<open>The caller only passes a non-empty list.\<close>

definition compose_allow_decision :: "StaticPolicyRule list \<Rightarrow> policy_decision" where
  "compose_allow_decision rules =
     (let c = fold compose_rule rules \<lparr>co_ids = [], co_limits = [], co_redactions = [], co_primary = hd rules\<rparr>
      in \<lparr>pd_decision = (if co_limits c \<noteq> [] then Decision_allow_with_limit
                        else if co_redactions c \<noteq> [] then Decision_allow_with_redaction
                        else rl_decision (co_primary c)),
          pd_reason = Some (rl_reason (co_primary c)), pd_matched_policy_ids = co_ids c,
          pd_limits = co_limits c, pd_redactions = co_redactions c, pd_approval_required = False,
          pd_expires_at = rl_expires_at (co_primary c),
          pd_metadata = [(''limits'', VDict (co_limits c)), (''redactions'', VList (map VStr (co_redactions c)))]\<rparr>)"

section \<open>The engine\<close>

text \<open>The state is the list of records of the audit sink.\<close>

definition policy_audit :: "PolicyRequest \<Rightarrow> policy_decision \<Rightarrow> AuditRecord" where
  "policy_audit q d =
     \<lparr>au_tenant_id = pr_tenant_id q, au_project_id = pr_project_id q, au_actor_id = pr_actor_id q,
      au_actor_type = pr_actor_type q, au_resource_type = pr_resource_type q, au_resource_id = pr_resource_id q,
      au_action = pr_action q, au_result = decision_value (pd_decision d), au_reason = pd_reason d,
      au_matched_policy_ids = pd_matched_policy_ids d, au_metadata = pd_metadata d\<rparr>"

definition audit_when_required :: "PolicyRequest \<Rightarrow> policy_decision \<Rightarrow> AuditRecord list \<Rightarrow> AuditRecord list" where
  "audit_when_required q d sink =
     (if pd_decision d \<notin> {Decision_deny, Decision_require_approval} then sink else sink @ [policy_audit q d])"

definition evaluate ::
  "StaticPolicyRule list \<Rightarrow> PolicyRequest \<Rightarrow> AuditRecord list \<Rightarrow> policy_decision \<times> AuditRecord list" where
  "evaluate rules q sink =
     (let ms = filter (\<lambda>r. matches r q) rules
      in case find (\<lambda>r. rl_decision r = Decision_deny) ms of
           Some r \<Rightarrow> (to_decision r, audit_when_required q (to_decision r) sink)
         | None \<Rightarrow> (case find (\<lambda>r. rl_decision r = Decision_require_approval) ms of
             Some r \<Rightarrow> (to_decision r, audit_when_required q (to_decision r) sink)
           | None \<Rightarrow> if ms \<noteq> [] then (compose_allow_decision ms, sink) else (decision_allow, sink)))"

definition assert_allowed ::
  "StaticPolicyRule list \<Rightarrow> PolicyRequest \<Rightarrow> (AuditRecord list, policy_decision) eff" where
  "assert_allowed rules q sink = (case evaluate rules q sink of (d, sink') \<Rightarrow>
     if pd_decision d = Decision_deny then (Inl (PermissionError (or_str (pd_reason d) ''policy_denied'')), sink')
     else (Inr d, sink'))"

definition record_violation ::
  "PolicyRequest \<Rightarrow> string \<Rightarrow> pydict option \<Rightarrow> AuditRecord list \<Rightarrow> AuditRecord list" where
  "record_violation q reason metadata sink = sink @
     [\<lparr>au_tenant_id = pr_tenant_id q, au_project_id = pr_project_id q, au_actor_id = pr_actor_id q,
       au_actor_type = pr_actor_type q, au_resource_type = pr_resource_type q, au_resource_id = pr_resource_id q,
       au_action = pr_action q, au_result = ''policy_violation'', au_reason = Some reason,
       au_matched_policy_ids = [], au_metadata = or_else metadata []\<rparr>]"

section \<open>What the combination keeps\<close>

lemma set_add_new [simp]: "set (add_new acc xs) = set acc \<union> set xs"
  by (induction acc xs rule: add_new.induct) auto

lemma distinct_add_new: "distinct acc \<Longrightarrow> distinct (add_new acc xs)"
  by (induction acc xs rule: add_new.induct) auto

lemma keys_dmerge: "set (dkeys (dmerge a b)) = set (dkeys a) \<union> set (dkeys b)"
  by (induction b arbitrary: a) (auto simp del: set_map)

lemma dmerge_Nil_iff: "dmerge a b = [] \<longleftrightarrow> a = [] \<and> b = []"
  using keys_dmerge [of a b] by (cases a; cases b) auto

lemma fold_compose:
  "set (co_redactions (fold compose_rule rs c)) = set (co_redactions c) \<union>
     (\<Union>r \<in> {r \<in> set rs. permits (rl_decision r)}. set (metadata_redactions (rl_metadata r)))"
  "set (dkeys (co_limits (fold compose_rule rs c))) = set (dkeys (co_limits c)) \<union>
     (\<Union>r \<in> {r \<in> set rs. permits (rl_decision r)}. set (dkeys (metadata_limits (rl_metadata r))))"
  "co_ids (fold compose_rule rs c) = co_ids c @ map rl_policy_id (filter (\<lambda>r. permits (rl_decision r)) rs)"
  "co_primary (fold compose_rule rs c) \<in> insert (co_primary c) (set rs)"
proof (induction rs arbitrary: c)
  case (Cons r rs)
  { case 1 then show ?case using Cons(1) by (auto simp: compose_rule_def) }
  { case 2 then show ?case using Cons(2) by (auto simp: compose_rule_def keys_dmerge simp del: set_map) }
  { case 3 then show ?case using Cons(3) by (auto simp: compose_rule_def) }
  { case 4
    have "co_primary (compose_rule r c) \<in> {co_primary c, r}" by (simp add: compose_rule_def)
    then show ?case using Cons(4) [of "compose_rule r c"] by auto }
qed simp_all

lemma find_SomeD: "find P xs = Some x \<Longrightarrow> x \<in> set xs \<and> P x"
  by (induction xs) (auto split: if_splits)

text \<open>
  C37: Denial wins, then approval. A request is denied exactly when some matching rule denies it, wherever
  that rule stands in the list; it requires approval exactly when no matching rule denies it and some
  matching rule requires approval. A call that must be allowed raises exactly for a denied request. Denials
  and demands for approval leave exactly one audit record, with the request's identity, the decision and its
  reason; every other evaluation leaves none.
\<close>

theorem denial_wins:
  "case evaluate rules q sink of (d, sink') \<Rightarrow>
     (pd_decision d = Decision_deny \<longleftrightarrow> list_ex (\<lambda>r. matches r q \<and> rl_decision r = Decision_deny) rules) \<and>
     (pd_decision d = Decision_require_approval \<longleftrightarrow>
        \<not> list_ex (\<lambda>r. matches r q \<and> rl_decision r = Decision_deny) rules \<and>
        list_ex (\<lambda>r. matches r q \<and> rl_decision r = Decision_require_approval) rules) \<and>
     fst (assert_allowed rules q sink) =
       (if list_ex (\<lambda>r. matches r q \<and> rl_decision r = Decision_deny) rules
        then Inl (PermissionError (or_str (pd_reason d) ''policy_denied'')) else Inr d) \<and>
     sink' = (if pd_decision d \<in> {Decision_deny, Decision_require_approval} then sink @ [policy_audit q d] else sink)"
proof -
  let ?ms = "filter (\<lambda>r. matches r q) rules"
  have ex: "list_ex (\<lambda>r. matches r q \<and> rl_decision r = x) rules \<longleftrightarrow> (\<exists>r \<in> set ?ms. rl_decision r = x)" for x
    by (auto simp: list_ex_iff)
  consider (deny) r where "find (\<lambda>r. rl_decision r = Decision_deny) ?ms = Some r"
    | (approve) r where "find (\<lambda>r. rl_decision r = Decision_deny) ?ms = None"
        "find (\<lambda>r. rl_decision r = Decision_require_approval) ?ms = Some r"
    | (other) "find (\<lambda>r. rl_decision r = Decision_deny) ?ms = None"
        "find (\<lambda>r. rl_decision r = Decision_require_approval) ?ms = None"
    by fastforce
  then show ?thesis
  proof cases
    case deny
    then have r: "r \<in> set ?ms" "rl_decision r = Decision_deny" by (auto dest: find_SomeD)
    then have "list_ex (\<lambda>r. matches r q \<and> rl_decision r = Decision_deny) rules" unfolding ex by blast
    with deny r(2) show ?thesis
      by (simp add: evaluate_def assert_allowed_def audit_when_required_def to_decision_def decision_deny_def plain_decision_def)
  next
    case approve
    then have r: "r \<in> set ?ms" "rl_decision r = Decision_require_approval" by (auto dest: find_SomeD)
    then have "list_ex (\<lambda>r. matches r q \<and> rl_decision r = Decision_require_approval) rules" unfolding ex by blast
    moreover have "\<not> list_ex (\<lambda>r. matches r q \<and> rl_decision r = Decision_deny) rules"
      using approve(1) unfolding ex by (auto simp: find_None_iff)
    ultimately show ?thesis using approve r(2)
      by (simp add: evaluate_def assert_allowed_def audit_when_required_def to_decision_def
          decision_require_approval_def plain_decision_def)
  next
    case other
    then have no: "\<not> list_ex (\<lambda>r. matches r q \<and> rl_decision r = Decision_deny) rules"
      "\<not> list_ex (\<lambda>r. matches r q \<and> rl_decision r = Decision_require_approval) rules"
      unfolding ex by (auto simp: find_None_iff)
    have "pd_decision (compose_allow_decision ?ms) \<notin> {Decision_deny, Decision_require_approval}" if "?ms \<noteq> []"
    proof -
      let ?c = "fold compose_rule ?ms \<lparr>co_ids = [], co_limits = [], co_redactions = [], co_primary = hd ?ms\<rparr>"
      have "hd ?ms \<in> set ?ms" using that by (rule hd_in_set)
      then have "co_primary ?c \<in> set ?ms"
        using fold_compose(4) [of ?ms "\<lparr>co_ids = [], co_limits = [], co_redactions = [], co_primary = hd ?ms\<rparr>"] by auto
      then have "rl_decision (co_primary ?c) \<notin> {Decision_deny, Decision_require_approval}"
        using no unfolding ex by auto
      then show ?thesis by (simp add: compose_allow_decision_def Let_def)
    qed
    then show ?thesis using other no
      by (auto simp: evaluate_def assert_allowed_def Let_def decision_allow_def plain_decision_def)
  qed
qed


text \<open>
  A rule that asks for a dry run or a fallback, on the other hand, only has an effect if it is the first
  matching one: behind a rule that permits, it is dropped.
\<close>

lemma dry_run_dropped:
  assumes "matches a q" "matches r q" "rl_decision a = Decision_allow" "rl_decision r = Decision_require_dry_run"
    "rl_metadata a = []" "rl_metadata r = []"
  shows "pd_decision (fst (evaluate [a, r] q sink)) = Decision_allow"
    and "pd_decision (fst (evaluate [r, a] q sink)) = Decision_require_dry_run"
  using assms
  by (simp_all add: evaluate_def compose_allow_decision_def compose_rule_def permits_def metadata_limits_def
      metadata_redactions_def Let_def)

section \<open>An example\<close>

definition demo_rule :: "string \<Rightarrow> Decision \<Rightarrow> pydict \<Rightarrow> StaticPolicyRule" where
  "demo_rule pid d meta = \<lparr>rl_policy_id = pid, rl_resource_type = ''tool'', rl_action = ''call'', rl_decision = d,
     rl_reason = ''r'', rl_tenant_id = None, rl_project_id = None, rl_environment = None, rl_risk_level = None,
     rl_resource_id = None, rl_expires_at = None, rl_metadata = meta\<rparr>"

definition demo_policy_request :: PolicyRequest where
  "demo_policy_request = \<lparr>pr_tenant_id = 1, pr_project_id = None, pr_actor_id = None, pr_actor_type = ''agent'',
     pr_resource_type = ''tool'', pr_resource_id = None, pr_action = ''call'', pr_risk_level = None, pr_user_id = None,
     pr_service_account_id = None, pr_agent_id = None, pr_agent_version_id = None, pr_deployment_id = None,
     pr_environment = None, pr_runtime_context = [], pr_request_metadata = []\<rparr>"

definition demo_rules :: "StaticPolicyRule list" where
  "demo_rules = [demo_rule ''p1'' Decision_allow [(''redactions'', VList [VStr ''email''])],
     demo_rule ''p2'' Decision_allow_with_limit [(''limits'', VDict [(''calls'', VInt 3)])]]"


end
