(* ===== verification/Human_Tasks.thy ===== *)
theory Human_Tasks
  imports Policy
begin

text \<open>
  Human approval of \<open>hitl/service.py\<close>: the in-memory service and the one on the tables \<open>human_tasks\<close> and
  \<open>approval_requests\<close>. Both implement one interface, in which a task is decided at most once and never by
  the person who asked for it.
\<close>

section \<open>Requests and what a service tells of a task\<close>

record approval_fields =
  af_tenant_id :: int
  af_project_id :: "int option"
  af_run_id :: "int option"
  af_attempt_id :: "int option"
  af_task_id :: "int option"
  af_payload :: pydict
  af_requested_by :: "string option"
  af_assignee_role :: "string option"
  af_expires_at :: "datetime option"

record HumanTaskRecord =
  ht_id :: int
  ht_tenant_id :: int
  ht_project_id :: "int option"
  ht_run_id :: "int option"
  ht_attempt_id :: "int option"
  ht_task_id :: "int option"
  ht_type :: string
  ht_status :: string
  ht_payload :: pydict
  ht_requested_by :: "string option"
  ht_assignee_user_id :: "string option"
  ht_assignee_role :: "string option"
  ht_expires_at :: "datetime option"
  ht_created_at :: datetime
  ht_updated_at :: "datetime option"

definition creation_audit :: "int \<Rightarrow> approval_fields \<Rightarrow> AuditRecord" where
  "creation_audit i f = \<lparr>au_tenant_id = af_tenant_id f, au_project_id = af_project_id f,
     au_actor_id = af_requested_by f,
     au_actor_type = (if or_str (af_requested_by f) [] \<noteq> [] then ''user'' else ''system''),
     au_resource_type = ''human_task'', au_resource_id = Some i, au_action = ''create'', au_result = ''allow'',
     au_reason = None, au_matched_policy_ids = [],
     au_metadata = [(''type'', VStr ''approval''), (''status'', VStr ''pending'')]\<rparr>"

definition decision_audit :: "int \<Rightarrow> int \<Rightarrow> int option \<Rightarrow> string \<Rightarrow> bool \<Rightarrow> AuditRecord" where
  "decision_audit i tenant project actor approved = \<lparr>au_tenant_id = tenant, au_project_id = project,
     au_actor_id = Some actor, au_actor_type = ''user'', au_resource_type = ''human_task'', au_resource_id = Some i,
     au_action = ''decide'', au_result = (if approved then ''approved'' else ''rejected''), au_reason = None,
     au_matched_policy_ids = [], au_metadata = [(''approved'', VBool approved)]\<rparr>"

section \<open>The in-memory service\<close>

record human_service =
  hm_tasks :: "(int \<times> HumanTaskRecord) list"
  hm_next_id :: int
  hm_audit :: "AuditRecord list"

definition init_human :: human_service where
  "init_human = \<lparr>hm_tasks = [], hm_next_id = 1, hm_audit = []\<rparr>"

definition new_human_task :: "datetime \<Rightarrow> int \<Rightarrow> approval_fields \<Rightarrow> HumanTaskRecord" where
  "new_human_task now i f = \<lparr>ht_id = i, ht_tenant_id = af_tenant_id f, ht_project_id = af_project_id f,
     ht_run_id = af_run_id f, ht_attempt_id = af_attempt_id f, ht_task_id = af_task_id f, ht_type = ''approval'',
     ht_status = ''pending'', ht_payload = af_payload f, ht_requested_by = af_requested_by f,
     ht_assignee_user_id = None, ht_assignee_role = af_assignee_role f, ht_expires_at = af_expires_at f,
     ht_created_at = now, ht_updated_at = None\<rparr>"

definition create_approval :: "datetime \<Rightarrow> approval_fields \<Rightarrow> (human_service, HumanTaskRecord) eff" where
  "create_approval now f s =
     (let task = new_human_task now (hm_next_id s) f
      in (Inr task, s\<lparr>hm_next_id := hm_next_id s + 1, hm_tasks := dset (hm_tasks s) (ht_id task) task,
                      hm_audit := hm_audit s @ [creation_audit (ht_id task) f]\<rparr>))"

definition decide ::
  "datetime \<Rightarrow> int \<Rightarrow> string \<Rightarrow> bool \<Rightarrow> pydict option \<Rightarrow> (human_service, HumanTaskRecord) eff" where
  "decide now task_id actor approved payload s = (case dget (hm_tasks s) task_id of
       None \<Rightarrow> (Inl KeyError, s)
     | Some task \<Rightarrow>
         if ht_requested_by task = Some actor then (Inl (PermissionError ''approval_self_review_denied''), s)
         else if ht_status task \<noteq> ''pending'' then (Inl (PermissionError ''human_task_not_pending''), s)
         else
           let task' = task\<lparr>ht_status := (if approved then ''approved'' else ''rejected''),
                 ht_payload := dset (ht_payload task) ''decision'' (VDict (or_else payload [])),
                 ht_updated_at := Some now\<rparr>
           in (Inr task', s\<lparr>hm_tasks := dset (hm_tasks s) task_id task',
                hm_audit := hm_audit s @ [decision_audit (ht_id task) (ht_tenant_id task) (ht_project_id task) actor approved]\<rparr>))"

section \<open>The service on a database\<close>

record HumanTaskRow =
  hr_id :: int
  hr_tenant_id :: int
  hr_project_id :: "int option"
  hr_run_id :: "int option"
  hr_attempt_id :: "int option"
  hr_task_id :: "int option"
  hr_type :: string
  hr_status :: string
  hr_assignee_user_id :: "int option"
  hr_assignee_role :: "string option"
  hr_payload_ref :: "string option"
  hr_decision_ref :: "string option"
  hr_expires_at :: "datetime option"
  hr_created_at :: datetime
  hr_updated_at :: "datetime option"

record ApprovalRow =
  ap_id :: int
  ap_tenant_id :: int
  ap_project_id :: "int option"
  ap_human_task_id :: int
  ap_requested_by :: "string option"
  ap_status :: string
  ap_decision_ref :: "string option"
  ap_metadata_json :: pydict

record sql_human_service =
  hq_tasks :: "(int \<times> HumanTaskRow) list"
  hq_approvals :: "(int \<times> ApprovalRow) list"
  hq_next_task_id :: int
  hq_next_approval_id :: int
  hq_audit :: "AuditRecord list"

definition init_sql_human :: sql_human_service where
  "init_sql_human = \<lparr>hq_tasks = [], hq_approvals = [], hq_next_task_id = 1, hq_next_approval_id = 1, hq_audit = []\<rparr>"

definition human_task_row :: "datetime \<Rightarrow> int \<Rightarrow> approval_fields \<Rightarrow> HumanTaskRow" where
  "human_task_row now i f = \<lparr>hr_id = i, hr_tenant_id = af_tenant_id f, hr_project_id = af_project_id f,
     hr_run_id = af_run_id f, hr_attempt_id = af_attempt_id f, hr_task_id = af_task_id f, hr_type = ''approval'',
     hr_status = ''pending'', hr_assignee_user_id = None, hr_assignee_role = af_assignee_role f,
     hr_payload_ref = Some ''inline:payload'', hr_decision_ref = None, hr_expires_at = af_expires_at f,
     hr_created_at = now, hr_updated_at = Some now\<rparr>"

definition approval_row :: "int \<Rightarrow> int \<Rightarrow> approval_fields \<Rightarrow> ApprovalRow" where
  "approval_row i task_id f = \<lparr>ap_id = i, ap_tenant_id = af_tenant_id f, ap_project_id = af_project_id f,
     ap_human_task_id = task_id, ap_requested_by = af_requested_by f, ap_status = ''pending'',
     ap_decision_ref = None, ap_metadata_json = [(''payload'', VDict (af_payload f))]\<rparr>"

definition record_of_row :: "HumanTaskRow \<Rightarrow> pydict \<Rightarrow> string option \<Rightarrow> HumanTaskRecord" where
  "record_of_row t payload requested_by = \<lparr>ht_id = hr_id t, ht_tenant_id = hr_tenant_id t,
     ht_project_id = hr_project_id t, ht_run_id = hr_run_id t, ht_attempt_id = hr_attempt_id t,
     ht_task_id = hr_task_id t, ht_type = hr_type t, ht_status = hr_status t, ht_payload = payload,
     ht_requested_by = requested_by,
     ht_assignee_user_id = (case hr_assignee_user_id t of None \<Rightarrow> None | Some u \<Rightarrow> if u = 0 then None else Some (dec_int u)),
     ht_assignee_role = hr_assignee_role t, ht_expires_at = hr_expires_at t, ht_created_at = hr_created_at t,
     ht_updated_at = hr_updated_at t\<rparr>"

definition sql_create_approval :: "datetime \<Rightarrow> approval_fields \<Rightarrow> (sql_human_service, HumanTaskRecord) eff" where
  "sql_create_approval now f s =
     (let task = human_task_row now (hq_next_task_id s) f;
          approval = approval_row (hq_next_approval_id s) (hr_id task) f
      in (Inr (record_of_row task (af_payload f) (af_requested_by f)),
          s\<lparr>hq_tasks := dset (hq_tasks s) (hr_id task) task,
            hq_approvals := dset (hq_approvals s) (ap_id approval) approval,
            hq_next_task_id := hq_next_task_id s + 1, hq_next_approval_id := hq_next_approval_id s + 1,
            hq_audit := hq_audit s @ [creation_audit (hr_id task) f]\<rparr>))"

definition latest_approval :: "int \<Rightarrow> sql_human_service \<Rightarrow> ApprovalRow option" where
  "latest_approval task_id s =
     first_by (\<lambda>a. - ap_id a) (filter (\<lambda>a. ap_human_task_id a = task_id) (dvals (hq_approvals s)))"

definition decided_approval :: "string \<Rightarrow> pydict option \<Rightarrow> ApprovalRow \<Rightarrow> ApprovalRow" where
  "decided_approval status payload a = a\<lparr>ap_status := status, ap_decision_ref := Some ''inline:decision'',
     ap_metadata_json := dset (ap_metadata_json a) ''decision'' (VDict (or_else payload []))\<rparr>"

definition decided_payload :: "pydict option \<Rightarrow> ApprovalRow option \<Rightarrow> pydict" where
  "decided_payload payload approval = (case approval of
       None \<Rightarrow> []
     | Some a \<Rightarrow>
         let p = (case dget (ap_metadata_json a) ''payload'' of Some (VDict d) \<Rightarrow> d | _ \<Rightarrow> [])
         in if or_else payload [] \<noteq> [] then dset p ''decision'' (VDict (or_else payload [])) else p)"

definition sql_decide ::
  "datetime \<Rightarrow> int \<Rightarrow> string \<Rightarrow> bool \<Rightarrow> pydict option \<Rightarrow> (sql_human_service, HumanTaskRecord) eff" where
  "sql_decide now task_id actor approved payload s = (case dget (hq_tasks s) task_id of
       None \<Rightarrow> (Inl KeyError, s)
     | Some task \<Rightarrow>
         let approval = latest_approval task_id s;
             requested_by = (case approval of None \<Rightarrow> None | Some a \<Rightarrow> ap_requested_by a)
         in if requested_by = Some actor then (Inl (PermissionError ''approval_self_review_denied''), s)
            else if hr_status task \<noteq> ''pending'' then (Inl (PermissionError ''human_task_not_pending''), s)
            else
              let status = (if approved then ''approved'' else ''rejected'');
                  task' = task\<lparr>hr_status := status, hr_decision_ref := Some ''inline:decision'', hr_updated_at := Some now\<rparr>;
                  approval' = map_option (decided_approval status payload) approval
              in (Inr (record_of_row task' (decided_payload payload approval') requested_by),
                  s\<lparr>hq_tasks := dset (hq_tasks s) task_id task',
                    hq_approvals := (case approval' of None \<Rightarrow> hq_approvals s
                                     | Some a \<Rightarrow> dset (hq_approvals s) (ap_id a) a),
                    hq_audit := hq_audit s @ [decision_audit (hr_id task) (hr_tenant_id task) (hr_project_id task) actor approved]\<rparr>))"

section \<open>The interface of an approval service\<close>

text \<open>
  What is observed of a task: who asked for it, its status, tenant and project; and what is observed of a
  call: the exception, or the task's id, status and requester.
\<close>

type_synonym approval_view = "string option \<times> string \<times> int \<times> int option"

definition told :: "exn + HumanTaskRecord \<Rightarrow> exn + (int \<times> string \<times> string option)" where
  "told r = map_sum id (\<lambda>t. (ht_id t, ht_status t, ht_requested_by t)) r"

definition verdict :: "bool \<Rightarrow> string" where
  "verdict approved = (if approved then ''approved'' else ''rejected'')"

locale approval_service =
  fixes crt :: "datetime \<Rightarrow> approval_fields \<Rightarrow> ('s, HumanTaskRecord) eff"
    and dec :: "datetime \<Rightarrow> int \<Rightarrow> string \<Rightarrow> bool \<Rightarrow> pydict option \<Rightarrow> ('s, HumanTaskRecord) eff"
    and aview :: "'s \<Rightarrow> int \<Rightarrow> approval_view option"
    and anext :: "'s \<Rightarrow> int"
    and alog :: "'s \<Rightarrow> AuditRecord list"
    and ainv :: "'s \<Rightarrow> bool"
  assumes next_free: "ainv s \<Longrightarrow> aview s (anext s) = None"
    and create_spec: "ainv s \<Longrightarrow> \<exists>t s'. crt now f s = (Inr t, s') \<and> ainv s' \<and>
      told (Inr t) = Inr (anext s, ''pending'', af_requested_by f) \<and>
      aview s' = (aview s)(anext s \<mapsto> (af_requested_by f, ''pending'', af_tenant_id f, af_project_id f)) \<and>
      anext s' = anext s + 1 \<and> alog s' = alog s @ [creation_audit (anext s) f]"
    and decide_unknown: "ainv s \<Longrightarrow> aview s i = None \<Longrightarrow> dec now i a ap p s = (Inl KeyError, s)"
    and decide_self: "ainv s \<Longrightarrow> aview s i = Some (Some a, st, tn, pr) \<Longrightarrow>
      dec now i a ap p s = (Inl (PermissionError ''approval_self_review_denied''), s)"
    and decide_late: "ainv s \<Longrightarrow> aview s i = Some (rq, st, tn, pr) \<Longrightarrow> rq \<noteq> Some a \<Longrightarrow> st \<noteq> ''pending'' \<Longrightarrow>
      dec now i a ap p s = (Inl (PermissionError ''human_task_not_pending''), s)"
    and decide_spec: "ainv s \<Longrightarrow> aview s i = Some (rq, ''pending'', tn, pr) \<Longrightarrow> rq \<noteq> Some a \<Longrightarrow>
      \<exists>t s'. dec now i a ap p s = (Inr t, s') \<and> ainv s' \<and> told (Inr t) = Inr (i, verdict ap, rq) \<and>
        aview s' = (aview s)(i \<mapsto> (rq, verdict ap, tn, pr)) \<and> anext s' = anext s \<and>
        alog s' = alog s @ [decision_audit i tn pr a ap]"

inductive approval_step ::
  "(datetime \<Rightarrow> approval_fields \<Rightarrow> ('s, HumanTaskRecord) eff) \<Rightarrow>
   (datetime \<Rightarrow> int \<Rightarrow> string \<Rightarrow> bool \<Rightarrow> pydict option \<Rightarrow> ('s, HumanTaskRecord) eff) \<Rightarrow> 's \<Rightarrow> 's \<Rightarrow> bool"
  for crt dec where
  step_create: "approval_step crt dec s (snd (crt now f s))"
| step_decide: "approval_step crt dec s (snd (dec now i a ap p s))"

context approval_service
begin

lemma decide_cases:
  assumes "ainv s"
  shows "(\<exists>e. dec now i a ap p s = (Inl e, s)) \<or>
    (\<exists>t s' rq tn pr. aview s i = Some (rq, ''pending'', tn, pr) \<and> rq \<noteq> Some a \<and> dec now i a ap p s = (Inr t, s') \<and>
      ainv s' \<and> aview s' = (aview s)(i \<mapsto> (rq, verdict ap, tn, pr)))"
proof (cases "aview s i")
  case None
  then show ?thesis using decide_unknown [OF assms] by blast
next
  case (Some v)
  obtain rq st tn pr where v: "v = (rq, st, tn, pr)" by (cases v)
  consider "rq = Some a" | "rq \<noteq> Some a" "st \<noteq> ''pending''" | "rq \<noteq> Some a" "st = ''pending''" by blast
  then show ?thesis
  proof cases
    case 1
    then show ?thesis using decide_self [OF assms] Some v by blast
  next
    case 2
    then show ?thesis using decide_late [OF assms] Some v by blast
  next
    case 3
    then show ?thesis using decide_spec [OF assms, of i rq tn pr a now ap p] Some v by blast
  qed
qed

lemma step_keeps_decided:
  assumes "approval_step crt dec s s'" "ainv s" "aview s i = Some (rq, st, tn, pr)" "st \<noteq> ''pending''"
  shows "ainv s' \<and> aview s' i = Some (rq, st, tn, pr)"
  using assms(1)
proof cases
  case (step_create now f)
  have "i \<noteq> anext s" using next_free [OF assms(2)] assms(3) by auto
  then show ?thesis using create_spec [OF assms(2), of now f] step_create assms(3) by auto
next
  case (step_decide now j a ap p)
  then show ?thesis using decide_cases [OF assms(2), of now j a ap p] assms by auto
qed

lemma steps_keep_decided:
  "(approval_step crt dec)\<^sup>*\<^sup>* s s' \<Longrightarrow> ainv s \<Longrightarrow> aview s i = Some (rq, st, tn, pr) \<Longrightarrow> st \<noteq> ''pending'' \<Longrightarrow>
     ainv s' \<and> aview s' i = Some (rq, st, tn, pr)"
  by (induction rule: rtranclp_induct) (auto dest: step_keeps_decided)

lemma decided_once:
  assumes "ainv s" "dec now i a ap p s = (Inr t, s1)" "(approval_step crt dec)\<^sup>*\<^sup>* s1 s2"
  shows "\<exists>rq tn pr. rq \<noteq> Some a \<and> aview s i = Some (rq, ''pending'', tn, pr) \<and>
    aview s2 i = Some (rq, verdict ap, tn, pr) \<and> (\<exists>e. dec now' i a' ap' p' s2 = (Inl (PermissionError e), s2))"
proof -
  obtain rq tn pr where v: "aview s i = Some (rq, ''pending'', tn, pr)" "rq \<noteq> Some a" "ainv s1"
      "aview s1 i = Some (rq, verdict ap, tn, pr)"
    using decide_cases [OF assms(1), of now i a ap p] assms(2) by auto
  have ne: "verdict ap \<noteq> ''pending''" by (simp add: verdict_def)
  have s2: "ainv s2" "aview s2 i = Some (rq, verdict ap, tn, pr)"
    using steps_keep_decided [OF assms(3) v(3,4) ne] by auto
  have "\<exists>e. dec now' i a' ap' p' s2 = (Inl (PermissionError e), s2)"
    using decide_self [OF s2(1)] decide_late [OF s2(1,2) _ ne] s2(2) by (cases "rq = Some a'") auto
  then show ?thesis using v s2(2) by blast
qed

end

text \<open>Two services that start with the same view, counter and log answer alike for good.\<close>

datatype approval_call = Call_create datetime approval_fields | Call_decide datetime int string bool "pydict option"

fun perform ::
  "(datetime \<Rightarrow> approval_fields \<Rightarrow> ('s, HumanTaskRecord) eff) \<Rightarrow>
   (datetime \<Rightarrow> int \<Rightarrow> string \<Rightarrow> bool \<Rightarrow> pydict option \<Rightarrow> ('s, HumanTaskRecord) eff) \<Rightarrow>
   approval_call list \<Rightarrow> 's \<Rightarrow> (exn + (int \<times> string \<times> string option)) list \<times> 's" where
  "perform crt dec [] s = ([], s)"
| "perform crt dec (c # cs) s =
     (case (case c of Call_create now f \<Rightarrow> crt now f s | Call_decide now i a ap p \<Rightarrow> dec now i a ap p s) of
        (r, s1) \<Rightarrow> (case perform crt dec cs s1 of (rs, s2) \<Rightarrow> (told r # rs, s2)))"

locale approval_services = one: approval_service crt dec aview anext alog ainv +
    two: approval_service crt' dec' aview' anext' alog' ainv'
  for crt :: "datetime \<Rightarrow> approval_fields \<Rightarrow> ('s, HumanTaskRecord) eff" and dec aview anext alog ainv
    and crt' :: "datetime \<Rightarrow> approval_fields \<Rightarrow> ('t, HumanTaskRecord) eff" and dec' aview' anext' alog' ainv'
begin

definition alike :: "'s \<Rightarrow> 't \<Rightarrow> bool" where
  "alike s t \<longleftrightarrow> ainv s \<and> ainv' t \<and> aview' t = aview s \<and> anext' t = anext s \<and> alog' t = alog s"

lemma create_alike:
  assumes "alike s t" "crt now f s = (r, s1)" "crt' now f t = (r', t1)"
  shows "told r' = told r \<and> alike s1 t1"
  using one.create_spec [of s now f] two.create_spec [of t now f] assms unfolding alike_def by auto

lemma decide_alike:
  assumes "alike s t" "dec now i a ap p s = (r, s1)" "dec' now i a ap p t = (r', t1)"
  shows "told r' = told r \<and> alike s1 t1"
proof -
  have st: "ainv s" "ainv' t" "aview' t = aview s" using assms(1) by (simp_all add: alike_def)
  show ?thesis
  proof (cases "aview s i")
    case None
    then show ?thesis using one.decide_unknown [OF st(1)] two.decide_unknown [OF st(2)] st(3) assms by auto
  next
    case (Some v)
    obtain rq sta tn pr where v: "aview s i = Some (rq, sta, tn, pr)" "aview' t i = Some (rq, sta, tn, pr)"
      using Some st(3) by (cases v) auto
    consider "rq = Some a" | "rq \<noteq> Some a" "sta \<noteq> ''pending''" | "rq \<noteq> Some a" "sta = ''pending''" by blast
    then show ?thesis
    proof cases
      case 1
      then show ?thesis using one.decide_self [OF st(1)] two.decide_self [OF st(2)] v assms by auto
    next
      case 2
      then show ?thesis using one.decide_late [OF st(1) v(1)] two.decide_late [OF st(2) v(2)] assms by auto
    next
      case 3
      then show ?thesis
        using one.decide_spec [OF st(1), of i rq tn pr a now ap p] two.decide_spec [OF st(2), of i rq tn pr a now ap p] v assms
        by (auto simp: alike_def)
    qed
  qed
qed

lemma perform_alike:
  "alike s t \<Longrightarrow> perform crt dec cs s = (rs, s1) \<Longrightarrow> perform crt' dec' cs t = (rs', t1) \<Longrightarrow> rs' = rs \<and> alike s1 t1"
proof (induction cs arbitrary: s t rs rs')
  case (Cons c cs)
  show ?case
  proof (cases c)
    case (Call_create now f)
    obtain r s0 r' t0 where h: "crt now f s = (r, s0)" "crt' now f t = (r', t0)" by fastforce
    from create_alike [OF Cons.prems(1) h] Cons.IH [of s0 t0] Cons.prems(2,3) h Call_create show ?thesis
      by (auto split: prod.splits)
  next
    case (Call_decide now i a ap p)
    obtain r s0 r' t0 where h: "dec now i a ap p s = (r, s0)" "dec' now i a ap p t = (r', t0)" by fastforce
    from decide_alike [OF Cons.prems(1) h] Cons.IH [of s0 t0] Cons.prems(2,3) h Call_decide show ?thesis
      by (auto split: prod.splits)
  qed
qed auto

end

section \<open>Both services implement the interface\<close>

definition memory_view :: "human_service \<Rightarrow> int \<Rightarrow> approval_view option" where
  "memory_view s i = map_option (\<lambda>t. (ht_requested_by t, ht_status t, ht_tenant_id t, ht_project_id t)) (dget (hm_tasks s) i)"

definition wf_human :: "human_service \<Rightarrow> bool" where
  "wf_human s \<longleftrightarrow> (\<forall>i t. dget (hm_tasks s) i = Some t \<longrightarrow> ht_id t = i \<and> i < hm_next_id s)"

interpretation memory_approvals: approval_service create_approval decide memory_view hm_next_id hm_audit wf_human
proof (unfold_locales, goal_cases)
  case (1 s)
  then show ?case by (cases "dget (hm_tasks s) (hm_next_id s)") (auto simp: memory_view_def wf_human_def)
next
  case (2 s now f)
  then show ?case
    by (auto simp: create_approval_def Let_def told_def new_human_task_def memory_view_def wf_human_def fun_eq_iff)
      force+
next
  case (3 s i now a ap p)
  then show ?case by (simp add: decide_def memory_view_def)
next
  case (4 s i a st tn pr now ap p)
  then show ?case by (auto simp: decide_def memory_view_def)
next
  case (5 s i rq st tn pr a now ap p)
  then show ?case by (auto simp: decide_def memory_view_def)
next
  case (6 s i rq tn pr a now ap p)
  then obtain t where "dget (hm_tasks s) i = Some t" "ht_requested_by t = rq" "ht_status t = ''pending''"
      "ht_tenant_id t = tn" "ht_project_id t = pr" "ht_id t = i"
    by (auto simp: memory_view_def wf_human_def)
  then show ?case using 6(1,3)
    by (auto simp: decide_def Let_def told_def verdict_def memory_view_def wf_human_def fun_eq_iff)
qed

definition sql_approval_view :: "sql_human_service \<Rightarrow> int \<Rightarrow> approval_view option" where
  "sql_approval_view s i = map_option (\<lambda>t. (case latest_approval i s of None \<Rightarrow> None | Some a \<Rightarrow> ap_requested_by a,
     hr_status t, hr_tenant_id t, hr_project_id t)) (dget (hq_tasks s) i)"

definition wf_sql_human :: "sql_human_service \<Rightarrow> bool" where
  "wf_sql_human s \<longleftrightarrow> distinct (dkeys (hq_approvals s)) \<and>
     (\<forall>i t. dget (hq_tasks s) i = Some t \<longrightarrow> hr_id t = i \<and> i < hq_next_task_id s) \<and>
     (\<forall>i a. dget (hq_approvals s) i = Some a \<longrightarrow> ap_id a = i \<and> i < hq_next_approval_id s \<and>
        ap_human_task_id a < hq_next_task_id s)"

text \<open>Who asked for a task, from the approval requests alone.\<close>

definition requester :: "int \<Rightarrow> sql_human_service \<Rightarrow> string option" where
  "requester i s = (case latest_approval i s of None \<Rightarrow> None | Some a \<Rightarrow> ap_requested_by a)"

lemma first_by_singleton [simp]: "first_by k [x] = Some x"
  by (simp add: first_by_def)

lemma latest_approval_created:
  assumes "wf_sql_human s" "sql_create_approval now f s = (r, s')"
  shows "latest_approval i s' = (if i = hq_next_task_id s then Some (approval_row (hq_next_approval_id s) i f) else latest_approval i s)"
proof -
  let ?a = "approval_row (hq_next_approval_id s) (hq_next_task_id s) f"
  have "dget (hq_approvals s) (hq_next_approval_id s) = None"
    using assms(1) by (cases "dget (hq_approvals s) (hq_next_approval_id s)") (auto simp: wf_sql_human_def)
  then have app: "dset (hq_approvals s) (hq_next_approval_id s) ?a = hq_approvals s @ [(hq_next_approval_id s, ?a)]"
    by (intro dset_new) (auto simp: map_of_eq_None_iff)
  have old: "ap_human_task_id a \<noteq> hq_next_task_id s" if "a \<in> set (dvals (hq_approvals s))" for a
  proof -
    obtain k where "(k, a) \<in> set (hq_approvals s)" using \<open>a \<in> _\<close> by auto
    then have "dget (hq_approvals s) k = Some a" using assms(1) by (simp add: wf_sql_human_def dget_of_mem)
    then show ?thesis using assms(1) unfolding wf_sql_human_def by (metis less_irrefl)
  qed
  then have none: "filter (\<lambda>a. ap_human_task_id a = hq_next_task_id s) (dvals (hq_approvals s)) = []"
    by (simp only: filter_empty_conv) blast
  have s': "hq_approvals s' = hq_approvals s @ [(hq_next_approval_id s, ?a)]"
    using assms(2) app by (auto simp: sql_create_approval_def Let_def human_task_row_def approval_row_def)
  show ?thesis
  proof (cases "i = hq_next_task_id s")
    case True
    have "latest_approval i s' = first_by (\<lambda>a. - ap_id a) [?a]"
      using none True by (simp add: latest_approval_def s' approval_row_def)
    then show ?thesis using True by simp
  next
    case False
    then show ?thesis by (simp add: latest_approval_def s' approval_row_def)
  qed
qed

text \<open>The choice of the latest approval only looks at ids, so changing other columns does not affect it.\<close>

lemma map_insort_key: "map g (insort_key (\<lambda>x. h (g x)) x xs) = insort_key h (g x) (map g xs)"
  by (induction xs) auto

lemma map_sort_key: "map g (sort_key (\<lambda>x. h (g x)) xs) = sort_key h (map g xs)"
proof (induction xs)
  case (Cons x xs)
  then show ?case by (simp add: sort_key_def map_insort_key)
qed simp

lemma first_by_map: "map_option g (first_by (\<lambda>x. h (g x)) xs) = first_by h (map g xs)"
  by (simp add: first_by_def map_sort_key [symmetric] split: list.splits)

definition approval_key :: "ApprovalRow \<Rightarrow> int \<times> string option" where
  "approval_key a = (ap_id a, ap_requested_by a)"

lemma requester_key:
  "requester i s = (case first_by (\<lambda>k. - fst k) (map approval_key (filter (\<lambda>a. ap_human_task_id a = i) (dvals (hq_approvals s)))) of
     None \<Rightarrow> None | Some k \<Rightarrow> snd k)"
proof -
  have "first_by (\<lambda>k. - fst k) (map approval_key xs) = map_option approval_key (first_by (\<lambda>a. - ap_id a) xs)" for xs
    using first_by_map [of approval_key "\<lambda>k. - fst k" xs] by (simp add: approval_key_def)
  then show ?thesis
    by (simp add: requester_def latest_approval_def approval_key_def split: option.splits)
qed

lemma requester_updated:
  assumes "distinct (dkeys (hq_approvals s))" "dget (hq_approvals s) k = Some a" "hq_approvals s' = dset (hq_approvals s) k a'"
    "ap_human_task_id a' = ap_human_task_id a" "approval_key a' = approval_key a"
  shows "requester i s' = requester i s"
  unfolding requester_key assms(3) using assms by (subst map_filter_dset [OF assms(1,2)]) auto

lemma latest_approval_mem:
  assumes "wf_sql_human s" "latest_approval i s = Some a"
  shows "dget (hq_approvals s) (ap_id a) = Some a"
proof -
  have "a \<in> set (dvals (hq_approvals s))"
    using first_by_Some(1) [OF assms(2) [unfolded latest_approval_def]] by auto
  then obtain k where "(k, a) \<in> set (hq_approvals s)" by auto
  then have "dget (hq_approvals s) k = Some a" using assms(1) by (simp add: wf_sql_human_def dget_of_mem)
  then show ?thesis using assms(1) by (auto simp: wf_sql_human_def)
qed

lemma sql_approval_view_eq:
  "sql_approval_view s i = map_option (\<lambda>t. (requester i s, hr_status t, hr_tenant_id t, hr_project_id t)) (dget (hq_tasks s) i)"
  by (simp add: sql_approval_view_def requester_def)

lemma sql_decide_ok:
  assumes "wf_sql_human s" "dget (hq_tasks s) i = Some t" "hr_status t = ''pending''" "requester i s \<noteq> Some a"
  shows "\<exists>r s'. sql_decide now i a ap p s = (Inr r, s') \<and> wf_sql_human s' \<and>
    told (Inr r) = Inr (i, verdict ap, requester i s) \<and>
    hq_tasks s' = dset (hq_tasks s) i (t\<lparr>hr_status := verdict ap, hr_decision_ref := Some ''inline:decision'', hr_updated_at := Some now\<rparr>) \<and>
    (\<forall>j. requester j s' = requester j s) \<and> hq_next_task_id s' = hq_next_task_id s \<and>
    hq_audit s' = hq_audit s @ [decision_audit i (hr_tenant_id t) (hr_project_id t) a ap]"
proof -
  let ?t = "t\<lparr>hr_status := verdict ap, hr_decision_ref := Some ''inline:decision'', hr_updated_at := Some now\<rparr>"
  let ?ap = "case latest_approval i s of None \<Rightarrow> hq_approvals s
    | Some x \<Rightarrow> dset (hq_approvals s) (ap_id x) (decided_approval (verdict ap) p x)"
  let ?s = "s\<lparr>hq_tasks := dset (hq_tasks s) i ?t, hq_approvals := ?ap,
    hq_audit := hq_audit s @ [decision_audit i (hr_tenant_id t) (hr_project_id t) a ap]\<rparr>"
  have id: "hr_id t = i" using assms(1,2) by (simp add: wf_sql_human_def)
  have d: "\<exists>r. sql_decide now i a ap p s = (Inr r, ?s) \<and> told (Inr r) = Inr (i, verdict ap, requester i s)"
    using assms(2-4) id
    by (simp add: sql_decide_def Let_def requester_def verdict_def told_def record_of_row_def decided_approval_def
        split: option.splits)
  have "requester j ?s = requester j s" for j
  proof (cases "latest_approval i s")
    case None
    then show ?thesis by (simp add: requester_key)
  next
    case (Some x)
    note m = latest_approval_mem [OF assms(1) Some]
    show ?thesis
      by (rule requester_updated [OF _ m, where a' = "decided_approval (verdict ap) p x"])
        (use assms(1) Some in \<open>auto simp: wf_sql_human_def decided_approval_def approval_key_def\<close>)
  qed
  moreover have "wf_sql_human ?s"
  proof (cases "latest_approval i s")
    case None
    then show ?thesis using assms(1,2) id by (auto simp: wf_sql_human_def)
  next
    case (Some x)
    have "ap_id x < hq_next_approval_id s \<and> ap_human_task_id x < hq_next_task_id s" "i < hq_next_task_id s"
      using assms(1,2) latest_approval_mem [OF assms(1) Some] unfolding wf_sql_human_def by blast+
    then show ?thesis using assms(1) id Some unfolding wf_sql_human_def
      by (simp add: decided_approval_def)
  qed
  ultimately show ?thesis using d by auto
qed

interpretation sql_approvals: approval_service sql_create_approval sql_decide sql_approval_view hq_next_task_id hq_audit wf_sql_human
proof (unfold_locales, goal_cases)
  case (1 s)
  then show ?case by (cases "dget (hq_tasks s) (hq_next_task_id s)") (auto simp: sql_approval_view_def wf_sql_human_def)
next
  case (2 s now f)
  obtain t s' where c: "sql_create_approval now f s = (Inr t, s')" by (simp add: sql_create_approval_def Let_def)
  have r: "requester i s' = (if i = hq_next_task_id s then af_requested_by f else requester i s)" for i
    using latest_approval_created [OF 2 c, of i] by (simp add: requester_def approval_row_def)
  have "wf_sql_human s'" using 2 c
    by (fastforce simp: sql_create_approval_def Let_def wf_sql_human_def human_task_row_def approval_row_def split: if_splits)
  moreover have "sql_approval_view s' = (sql_approval_view s)(hq_next_task_id s \<mapsto>
      (af_requested_by f, ''pending'', af_tenant_id f, af_project_id f))"
    using c by (auto simp: fun_eq_iff sql_approval_view_eq r) (auto simp: sql_create_approval_def Let_def human_task_row_def)
  ultimately show ?case using c
    by (auto simp: sql_create_approval_def Let_def told_def record_of_row_def human_task_row_def)
next
  case (3 s i now a ap p)
  then show ?case by (simp add: sql_decide_def sql_approval_view_def)
next
  case (4 s i a st tn pr now ap p)
  then show ?case by (auto simp: sql_decide_def sql_approval_view_def Let_def split: option.splits)
next
  case (5 s i rq st tn pr a now ap p)
  then show ?case by (auto simp: sql_decide_def sql_approval_view_def Let_def split: option.splits)
next
  case (6 s i rq tn pr a now ap p)
  then obtain t where t: "dget (hq_tasks s) i = Some t" "hr_status t = ''pending''" "requester i s = rq"
      "hr_tenant_id t = tn" "hr_project_id t = pr"
    by (auto simp: sql_approval_view_eq)
  have "requester i s \<noteq> Some a" using t(3) 6(3) by simp
  from sql_decide_ok [OF 6(1) t(1,2) this, of now ap p] show ?case
    using t by (auto simp: sql_approval_view_eq fun_eq_iff)
qed

interpretation both_approvals: approval_services create_approval decide memory_view hm_next_id hm_audit wf_human
    sql_create_approval sql_decide sql_approval_view hq_next_task_id hq_audit wf_sql_human
  by unfold_locales

section \<open>What the services promise\<close>

text \<open>
  C39: An approval is decided at most once and never by who asked for it, on the database. If a decision
  succeeds, the task was pending and its requester was somebody else; and after any further requests and
  decisions the task still has that verdict and that requester, and every further decision, by anybody,
  raises a permission error and changes nothing.
\<close>

theorem approval_decided_once:
  assumes "wf_sql_human s" "sql_decide now i a ap p s = (Inr t, s1)"
    "(approval_step sql_create_approval sql_decide)\<^sup>*\<^sup>* s1 s2"
  shows "\<exists>rq tn pr. rq \<noteq> Some a \<and> sql_approval_view s i = Some (rq, ''pending'', tn, pr) \<and>
    sql_approval_view s2 i = Some (rq, verdict ap, tn, pr) \<and>
    (\<exists>e. sql_decide now' i a' ap' p' s2 = (Inl (PermissionError e), s2))"
  using assms by (rule sql_approvals.decided_once)


section \<open>An example\<close>

definition demo_approval :: approval_fields where
  "demo_approval = \<lparr>af_tenant_id = 1, af_project_id = Some 1, af_run_id = Some 7, af_attempt_id = None, af_task_id = None,
     af_payload = [], af_requested_by = Some ''ann'', af_assignee_role = None, af_expires_at = None\<rparr>"

definition demo_pending :: sql_human_service where
  "demo_pending = snd (sql_create_approval 0 demo_approval init_sql_human)"

theorem approval_decided_once_witness:
  "\<exists>t s1 e. sql_decide 5 1 ''bob'' True None demo_pending = (Inr t, s1) \<and>
     sql_approval_view s1 1 = Some (Some ''ann'', ''approved'', 1, Some 1) \<and>
     sql_decide 9 1 ''eve'' False None s1 = (Inl (PermissionError e), s1)"
proof -
  have wf: "wf_sql_human demo_pending"
    by (simp add: demo_pending_def sql_create_approval_def init_sql_human_def wf_sql_human_def human_task_row_def approval_row_def Let_def)
  have v: "sql_approval_view demo_pending 1 = Some (Some ''ann'', ''pending'', 1, Some 1)" by code_simp
  have "\<exists>t s1. sql_decide 5 1 ''bob'' True None demo_pending = (Inr t, s1)"
    using sql_approvals.decide_spec [OF wf v, of "''bob''" 5 True None] by auto
  then obtain t s1 where d: "sql_decide 5 1 ''bob'' True None demo_pending = (Inr t, s1)" by blast
  from approval_decided_once [OF wf d rtranclp.rtrancl_refl, of 9 "''eve''" False None] d v show ?thesis
    by (auto simp: verdict_def)
qed


end
