(* ===== verification/Focus.thy ===== *)
theory Focus
  imports Task_Backend Run_Store
begin

text \<open>
  An implementation of an interface that works on a part of a larger state: the operations are carried
  to the larger state, and so is the contract they keep.
\<close>

definition focus :: "('w \<Rightarrow> 'b) \<Rightarrow> ('b \<Rightarrow> 'w \<Rightarrow> 'w) \<Rightarrow> ('b, 'x) eff \<Rightarrow> ('w, 'x) eff" where
  "focus get put m w = (case m (get w) of (r, b) \<Rightarrow> (r, put b w))"

definition focus_backend :: "('w \<Rightarrow> 'b) \<Rightarrow> ('b \<Rightarrow> 'w \<Rightarrow> 'w) \<Rightarrow> 'b task_backend_ops \<Rightarrow> 'w task_backend_ops" where
  "focus_backend get put ops =
     \<lparr>op_lease = (\<lambda>q w n. focus get put (op_lease ops q w n)),
      op_mark_running = (\<lambda>t w k. focus get put (op_mark_running ops t w k)),
      op_assert_can_complete = (\<lambda>t w k. focus get put (op_assert_can_complete ops t w k)),
      op_will_retry = (\<lambda>t. focus get put (op_will_retry ops t)),
      op_complete = (\<lambda>t w k. focus get put (op_complete ops t w k)),
      op_fail = (\<lambda>t w k e. focus get put (op_fail ops t w k e))\<rparr>"

definition focus_store ::
  "('w \<Rightarrow> 's) \<Rightarrow> ('s \<Rightarrow> 'w \<Rightarrow> 'w) \<Rightarrow> 's runtime_run_store_ops \<Rightarrow> 'w runtime_run_store_ops" where
  "focus_store get put sops =
     \<lparr>so_create_run = (\<lambda>tn pj ag ve dp inp ov th i. focus get put (so_create_run sops tn pj ag ve dp inp ov th i)),
      so_delete_run = (\<lambda>k. focus get put (so_delete_run sops k)),
      so_get_run = (\<lambda>k. focus get put (so_get_run sops k)),
      so_create_attempt = (\<lambda>k t w. focus get put (so_create_attempt sops k t w)),
      so_complete_run = (\<lambda>k d. focus get put (so_complete_run sops k d)),
      so_fail_run = (\<lambda>k d. focus get put (so_fail_run sops k d)),
      so_timeout_run = (\<lambda>k d. focus get put (so_timeout_run sops k d)),
      so_complete_attempt = (\<lambda>j. focus get put (so_complete_attempt sops j)),
      so_fail_attempt = (\<lambda>j d. focus get put (so_fail_attempt sops j d)),
      so_timeout_attempt = (\<lambda>j d. focus get put (so_timeout_attempt sops j d))\<rparr>"

lemma focus_backend_simps [simp]:
  "op_lease (focus_backend get put ops) q w n = focus get put (op_lease ops q w n)"
  "op_mark_running (focus_backend get put ops) t w k = focus get put (op_mark_running ops t w k)"
  "op_assert_can_complete (focus_backend get put ops) t w k = focus get put (op_assert_can_complete ops t w k)"
  "op_will_retry (focus_backend get put ops) t = focus get put (op_will_retry ops t)"
  "op_complete (focus_backend get put ops) t w k = focus get put (op_complete ops t w k)"
  "op_fail (focus_backend get put ops) t w k e = focus get put (op_fail ops t w k e)"
  by (simp_all add: focus_backend_def)

lemma focus_store_simps [simp]:
  "so_create_run (focus_store get put sops) tn pj ag ve dp inp ov th i =
     focus get put (so_create_run sops tn pj ag ve dp inp ov th i)"
  "so_delete_run (focus_store get put sops) k = focus get put (so_delete_run sops k)"
  "so_get_run (focus_store get put sops) k = focus get put (so_get_run sops k)"
  "so_create_attempt (focus_store get put sops) k t wk = focus get put (so_create_attempt sops k t wk)"
  "so_complete_run (focus_store get put sops) k d = focus get put (so_complete_run sops k d)"
  "so_fail_run (focus_store get put sops) k d = focus get put (so_fail_run sops k d)"
  "so_timeout_run (focus_store get put sops) k d = focus get put (so_timeout_run sops k d)"
  "so_complete_attempt (focus_store get put sops) j = focus get put (so_complete_attempt sops j)"
  "so_fail_attempt (focus_store get put sops) j d = focus get put (so_fail_attempt sops j d)"
  "so_timeout_attempt (focus_store get put sops) j d = focus get put (so_timeout_attempt sops j d)"
  by (simp_all add: focus_store_def)

text \<open>What an execution writes through the backend and through the store.\<close>

definition backend_writes :: "'w task_backend_ops \<Rightarrow> ('w, unit) eff set" where
  "backend_writes ops = (\<Union>tid w tok e. {op_mark_running ops tid w tok, op_complete ops tid w tok, op_fail ops tid w tok e})"

definition store_writes :: "'w runtime_run_store_ops \<Rightarrow> ('w, unit) eff set" where
  "store_writes sops = (\<Union>k d. {so_complete_run sops k d, so_fail_run sops k d, so_timeout_run sops k d,
       so_complete_attempt sops k, so_fail_attempt sops k d, so_timeout_attempt sops k d}) \<union>
     (\<Union>k tid w. {seq (so_create_attempt sops k tid w) (ret ())})"

text \<open>A part that can be read back after it was written, and written back without effect.\<close>

locale part =
  fixes get :: "'w \<Rightarrow> 'b" and put :: "'b \<Rightarrow> 'w \<Rightarrow> 'w"
  assumes get_put [simp]: "get (put b w) = b" and put_get [simp]: "put (get w) w = w"
begin

lemma focus_run: "m (get w) = (r, b) \<Longrightarrow> focus get put m w = (r, put b w)"
  by (simp add: focus_def)

lemma focus_seq_ret: "seq (focus get put m) (ret x) w = focus get put (seq m (ret x)) w"
  by (simp add: focus_def seq_def bnd_def ret_def split: prod.splits sum.splits)

lemma focusD: "focus get put m w = (r, w') \<Longrightarrow> \<exists>b. m (get w) = (r, b) \<and> w' = put b w"
  by (auto simp: focus_def split: prod.splits)

lemma focus_ex:
  "\<exists>b. m (get w) = (r, b) \<and> P b \<Longrightarrow> \<exists>w'. focus get put m w = (r, w') \<and> P (get w')"
  by (auto simp: focus_def)

lemma focus_ex2:
  "\<exists>b y. m (get w) = (r, b) \<and> P b y \<Longrightarrow> \<exists>w' y. focus get put m w = (r, w') \<and> P (get w') y"
  by (auto simp: focus_def)

lemma focus_ex3:
  "\<exists>b y z. m (get w) = (r, b) \<and> P b y z \<Longrightarrow> \<exists>w' y z. focus get put m w = (r, w') \<and> P (get w') y z"
  by (auto simp: focus_def) (metis get_put)

lemma focus_res:
  "\<exists>x b. m (get w) = (Inr x, b) \<and> P x b \<Longrightarrow> \<exists>x w'. focus get put m w = (Inr x, w') \<and> P x (get w')"
  by (auto simp: focus_def)

lemma focus_read: "m (get w) = (r, get w) \<Longrightarrow> focus get put m w = (r, w)"
  by (simp add: focus_def)

lemma backend_contract:
  assumes "runtime_task_backend ops view binv"
  shows "runtime_task_backend (focus_backend get put ops) (\<lambda>w. view (get w)) (\<lambda>w. binv (get w))"
proof (unfold_locales, unfold focus_backend_simps, goal_cases)
  case (1 b q w n sn b')
  then show ?case using runtime_task_backend.lease_leases [OF assms 1(1)] by (auto dest!: focusD)
next
  case (2 b q w n r b')
  then show ?case using runtime_task_backend.lease_inv [OF assms 2(1)] by (auto dest!: focusD)
next
  case (3 b tid w tok)
  show ?case by (rule focus_read, rule runtime_task_backend.can_complete [OF assms 3])
next
  case (4 b tid v)
  show ?case by (rule focus_read, rule runtime_task_backend.will_retry [OF assms 4])
next
  case (5 b tid v tok w)
  show ?case by (rule focus_ex, rule runtime_task_backend.mark_running_ok [OF assms 5])
next
  case (6 b tid v tok w)
  show ?case by (rule focus_ex, rule runtime_task_backend.complete_ok [OF assms 6])
next
  case (7 b tid v tok w e)
  show ?case by (rule focus_ex, rule runtime_task_backend.fail_ok [OF assms 7])
next
  case (8 b tid w tok x)
  show ?case by (rule focus_read, rule runtime_task_backend.complete_refused [OF assms 8])
next
  case (9 b tid w tok x e)
  show ?case by (rule focus_read, rule runtime_task_backend.fail_refused [OF assms 9])
qed

lemma store_contract:
  assumes "runtime_run_store sops run_of attempt_of sinv stored"
  shows "runtime_run_store (focus_store get put sops) (\<lambda>w. run_of (get w)) (\<lambda>w. attempt_of (get w))
     (\<lambda>w. sinv (get w)) stored"
proof (unfold_locales, unfold focus_store_simps, goal_cases)
  case (1 s k)
  show ?case by (rule focus_read, rule runtime_run_store.get_run_law [OF assms 1])
next
  case (2 s tn pj ag ve dp inp ov th)
  show ?case by (rule focus_res, rule runtime_run_store.create_run_law [OF assms 2])
next
  case (3 s k r tid w)
  show ?case by (rule focus_res, rule runtime_run_store.create_attempt_law [OF assms 3])
next
  case (4 s k r d)
  show ?case by (rule focus_ex, rule runtime_run_store.complete_run_law [OF assms 4])
next
  case (5 s k r d)
  show ?case by (rule focus_ex2, rule runtime_run_store.fail_run_law [OF assms 5])
next
  case (6 s k r d)
  show ?case by (rule focus_ex2, rule runtime_run_store.timeout_run_law [OF assms 6])
next
  case (7 s j a)
  show ?case by (rule focus_ex2, rule runtime_run_store.complete_attempt_law [OF assms 7])
next
  case (8 s j a d)
  show ?case by (rule focus_ex3, rule runtime_run_store.fail_attempt_law [OF assms 8])
next
  case (9 s j a d)
  show ?case by (rule focus_ex3, rule runtime_run_store.timeout_attempt_law [OF assms 9])
qed

lemma backend_writes_focus:
  assumes "m \<in> backend_writes (focus_backend get put ops)" "m w = (res, w')"
  shows "\<exists>m' b. m' \<in> backend_writes ops \<and> m' (get w) = (res, b) \<and> w' = put b w"
proof -
  have "backend_writes (focus_backend get put ops) = focus get put ` backend_writes ops"
    by (simp add: backend_writes_def image_UN)
  then obtain m' where "m' \<in> backend_writes ops" "m = focus get put m'" using assms(1) by blast
  then show ?thesis using assms(2) focusD by blast
qed

lemma store_writes_focus:
  assumes "m \<in> store_writes (focus_store get put sops)" "m w = (res, w')"
  shows "\<exists>m' b. m' \<in> store_writes sops \<and> m' (get w) = (res, b) \<and> w' = put b w"
proof -
  have "seq (focus get put c) (ret ()) = focus get put (seq c (ret ()))" for c :: "('b, RuntimeAttempt) eff"
    by (simp add: fun_eq_iff focus_seq_ret)
  then have "store_writes (focus_store get put sops) = focus get put ` store_writes sops"
    by (simp add: store_writes_def image_UN image_Un)
  then obtain m' where "m' \<in> store_writes sops" "m = focus get put m'" using assms(1) by blast
  then show ?thesis using assms(2) focusD by blast
qed

end

end
