(* ===== verification/Sql_Run_Store.thy ===== *)
theory Sql_Run_Store
  imports Sql_Backend Focus
begin

text \<open>
  The run store on the database (\<open>runtime/sqlalchemy_run_store.py\<close>). It shares the tables of the session
  with the task backend. \<open>now\<close> is a clock reading. An attempt that is added before the call raises stays
  in the session, where the next flush writes it.
\<close>

section \<open>Rows and the objects they stand for\<close>

definition put_run :: "RunRow \<Rightarrow> sql_session \<Rightarrow> sql_session" where
  "put_run r s = s\<lparr>se_runs := dset (se_runs s) (rw_id r) r\<rparr>"

definition encode_ref :: "pydict \<Rightarrow> string" where
  "encode_ref payload = ''json:'' @ dumps_sorted (VDict payload)"

text \<open>\<open>{"message": error} if error else None\<close>\<close>

definition error_entry :: "string option \<Rightarrow> pydict option" where
  "error_entry error = (case error of None \<Rightarrow> None
     | Some e \<Rightarrow> if e = [] then None else Some [(''message'', VStr e)])"

definition run_from_model :: "RunRow \<Rightarrow> exn + RuntimeRun" where
  "run_from_model run = (case decode_ref (rw_input_ref run) of
       Inl e \<Rightarrow> Inl e
     | Inr input \<Rightarrow> (case decode_ref (rw_output_ref run) of
         Inl e \<Rightarrow> Inl e
       | Inr output \<Rightarrow> Inr
           \<lparr>r_run_id = rw_id run, r_tenant_id = rw_tenant_id run, r_project_id = rw_project_id run,
            r_agent_id = rw_agent_id run, r_agent_version_id = rw_agent_version_id run,
            r_deployment_id = rw_deployment_id run, r_input_data = input, r_override_config = [],
            r_status = rw_status run, r_thread_id = rw_thread_id run, r_output = Some output,
            r_error = error_entry (rw_error run), r_created_at = rw_created_at run\<rparr>))"

definition attempt_from_model :: "RunAttemptRow \<Rightarrow> RuntimeAttempt" where
  "attempt_from_model a =
     \<lparr>a_attempt_id = ra_id a, a_run_id = ra_run_id a, a_task_id = or_id (ra_task_id a) 0,
      a_worker_id = or_str (ra_worker_id a) [], a_attempt_no = ra_attempt_no a, a_status = ra_status a,
      a_started_at = or_else (ra_started_at a) (ra_created_at a), a_finished_at = ra_finished_at a,
      a_error = error_entry (ra_error a)\<rparr>"

definition latency_ms :: "datetime option \<Rightarrow> datetime option \<Rightarrow> int option" where
  "latency_ms started finished = (case (started, finished) of
       (Some a, Some b) \<Rightarrow> Some (max 0 (elapsed_ms a b))
     | _ \<Rightarrow> None)"

section \<open>Operations\<close>

definition on_run_row :: "int \<Rightarrow> (RunRow, 'a) eff \<Rightarrow> (sql_session, 'a) eff" where
  "on_run_row run_id = on_entry se_runs (\<lambda>d s. s\<lparr>se_runs := d\<rparr>) run_id"

definition on_attempt_row :: "int \<Rightarrow> (RunAttemptRow, 'a) eff \<Rightarrow> (sql_session, 'a) eff" where
  "on_attempt_row attempt_id = on_entry se_attempts (\<lambda>d s. s\<lparr>se_attempts := d\<rparr>) attempt_id"

definition row_to :: "RunStatus \<Rightarrow> (RunRow, unit) eff" where
  "row_to st = seq (\<lambda>r. (assert_run_transition (rw_status r) st, r)) (upd (\<lambda>r. r\<lparr>rw_status := st\<rparr>))"

definition row_start :: "datetime \<Rightarrow> (RunRow, unit) eff" where
  "row_start now = seq (row_to Run_running) (upd (\<lambda>r. r\<lparr>rw_started_at := Some (or_else (rw_started_at r) now)\<rparr>))"

definition row_promote_pending :: "datetime \<Rightarrow> (RunRow, unit) eff" where
  "row_promote_pending now = when_st (\<lambda>r. rw_status r = Run_pending) (row_start now)"

definition sql_run_runs :: "sql_session \<Rightarrow> exn + (int \<times> RuntimeRun) list" where
  "sql_run_runs s = foldr (\<lambda>run acc. case (run_from_model run, acc) of
       (Inr r, Inr rs) \<Rightarrow> Inr ((rw_id run, r) # rs) | (Inl e, _) \<Rightarrow> Inl e | (_, Inl e) \<Rightarrow> Inl e)
     (filter (\<lambda>r. \<not> rw_is_deleted r) (dvals (se_runs s))) (Inr [])"

definition sql_run_attempts :: "sql_session \<Rightarrow> (int \<times> RuntimeAttempt) list" where
  "sql_run_attempts s = map (\<lambda>a. (ra_id a, attempt_from_model a))
     (filter (\<lambda>a. \<not> ra_is_deleted a) (dvals (se_attempts s)))"

definition sql_create_run ::
  "datetime \<Rightarrow> int \<Rightarrow> int \<Rightarrow> int \<Rightarrow> int \<Rightarrow> int option \<Rightarrow> pydict \<Rightarrow> pydict option \<Rightarrow> string option \<Rightarrow>
     int option \<Rightarrow> (sql_session, RuntimeRun) eff" where
  "sql_create_run now tenant project agent version deployment input_data override_config thread run_id s =
     (let row = \<lparr>rw_id = se_next_run_id s, rw_tenant_id = tenant, rw_project_id = project, rw_user_id = None,
           rw_service_account_id = None, rw_agent_id = agent, rw_agent_version_id = version,
           rw_deployment_id = deployment, rw_session_id = None, rw_framework = None, rw_adapter = None,
           rw_thread_id = thread, rw_trace_id = None, rw_idempotency_key = None, rw_status = Run_pending,
           rw_input_ref = Some (encode_ref input_data), rw_output_ref = None, rw_error = None,
           rw_started_at = None, rw_finished_at = None, rw_created_at = now, rw_is_deleted = False\<rparr>
      in (run_from_model row, (put_run row s)\<lparr>se_next_run_id := se_next_run_id s + 1\<rparr>))"

definition sql_latest_attempt_of_run :: "int \<Rightarrow> sql_session \<Rightarrow> RunAttemptRow option" where
  "sql_latest_attempt_of_run run_id s =
     first_by (\<lambda>a. - ra_attempt_no a) (filter (\<lambda>a. ra_run_id a = run_id) (dvals (se_attempts s)))"

definition sql_create_attempt :: "datetime \<Rightarrow> int \<Rightarrow> int \<Rightarrow> string \<Rightarrow> (sql_session, RuntimeAttempt) eff" where
  "sql_create_attempt now run_id task_id worker_id s =
     (let no = (case sql_latest_attempt_of_run run_id s of None \<Rightarrow> 1 | Some a \<Rightarrow> ra_attempt_no a + 1);
          a = \<lparr>ra_id = se_next_attempt_id s, ra_run_id = run_id, ra_task_id = Some task_id, ra_attempt_no = no,
               ra_worker_id = Some worker_id, ra_status = Attempt_running, ra_started_at = Some now,
               ra_finished_at = None, ra_error = None, ra_latency_ms = None, ra_created_at = now,
               ra_is_deleted = False\<rparr>
      in seq (on_run_row run_id (when_st (\<lambda>r. rw_status r \<noteq> Run_running) (row_start now)))
           (ret (attempt_from_model a))
           ((put_attempt a s)\<lparr>se_next_attempt_id := se_next_attempt_id s + 1\<rparr>))"

definition sql_get_run :: "int \<Rightarrow> (sql_session, RuntimeRun) eff" where
  "sql_get_run run_id = on_run_row run_id (\<lambda>r. (run_from_model r, r))"

definition sql_complete_run :: "datetime \<Rightarrow> int \<Rightarrow> pydict \<Rightarrow> (sql_session, unit) eff" where
  "sql_complete_run now run_id output = on_run_row run_id (seq (row_promote_pending now) (seq (row_to Run_succeeded)
     (upd (\<lambda>r. r\<lparr>rw_output_ref := Some (encode_ref output), rw_finished_at := Some now\<rparr>))))"

definition sql_fail_run :: "datetime \<Rightarrow> int \<Rightarrow> pydict \<Rightarrow> (sql_session, unit) eff" where
  "sql_fail_run now run_id error = on_run_row run_id (seq (row_promote_pending now) (seq (row_to Run_failed)
     (upd (\<lambda>r. r\<lparr>rw_error := Some (error_message error), rw_finished_at := Some now\<rparr>))))"

definition sql_timeout_run :: "datetime \<Rightarrow> int \<Rightarrow> pydict \<Rightarrow> (sql_session, unit) eff" where
  "sql_timeout_run now run_id error = on_run_row run_id (seq (row_promote_pending now) (seq (row_to Run_timeout)
     (upd (\<lambda>r. r\<lparr>rw_error := Some (error_message error), rw_finished_at := Some now\<rparr>))))"

definition sql_mark_run_running :: "datetime \<Rightarrow> int \<Rightarrow> (sql_session, unit) eff" where
  "sql_mark_run_running now run_id =
     on_run_row run_id (when_st (\<lambda>r. rw_status r \<noteq> Run_running) (row_start now))"

definition sql_cancel_run :: "datetime \<Rightarrow> int \<Rightarrow> (sql_session, unit) eff" where
  "sql_cancel_run now run_id = on_run_row run_id (seq (row_to Run_cancelled)
     (upd (\<lambda>r. r\<lparr>rw_finished_at := Some now\<rparr>)))"

definition sql_delete_run :: "int \<Rightarrow> (sql_session, unit) eff" where
  "sql_delete_run run_id = on_run_row run_id (upd (\<lambda>r. r\<lparr>rw_is_deleted := True\<rparr>))"

definition attempt_to :: "datetime \<Rightarrow> RunAttemptStatus \<Rightarrow> (RunAttemptRow \<Rightarrow> RunAttemptRow) \<Rightarrow> (RunAttemptRow, unit) eff" where
  "attempt_to now st f = seq (\<lambda>a. (assert_run_attempt_transition (ra_status a) st, a))
     (upd (\<lambda>a. (f a)\<lparr>ra_status := st, ra_finished_at := Some now,
                      ra_latency_ms := latency_ms (ra_started_at a) (Some now)\<rparr>))"

definition sql_complete_attempt :: "datetime \<Rightarrow> int \<Rightarrow> (sql_session, unit) eff" where
  "sql_complete_attempt now attempt_id = on_attempt_row attempt_id (attempt_to now Attempt_succeeded id)"

definition sql_fail_attempt :: "datetime \<Rightarrow> int \<Rightarrow> pydict \<Rightarrow> (sql_session, unit) eff" where
  "sql_fail_attempt now attempt_id error = on_attempt_row attempt_id
     (attempt_to now Attempt_failed (\<lambda>a. a\<lparr>ra_error := Some (error_message error)\<rparr>))"

definition sql_timeout_attempt :: "datetime \<Rightarrow> int \<Rightarrow> pydict \<Rightarrow> (sql_session, unit) eff" where
  "sql_timeout_attempt now attempt_id error = on_attempt_row attempt_id
     (attempt_to now Attempt_timeout (\<lambda>a. a\<lparr>ra_error := Some (error_message error)\<rparr>))"

section \<open>The contract of the run stores\<close>

definition sql_store_ops :: "datetime \<Rightarrow> sql_session runtime_run_store_ops" where
  "sql_store_ops now = \<lparr>so_create_run = sql_create_run now, so_delete_run = sql_delete_run,
     so_get_run = sql_get_run, so_create_attempt = sql_create_attempt now, so_complete_run = sql_complete_run now,
     so_fail_run = sql_fail_run now, so_timeout_run = sql_timeout_run now,
     so_complete_attempt = sql_complete_attempt now, so_fail_attempt = sql_fail_attempt now,
     so_timeout_attempt = sql_timeout_attempt now\<rparr>"

lemma sql_store_ops_simps [simp]:
  "so_create_run (sql_store_ops now) = sql_create_run now"
  "so_delete_run (sql_store_ops now) = sql_delete_run"
  "so_get_run (sql_store_ops now) = sql_get_run"
  "so_create_attempt (sql_store_ops now) = sql_create_attempt now"
  "so_complete_run (sql_store_ops now) = sql_complete_run now"
  "so_fail_run (sql_store_ops now) = sql_fail_run now"
  "so_timeout_run (sql_store_ops now) = sql_timeout_run now"
  "so_complete_attempt (sql_store_ops now) = sql_complete_attempt now"
  "so_fail_attempt (sql_store_ops now) = sql_fail_attempt now"
  "so_timeout_attempt (sql_store_ops now) = sql_timeout_attempt now"
  by (simp_all add: sql_store_ops_def)

text \<open>The run and the attempt a caller sees under an id, and a payload after its way through the table.\<close>

definition readable :: "RunRow \<Rightarrow> bool" where
  "readable r \<longleftrightarrow> \<not> isl (decode_ref (rw_input_ref r)) \<and> \<not> isl (decode_ref (rw_output_ref r))"

definition seen_run :: "RunRow \<Rightarrow> RuntimeRun" where
  "seen_run r = \<lparr>r_run_id = rw_id r, r_tenant_id = rw_tenant_id r, r_project_id = rw_project_id r,
     r_agent_id = rw_agent_id r, r_agent_version_id = rw_agent_version_id r, r_deployment_id = rw_deployment_id r,
     r_input_data = projr (decode_ref (rw_input_ref r)), r_override_config = [], r_status = rw_status r,
     r_thread_id = rw_thread_id r, r_output = Some (projr (decode_ref (rw_output_ref r))),
     r_error = error_entry (rw_error r), r_created_at = rw_created_at r\<rparr>"

definition sql_run_of :: "sql_session \<Rightarrow> int \<Rightarrow> RuntimeRun option" where
  "sql_run_of s k = map_option seen_run (dget (se_runs s) k)"

definition sql_attempt_of :: "sql_session \<Rightarrow> int \<Rightarrow> RuntimeAttempt option" where
  "sql_attempt_of s k = map_option attempt_from_model (dget (se_attempts s) k)"

definition stored_payload :: "pydict \<Rightarrow> pydict" where
  "stored_payload d = (case json_canon (sort_keys (VDict d)) of VDict x \<Rightarrow> x | _ \<Rightarrow> [])"

definition wf_run_tables :: "sql_session \<Rightarrow> bool" where
  "wf_run_tables s \<longleftrightarrow> all_entries (\<lambda>k r. rw_id r = k \<and> k < se_next_run_id s \<and> readable r) (se_runs s) \<and>
     all_entries (\<lambda>k a. ra_id a = k \<and> k < se_next_attempt_id s) (se_attempts s) \<and> events_kept s"

lemma loads_stored: "loads (dumps_sorted (VDict d)) = Some (VDict (stored_payload d))"
  by (simp add: dumps_sorted_def loads_dumps_canon stored_payload_def del: dumps.simps)

lemma decode_encode_ref [simp]: "decode_ref (Some (encode_ref d)) = Inr (stored_payload d)"
  by (simp add: decode_ref_def encode_ref_def startswith_def loads_stored)

lemma readable_run: "readable r \<Longrightarrow> run_from_model r = Inr (seen_run r)"
  by (auto simp: readable_def seen_run_def run_from_model_def split: sum.splits)

text \<open>How writing a column shows in the object.\<close>

lemma readable_upd [simp]:
  "readable (r\<lparr>rw_status := st\<rparr>) = readable r" "readable (r\<lparr>rw_started_at := t\<rparr>) = readable r"
  "readable (r\<lparr>rw_finished_at := t\<rparr>) = readable r" "readable (r\<lparr>rw_is_deleted := b\<rparr>) = readable r"
  "readable (r\<lparr>rw_error := e\<rparr>) = readable r"
  "readable r \<Longrightarrow> readable (r\<lparr>rw_output_ref := Some (encode_ref d)\<rparr>)"
  by (simp_all add: readable_def)

lemma seen_run_upd [simp]:
  "seen_run (r\<lparr>rw_status := st\<rparr>) = (seen_run r)\<lparr>r_status := st\<rparr>"
  "seen_run (r\<lparr>rw_started_at := t\<rparr>) = seen_run r" "seen_run (r\<lparr>rw_finished_at := t\<rparr>) = seen_run r"
  "seen_run (r\<lparr>rw_is_deleted := b\<rparr>) = seen_run r"
  "seen_run (r\<lparr>rw_error := e\<rparr>) = (seen_run r)\<lparr>r_error := error_entry e\<rparr>"
  "seen_run (r\<lparr>rw_output_ref := Some (encode_ref d)\<rparr>) = (seen_run r)\<lparr>r_output := Some (stored_payload d)\<rparr>"
  "r_status (seen_run r) = rw_status r"
  by (simp_all add: seen_run_def)

lemma sql_run_of_Some:
  "sql_run_of s k = Some r \<longleftrightarrow> (\<exists>row. dget (se_runs s) k = Some row \<and> seen_run row = r)"
  by (simp add: sql_run_of_def)

lemma wf_run_row:
  "wf_run_tables s \<Longrightarrow> dget (se_runs s) k = Some r \<Longrightarrow> rw_id r = k \<and> k < se_next_run_id s \<and> readable r"
  by (auto simp: wf_run_tables_def dest: all_entriesD)

lemma wf_attempt_row:
  "wf_run_tables s \<Longrightarrow> dget (se_attempts s) k = Some a \<Longrightarrow> ra_id a = k \<and> k < se_next_attempt_id s"
  by (auto simp: wf_run_tables_def dest: all_entriesD)

text \<open>Writing one row.\<close>

lemma run_row_written:
  assumes "wf_run_tables s" "dget (se_runs s) k = Some r" "m r = (Inr x, r')" "rw_id r' = rw_id r" "readable r'"
  shows "on_run_row k m s = (Inr x, s\<lparr>se_runs := dset (se_runs s) k r'\<rparr>)"
    "wf_run_tables (s\<lparr>se_runs := dset (se_runs s) k r'\<rparr>)"
    "sql_run_of (s\<lparr>se_runs := dset (se_runs s) k r'\<rparr>) = (sql_run_of s)(k \<mapsto> seen_run r')"
    "sql_attempt_of (s\<lparr>se_runs := dset (se_runs s) k r'\<rparr>) = sql_attempt_of s"
  using assms wf_run_row [OF assms(1,2)]
  by (auto simp: on_run_row_def on_entry_def wf_run_tables_def sql_run_of_def sql_attempt_of_def events_kept_def fun_eq_iff)

lemma attempt_row_written:
  assumes "wf_run_tables s" "dget (se_attempts s) k = Some a" "m a = (Inr x, a')" "ra_id a' = ra_id a"
  shows "on_attempt_row k m s = (Inr x, s\<lparr>se_attempts := dset (se_attempts s) k a'\<rparr>)"
    "wf_run_tables (s\<lparr>se_attempts := dset (se_attempts s) k a'\<rparr>)"
    "sql_attempt_of (s\<lparr>se_attempts := dset (se_attempts s) k a'\<rparr>) = (sql_attempt_of s)(k \<mapsto> attempt_from_model a')"
    "sql_run_of (s\<lparr>se_attempts := dset (se_attempts s) k a'\<rparr>) = sql_run_of s"
  using assms wf_attempt_row [OF assms(1,2)]
  by (auto simp: on_attempt_row_def on_entry_def wf_run_tables_def sql_run_of_def sql_attempt_of_def events_kept_def fun_eq_iff)

lemma row_computations:
  "rw_status r = Run_running \<Longrightarrow> st \<in> {Run_succeeded, Run_failed, Run_timeout} \<Longrightarrow>
     seq (row_promote_pending now) (seq (row_to st) (upd f)) r = (Inr (), f (r\<lparr>rw_status := st\<rparr>))"
  "startable (rw_status r) \<Longrightarrow> when_st (\<lambda>r. rw_status r \<noteq> Run_running) (row_start now) r =
     (Inr (), if rw_status r = Run_running then r
              else r\<lparr>rw_status := Run_running, rw_started_at := Some (or_else (rw_started_at r) now)\<rparr>)"
  by (auto simp: row_promote_pending_def row_start_def row_to_def eff_simps run_transition_table startable_def)
    (cases "rw_status r"; simp)

lemma attempt_row_computations:
  "ra_status a = Attempt_running \<Longrightarrow> st \<noteq> Attempt_running \<Longrightarrow>
     attempt_to now st f a = (Inr (), (f a)\<lparr>ra_status := st, ra_finished_at := Some now,
       ra_latency_ms := latency_ms (ra_started_at a) (Some now)\<rparr>)"
  by (simp add: attempt_to_def eff_simps attempt_transition_table)

lemma run_row_law:
  assumes "wf_run_tables s" "sql_run_of s k = Some r" "r_status r = Run_running"
    "st \<in> {Run_succeeded, Run_failed, Run_timeout}"
    "\<And>row. rw_id (f row) = rw_id row" "\<And>row. readable row \<Longrightarrow> readable (f row)"
    "\<And>row. readable row \<Longrightarrow> seen_run (f row) = g (seen_run row)"
  shows "\<exists>s'. on_run_row k (seq (row_promote_pending now) (seq (row_to st) (upd f))) s = (Inr (), s') \<and>
     wf_run_tables s' \<and> sql_attempt_of s' = sql_attempt_of s \<and>
     sql_run_of s' = (sql_run_of s)(k \<mapsto> g (r\<lparr>r_status := st\<rparr>))"
proof -
  obtain row where row: "dget (se_runs s) k = Some row" "seen_run row = r" using assms(2) by (auto simp: sql_run_of_Some)
  then have "rw_status row = Run_running" using assms(3) by auto
  note w = run_row_written [where m = "seq (row_promote_pending now) (seq (row_to st) (upd f))",
    OF assms(1) row(1) row_computations(1) [OF this assms(4)]]
  show ?thesis using w row assms(5-7) wf_run_row [OF assms(1) row(1)] by auto
qed

lemma attempt_row_law:
  assumes "wf_run_tables s" "sql_attempt_of s j = Some a" "a_status a = Attempt_running" "st \<noteq> Attempt_running"
    "\<And>row. ra_id (f row) = ra_id row"
    "\<And>row. attempt_from_model (f row) = (attempt_from_model row)\<lparr>a_error := g row\<rparr>"
  shows "\<exists>s' e. on_attempt_row j (attempt_to now st f) s = (Inr (), s') \<and> wf_run_tables s' \<and> sql_run_of s' = sql_run_of s \<and>
     sql_attempt_of s' = (sql_attempt_of s)(j \<mapsto> a\<lparr>a_error := e, a_status := st, a_finished_at := Some now\<rparr>) \<and>
     (\<exists>row. attempt_from_model row = a \<and> e = g row)"
proof -
  obtain row where row: "dget (se_attempts s) j = Some row" "attempt_from_model row = a"
    using assms(2) by (auto simp: sql_attempt_of_def)
  then have st: "ra_status row = Attempt_running" using assms(3) by (auto simp: attempt_from_model_def)
  have v: "attempt_from_model ((f row)\<lparr>ra_status := st, ra_finished_at := Some now, ra_latency_ms := l\<rparr>) =
      a\<lparr>a_error := g row, a_status := st, a_finished_at := Some now\<rparr>" for l
    using assms(6) [of row] row(2) by (auto simp: attempt_from_model_def)
  show ?thesis
    using attempt_row_written [where m = "attempt_to now st f", OF assms(1) row(1)
        attempt_row_computations [OF st assms(4)]] assms(5) v row(2)
    by auto
qed

text \<open>New rows.\<close>

lemma fresh_run: "wf_run_tables s \<Longrightarrow> dget (se_runs s) (se_next_run_id s) = None"
  using wf_run_row [of s "se_next_run_id s"] by (cases "dget (se_runs s) (se_next_run_id s)") auto

lemma fresh_attempt: "wf_run_tables s \<Longrightarrow> dget (se_attempts s) (se_next_attempt_id s) = None"
  using wf_attempt_row [of s "se_next_attempt_id s"] by (cases "dget (se_attempts s) (se_next_attempt_id s)") auto

lemma run_row_added:
  assumes "wf_run_tables s" "rw_id r = se_next_run_id s" "readable r"
  shows "wf_run_tables ((put_run r s)\<lparr>se_next_run_id := se_next_run_id s + 1\<rparr>)"
    "sql_run_of ((put_run r s)\<lparr>se_next_run_id := se_next_run_id s + 1\<rparr>) = (sql_run_of s)(rw_id r \<mapsto> seen_run r)"
    "sql_attempt_of ((put_run r s)\<lparr>se_next_run_id := se_next_run_id s + 1\<rparr>) = sql_attempt_of s"
  using assms all_entries_mono [of "\<lambda>k r. rw_id r = k \<and> k < se_next_run_id s \<and> readable r" "se_runs s"
      "\<lambda>k r. rw_id r = k \<and> k < se_next_run_id s + 1 \<and> readable r"]
  by (auto simp: wf_run_tables_def put_run_def sql_run_of_def sql_attempt_of_def events_kept_def fun_eq_iff)

lemma attempt_row_added:
  assumes "wf_run_tables s" "ra_id a = se_next_attempt_id s"
  shows "wf_run_tables ((put_attempt a s)\<lparr>se_next_attempt_id := se_next_attempt_id s + 1\<rparr>)"
    "sql_attempt_of ((put_attempt a s)\<lparr>se_next_attempt_id := se_next_attempt_id s + 1\<rparr>) =
       (sql_attempt_of s)(ra_id a \<mapsto> attempt_from_model a)"
    "sql_run_of ((put_attempt a s)\<lparr>se_next_attempt_id := se_next_attempt_id s + 1\<rparr>) = sql_run_of s"
  using assms all_entries_mono [of "\<lambda>k a. ra_id a = k \<and> k < se_next_attempt_id s" "se_attempts s"
      "\<lambda>k a. ra_id a = k \<and> k < se_next_attempt_id s + 1"]
  by (auto simp: wf_run_tables_def put_attempt_def sql_run_of_def sql_attempt_of_def events_kept_def fun_eq_iff)

interpretation sql_store: runtime_run_store "sql_store_ops now" sql_run_of sql_attempt_of wf_run_tables stored_payload
proof (unfold_locales, unfold sql_store_ops_simps, goal_cases)
  case (1 s k)
  then show ?case
    by (auto simp: sql_get_run_def on_run_row_def on_entry_def sql_run_of_def readable_run AList.update_triv
        dest: wf_run_row split: option.splits)
next
  case (2 s tn pj ag ve dp inp ov th)
  define row where "row = \<lparr>rw_id = se_next_run_id s, rw_tenant_id = tn, rw_project_id = pj, rw_user_id = None,
     rw_service_account_id = None, rw_agent_id = ag, rw_agent_version_id = ve, rw_deployment_id = dp, rw_session_id = None,
     rw_framework = None, rw_adapter = None, rw_thread_id = th, rw_trace_id = None, rw_idempotency_key = None,
     rw_status = Run_pending, rw_input_ref = Some (encode_ref inp), rw_output_ref = None, rw_error = None,
     rw_started_at = None, rw_finished_at = None, rw_created_at = now, rw_is_deleted = False\<rparr>"
  have row: "readable row" "rw_id row = se_next_run_id s" "r_run_id (seen_run row) = se_next_run_id s"
      "r_status (seen_run row) = Run_pending"
    by (simp_all add: row_def readable_def decode_ref_def [of None] seen_run_def)
  have "sql_create_run now tn pj ag ve dp inp ov th None s =
      (Inr (seen_run row), (put_run row s)\<lparr>se_next_run_id := se_next_run_id s + 1\<rparr>)"
    using readable_run [OF row(1)] by (simp add: sql_create_run_def Let_def row_def)
  then show ?case
    using run_row_added [OF 2 row(2,1)] row fresh_run [OF 2] by (simp add: sql_run_of_def)
next
  case (3 s k r tid w)
  obtain row where row: "dget (se_runs s) k = Some row" "seen_run row = r" using 3(2) by (auto simp: sql_run_of_Some)
  define a where "a = \<lparr>ra_id = se_next_attempt_id s, ra_run_id = k, ra_task_id = Some tid,
     ra_attempt_no = (case sql_latest_attempt_of_run k s of None \<Rightarrow> 1 | Some a \<Rightarrow> ra_attempt_no a + 1),
     ra_worker_id = Some w, ra_status = Attempt_running, ra_started_at = Some now, ra_finished_at = None,
     ra_error = None, ra_latency_ms = None, ra_created_at = now, ra_is_deleted = False\<rparr>"
  define s1 where "s1 = (put_attempt a s)\<lparr>se_next_attempt_id := se_next_attempt_id s + 1\<rparr>"
  have a: "ra_id a = se_next_attempt_id s" by (simp add: a_def)
  note s1 = attempt_row_added [OF 3(1) a, folded s1_def]
  have g: "dget (se_runs s1) k = Some row" using row(1) by (simp add: s1_def put_attempt_def)
  have st: "startable (rw_status row)" using 3(3) row(2) by auto
  note w = run_row_written [where m = "when_st (\<lambda>r. rw_status r \<noteq> Run_running) (row_start now)",
      OF s1(1) g row_computations(2) [OF st]]
  have "sql_create_attempt now k tid w s = seq (on_run_row k (when_st (\<lambda>r. rw_status r \<noteq> Run_running) (row_start now)))
      (ret (attempt_from_model a)) s1"
    by (simp add: sql_create_attempt_def Let_def a_def s1_def)
  moreover have "a_run_id (attempt_from_model a) = k \<and> a_task_id (attempt_from_model a) = tid \<and>
      a_worker_id (attempt_from_model a) = w \<and> a_status (attempt_from_model a) = Attempt_running \<and>
      a_attempt_id (attempt_from_model a) = se_next_attempt_id s"
    by (simp add: attempt_from_model_def a_def or_id_def or_str_def)
  moreover have "r\<lparr>r_status := Run_running\<rparr> = r" if "rw_status row = Run_running" using that row(2) by auto
  moreover have "sql_attempt_of s (se_next_attempt_id s) = None" using fresh_attempt [OF 3(1)] by (simp add: sql_attempt_of_def)
  ultimately show ?case
    using w wf_run_row [OF 3(1) row(1)] row(2) s1 a by (auto simp: seq_def bnd_def ret_def split: if_splits)
next
  case (4 s k r d)
  show ?case
    using run_row_law [OF 4, where st = Run_succeeded and f = "\<lambda>r. r\<lparr>rw_output_ref := Some (encode_ref d), rw_finished_at := Some now\<rparr>"
        and g = "\<lambda>r. r\<lparr>r_output := Some (stored_payload d)\<rparr>" and now = now]
    by (simp add: sql_complete_run_def)
next
  case (5 s k r d)
  show ?case
    using run_row_law [OF 5, where st = Run_failed and f = "\<lambda>r. r\<lparr>rw_error := Some (error_message d), rw_finished_at := Some now\<rparr>"
        and g = "\<lambda>r. r\<lparr>r_error := error_entry (Some (error_message d))\<rparr>" and now = now]
    by (fastforce simp: sql_fail_run_def)
next
  case (6 s k r d)
  show ?case
    using run_row_law [OF 6, where st = Run_timeout and f = "\<lambda>r. r\<lparr>rw_error := Some (error_message d), rw_finished_at := Some now\<rparr>"
        and g = "\<lambda>r. r\<lparr>r_error := error_entry (Some (error_message d))\<rparr>" and now = now]
    by (fastforce simp: sql_timeout_run_def)
next
  case (7 s j a)
  show ?case
    using attempt_row_law [OF 7, where st = Attempt_succeeded and f = id and g = "\<lambda>r. a_error (attempt_from_model r)" and now = now]
    by (auto simp: sql_complete_attempt_def)
next
  case (8 s j a d)
  show ?case
    using attempt_row_law [OF 8, where st = Attempt_failed and f = "\<lambda>a. a\<lparr>ra_error := Some (error_message d)\<rparr>"
        and g = "\<lambda>_. error_entry (Some (error_message d))" and now = now]
    by (fastforce simp: sql_fail_attempt_def attempt_from_model_def)
next
  case (9 s j a d)
  show ?case
    using attempt_row_law [OF 9, where st = Attempt_timeout and f = "\<lambda>a. a\<lparr>ra_error := Some (error_message d)\<rparr>"
        and g = "\<lambda>_. error_entry (Some (error_message d))" and now = now]
    by (fastforce simp: sql_timeout_attempt_def attempt_from_model_def)
qed

text \<open>Deleting a run only marks it: it can still be read, and even be run.\<close>

lemma deleted_run_still_seen:
  assumes "wf_run_tables s" "sql_run_of s k = Some r"
  shows "\<exists>s'. sql_delete_run k s = (Inr (), s') \<and> sql_run_of s' = sql_run_of s"
proof -
  obtain row where row: "dget (se_runs s) k = Some row" "seen_run row = r" using assms(2) by (auto simp: sql_run_of_Some)
  have "upd (\<lambda>r. r\<lparr>rw_is_deleted := True\<rparr>) row = (Inr (), row\<lparr>rw_is_deleted := True\<rparr>)" by (simp add: upd_def)
  note w = run_row_written [where m = "upd (\<lambda>r. r\<lparr>rw_is_deleted := True\<rparr>)", OF assms(1) row(1) this]
  show ?thesis using w row wf_run_row [OF assms(1) row(1)] assms(2) by (auto simp: sql_delete_run_def fun_upd_idem)
qed

text \<open>A payload whose keys are distinct at every level comes back as it was, in the order of its keys.\<close>

lemma stored_payload_proper:
  assumes "proper_val (VDict d)"
  shows "VDict (stored_payload d) = sort_keys (VDict d)"
  using json_canon_proper [OF proper_sort_keys [OF assms]] by (simp add: stored_payload_def del: proper_val.simps)

end
