(* ===== verification/Runtime_Context.thy ===== *)
theory Runtime_Context
  imports Events
begin

text \<open>
  The context an agent runs in (\<open>core/context.py\<close>) and the trace fields derived from it
  (\<open>observability/otel.py\<close>): every event a worker stores carries the request, trace and correlation
  ids of its run and the id of the worker. The random id that \<open>trace_context_from_runtime\<close> falls back
  to is an argument; it is never used.
\<close>

section \<open>Context\<close>

record RuntimeContext =
  cx_tenant_id :: int
  cx_project_id :: "int option"
  cx_run_id :: int
  cx_task_id :: "int option"
  cx_agent_id :: int
  cx_agent_version_id :: int
  cx_deployment_id :: "int option"
  cx_user_id :: "int option"
  cx_service_account_id :: "int option"
  cx_thread_id :: "string option"
  cx_session_id :: "int option"
  cx_request_id :: "string option"
  cx_attempt_id :: "int option"
  cx_trace_id :: "string option"
  cx_correlation_id :: "string option"
  cx_idempotency_key :: "string option"
  cx_environment :: "string option"
  cx_framework :: "string option"
  cx_adapter :: "string option"
  cx_agent_version :: "string option"
  cx_deadline_at :: "datetime option"
  cx_permissions :: "string list"
  cx_secrets :: "(string \<times> string) list"
  cx_config :: pydict
  cx_metadata :: pydict

text \<open>\<open>RuntimeContext(...)\<close> with the fields after \<open>deployment_id\<close> at their defaults.\<close>

definition new_context ::
  "int \<Rightarrow> int option \<Rightarrow> int \<Rightarrow> int option \<Rightarrow> int \<Rightarrow> int \<Rightarrow> int option \<Rightarrow> RuntimeContext" where
  "new_context tenant project run task agent version deployment =
     \<lparr>cx_tenant_id = tenant, cx_project_id = project, cx_run_id = run, cx_task_id = task,
      cx_agent_id = agent, cx_agent_version_id = version, cx_deployment_id = deployment,
      cx_user_id = None, cx_service_account_id = None, cx_thread_id = None, cx_session_id = None,
      cx_request_id = None, cx_attempt_id = None, cx_trace_id = None, cx_correlation_id = None,
      cx_idempotency_key = None, cx_environment = None, cx_framework = None, cx_adapter = None,
      cx_agent_version = None, cx_deadline_at = None, cx_permissions = [], cx_secrets = [],
      cx_config = [], cx_metadata = []\<rparr>"

definition int_val :: "int option \<Rightarrow> pyval" where
  "int_val x = (case x of None \<Rightarrow> VNone | Some i \<Rightarrow> VInt i)"

definition str_val :: "string option \<Rightarrow> pyval" where
  "str_val x = (case x of None \<Rightarrow> VNone | Some s \<Rightarrow> VStr s)"

definition to_metadata :: "bool \<Rightarrow> RuntimeContext \<Rightarrow> pydict" where
  "to_metadata include_none c =
     (let metadata =
        [(''tenant_id'', VInt (cx_tenant_id c)),
         (''project_id'', int_val (cx_project_id c)),
         (''run_id'', VInt (cx_run_id c)),
         (''task_id'', int_val (cx_task_id c)),
         (''agent_id'', VInt (cx_agent_id c)),
         (''agent_version_id'', VInt (cx_agent_version_id c)),
         (''deployment_id'', int_val (cx_deployment_id c)),
         (''user_id'', int_val (cx_user_id c)),
         (''service_account_id'', int_val (cx_service_account_id c)),
         (''thread_id'', str_val (cx_thread_id c)),
         (''session_id'', int_val (cx_session_id c)),
         (''request_id'', str_val (cx_request_id c)),
         (''attempt_id'', int_val (cx_attempt_id c)),
         (''trace_id'', str_val (cx_trace_id c)),
         (''correlation_id'', str_val (cx_correlation_id c)),
         (''idempotency_key'', str_val (cx_idempotency_key c)),
         (''environment'', str_val (cx_environment c)),
         (''framework'', str_val (cx_framework c)),
         (''adapter'', str_val (cx_adapter c)),
         (''agent_version'', str_val (cx_agent_version c)),
         (''metadata'', VDict (cx_metadata c))]
      in if include_none then metadata else filter (\<lambda>(_, v). v \<noteq> VNone) metadata)"

section \<open>Trace fields\<close>

definition TRACE_KEYS :: "string list" where
  "TRACE_KEYS = [''trace_id'', ''request_id'', ''correlation_id'', ''worker_id'']"

record RuntimeTraceContext =
  tc_request_id :: string
  tc_trace_id :: string
  tc_correlation_id :: string
  tc_worker_id :: string

definition as_payload_fields :: "RuntimeTraceContext \<Rightarrow> pydict" where
  "as_payload_fields t =
     [(''request_id'', VStr (tc_request_id t)), (''trace_id'', VStr (tc_trace_id t)),
      (''correlation_id'', VStr (tc_correlation_id t)), (''worker_id'', VStr (tc_worker_id t))]"

definition as_log_fields :: "int \<Rightarrow> int option \<Rightarrow> int option \<Rightarrow> RuntimeTraceContext \<Rightarrow> pydict" where
  "as_log_fields run_id task_id attempt_id t =
     dmerge (as_payload_fields t)
       [(''run_id'', VInt run_id), (''task_id'', int_val task_id), (''attempt_id'', int_val attempt_id)]"

definition ensure_trace_context :: "string \<Rightarrow> RuntimeContext \<Rightarrow> RuntimeContext" where
  "ensure_trace_context worker_id c =
     (let request_id = or_str (cx_request_id c) (''req_run_'' @ dec_int (cx_run_id c));
          trace_id = or_str (cx_trace_id c) (''trace_run_'' @ dec_int (cx_run_id c));
          correlation_id = or_str (cx_correlation_id c)
            (''corr_task_'' @ dec_int (or_id (cx_task_id c) (cx_run_id c)));
          metadata = dset (cx_metadata c) ''worker_id'' (VStr worker_id)
      in c\<lparr>cx_request_id := Some request_id, cx_trace_id := Some trace_id,
           cx_correlation_id := Some correlation_id, cx_metadata := metadata\<rparr>)"

definition trace_context_from_runtime :: "string \<Rightarrow> string \<Rightarrow> RuntimeContext \<Rightarrow> RuntimeTraceContext" where
  "trace_context_from_runtime uuid worker_id c =
     (let enriched = ensure_trace_context worker_id c in
      \<lparr>tc_request_id = or_str (cx_request_id enriched) (''req_'' @ uuid),
       tc_trace_id = or_str (cx_trace_id enriched) (''trace_'' @ uuid),
       tc_correlation_id = or_str (cx_correlation_id enriched) (''corr_'' @ uuid),
       tc_worker_id = worker_id\<rparr>)"

definition attach_trace_fields :: "pydict \<Rightarrow> RuntimeTraceContext \<Rightarrow> pydict" where
  "attach_trace_fields payload trace = dmerge payload (as_payload_fields trace)"

definition redact_event_payload :: "pydict \<Rightarrow> string \<Rightarrow> pydict" where
  "redact_event_payload payload visibility_level =
     (if visibility_level = ''public'' then payload
      else dmerge [(''redacted'', VBool True)] (filter (\<lambda>(k, _). k \<in> set TRACE_KEYS) payload))"

lemma or_str_nonempty: "d \<noteq> [] \<Longrightarrow> or_str x d \<noteq> []"
  by (auto simp: or_str_def split: option.splits)

lemma or_str_Some_id: "s \<noteq> [] \<Longrightarrow> or_str (Some s) d = s"
  by simp

text \<open>The random fallback is dead code: the enriched ids are never empty.\<close>

lemma trace_context_uuid:
  "trace_context_from_runtime u w c = trace_context_from_runtime u' w c"
  by (simp add: trace_context_from_runtime_def ensure_trace_context_def Let_def or_str_nonempty)

lemma dget_attach:
  "dget (attach_trace_fields p t) k =
     (if k = ''request_id'' then Some (VStr (tc_request_id t))
      else if k = ''trace_id'' then Some (VStr (tc_trace_id t))
      else if k = ''correlation_id'' then Some (VStr (tc_correlation_id t))
      else if k = ''worker_id'' then Some (VStr (tc_worker_id t)) else dget p k)"
  by (simp add: attach_trace_fields_def as_payload_fields_def)


definition demo_trace :: RuntimeTraceContext where
  "demo_trace = \<lparr>tc_request_id = ''r'', tc_trace_id = ''t'', tc_correlation_id = ''c'', tc_worker_id = ''w1''\<rparr>"


end
