(* ===== verification/Executor.thy ===== *)
theory Executor
  imports Task_Backend Run_Store Replay_Buffer Runtime_Context
begin

text \<open>
  The worker of \<open>worker/executor.py\<close>: it leases a task, opens an attempt, runs the agent through an
  adapter and records the outcome in the run store, the event buffer and the task backend, checking
  its fencing token before every write. The backend and the store are the interfaces of the previous
  theories, the event buffer is its \<open>append\<close>; all three act on one state, the world, because they share
  a database session where they are durable. Adapters, the spec resolver and the governance factory are
  code of other parties: each is a computation on the world, which it may leave in any state, so that whatever
  other workers, reapers and users do while the agent runs is covered. Logging is left out.
\<close>

section \<open>Parameters of a worker\<close>

record AgentRuntimeSpec =
  sp_adapter :: string
  sp_package_uri :: string
  sp_manifest :: pydict
  sp_runtime_config :: pydict
  sp_secrets :: "(string \<times> string) list option"
  sp_metadata :: "pydict option"

record WorkerExecutionResult =
  wr_task_id :: int
  wr_run_id :: int
  wr_attempt_id :: int
  wr_status :: string

text \<open>
  An adapter: \<open>load\<close>, \<open>invoke\<close>, \<open>stream\<close> and \<open>cancel\<close>. A stream is the list of its steps; each
  step runs until the next event is there, or raises.
\<close>

record ('w, 'a) agent_adapter =
  ad_framework :: "string option"
  ad_load :: "string \<Rightarrow> pydict \<Rightarrow> pydict \<Rightarrow> ('w, 'a) eff"
  ad_invoke :: "'a \<Rightarrow> pydict \<Rightarrow> RuntimeContext \<Rightarrow> ('w, AgentResult) eff"
  ad_stream :: "'a \<Rightarrow> pydict \<Rightarrow> RuntimeContext \<Rightarrow> ('w, ('w, AgentEvent) eff list) eff"
  ad_cancel :: "int \<Rightarrow> RuntimeContext \<Rightarrow> ('w, unit) eff"

text \<open>
  \<open>wx_replay_append\<close> is the buffer's \<open>append\<close>, \<open>wx_str\<close> and \<open>wx_class\<close> give \<open>str(exc)\<close> and the class name of an exception, \<open>wx_clock\<close> the readings
  of \<open>datetime.now\<close>, and \<open>wx_uuid\<close> the random id of the unused fallback of the trace fields.
\<close>

record ('w, 'a) worker_executor =
  wx_worker_id :: string
  wx_replay_append :: "int \<Rightarrow> int option \<Rightarrow> AgentEvent \<Rightarrow> ('w, AgentEvent) eff"
  wx_adapters :: "(string \<times> ('w, 'a) agent_adapter) list"
  wx_agent_specs :: "(int \<times> AgentRuntimeSpec) list"
  wx_resolver :: "(RuntimeRun \<Rightarrow> ('w, AgentRuntimeSpec) eff) option"
  wx_governance ::
    "(RuntimeRun \<Rightarrow> RuntimeContext \<Rightarrow> pydict \<Rightarrow> ('w, RuntimeGovernanceBundle option) eff) option"
  wx_str :: "exn \<Rightarrow> string"
  wx_class :: "exn \<Rightarrow> string"
  wx_clock :: "nat \<Rightarrow> datetime"
  wx_uuid :: string

record 'w exec_state =
  xs_world :: 'w
  xs_ticks :: nat
  xs_active_task_id :: "int option"
  xs_active_worker_id :: "string option"
  xs_active_fencing_token :: "int option"
  xs_active_context :: "RuntimeContext option"

definition world_do :: "('w, 'x) eff \<Rightarrow> ('w exec_state, 'x) eff" where
  "world_do m s = (case m (xs_world s) of (r, w) \<Rightarrow> (r, s\<lparr>xs_world := w\<rparr>))"

section \<open>Fencing and events\<close>

definition assert_active_fencing :: "'w task_backend_ops \<Rightarrow> ('w exec_state, unit) eff" where
  "assert_active_fencing ops s =
     (case (xs_active_task_id s, xs_active_worker_id s, xs_active_fencing_token s) of
        (Some t, Some w, Some k) \<Rightarrow> world_do (op_assert_can_complete ops t w k) s
      | _ \<Rightarrow> (Inr (), s))"

definition clear_active_lease :: "('w exec_state, unit) eff" where
  "clear_active_lease = upd (\<lambda>s. s\<lparr>xs_active_task_id := None, xs_active_worker_id := None,
     xs_active_fencing_token := None, xs_active_context := None\<rparr>)"

text \<open>The stored event is a fresh object: its creation time is read here.\<close>

definition store_event ::
  "('w, 'a) worker_executor \<Rightarrow> int \<Rightarrow> int \<Rightarrow> AgentEvent \<Rightarrow> ('w exec_state, AgentEvent) eff" where
  "store_event x run_id attempt_id event s =
     (let payload = (case xs_active_context s of
            None \<Rightarrow> ev_payload event
          | Some c \<Rightarrow> attach_trace_fields (ev_payload event)
              (trace_context_from_runtime (wx_uuid x) (wx_worker_id x) c));
          e = post_init (event\<lparr>ev_payload := payload, ev_created_at := wx_clock x (xs_ticks s)\<rparr>)
      in world_do (wx_replay_append x run_id (Some attempt_id) e) (s\<lparr>xs_ticks := xs_ticks s + 1\<rparr>))"

definition append ::
  "'w task_backend_ops \<Rightarrow> ('w, 'a) worker_executor \<Rightarrow> int \<Rightarrow> int \<Rightarrow> AgentEvent \<Rightarrow>
     ('w exec_state, unit) eff" where
  "append ops x run_id attempt_id event =
     seq (assert_active_fencing ops) (seq (store_event x run_id attempt_id event) (ret ()))"

definition append_all_events ::
  "'w task_backend_ops \<Rightarrow> ('w, 'a) worker_executor \<Rightarrow> int \<Rightarrow> int \<Rightarrow> AgentEvent list \<Rightarrow>
     ('w exec_state, unit) eff" where
  "append_all_events ops x run_id attempt_id events =
     foldr (\<lambda>e m. seq (append ops x run_id attempt_id e) m) events (ret ())"

text \<open>An event the worker itself reports.\<close>

definition report ::
  "'w task_backend_ops \<Rightarrow> ('w, 'a) worker_executor \<Rightarrow> int \<Rightarrow> int \<Rightarrow> string \<Rightarrow> pydict \<Rightarrow>
     ('w exec_state, unit) eff" where
  "report ops x run_id attempt_id ty payload = append ops x run_id attempt_id (new_event 0 ty payload)"

section \<open>Running the agent\<close>

definition agent_spec :: "('w, 'a) worker_executor \<Rightarrow> int \<Rightarrow> ('w exec_state, AgentRuntimeSpec) eff" where
  "agent_spec x version = (case dget (wx_agent_specs x) version of
       None \<Rightarrow> raise (RuntimeError ''worker_agent_version_not_found'')
     | Some spec \<Rightarrow> ret spec)"

definition agent_spec_for_run ::
  "('w, 'a) worker_executor \<Rightarrow> RuntimeRun \<Rightarrow> ('w exec_state, AgentRuntimeSpec) eff" where
  "agent_spec_for_run x run = (case wx_resolver x of
       Some resolve \<Rightarrow> world_do (resolve run)
     | None \<Rightarrow> agent_spec x (r_agent_version_id run))"

definition find_adapter ::
  "('w, 'a) worker_executor \<Rightarrow> string \<Rightarrow> ('w exec_state, ('w, 'a) agent_adapter) eff" where
  "find_adapter x name = (case dget (wx_adapters x) name of
       None \<Rightarrow> raise (RuntimeError ''worker_adapter_not_found'')
     | Some adapter \<Rightarrow> ret adapter)"

definition governance_bundle ::
  "('w, 'a) worker_executor \<Rightarrow> RuntimeRun \<Rightarrow> RuntimeContext \<Rightarrow> pydict \<Rightarrow>
     ('w exec_state, RuntimeGovernanceBundle option) eff" where
  "governance_bundle x run context runtime_config = (case wx_governance x of
       None \<Rightarrow> ret None
     | Some factory \<Rightarrow> world_do (factory run context runtime_config))"

definition runtime_environment :: "pydict \<Rightarrow> string option" where
  "runtime_environment runtime_config = (case dget runtime_config ''environment'' of
       Some (VStr s) \<Rightarrow> if s = [] then None else Some s
     | _ \<Rightarrow> None)"

text \<open>
  \<open>async for event in stream\<close>. \<open>lim = Some n\<close> is a timeout that fires while the worker waits for the
  event after the first \<open>n\<close>.
\<close>

fun consume ::
  "'w task_backend_ops \<Rightarrow> ('w, 'a) worker_executor \<Rightarrow> int \<Rightarrow> int \<Rightarrow> nat option \<Rightarrow>
     ('w, AgentEvent) eff list \<Rightarrow> ('w exec_state, unit) eff" where
  "consume ops x run_id attempt_id lim [] = ret ()"
| "consume ops x run_id attempt_id lim (step # steps) =
     (if lim = Some 0 then seq (world_do step) (raise TimeoutError)
      else bnd (world_do step) (\<lambda>event.
           seq (append ops x run_id attempt_id event)
               (consume ops x run_id attempt_id (map_option (\<lambda>n. n - 1) lim) steps)))"

definition execute_agent ::
  "'w task_backend_ops \<Rightarrow> ('w, 'a) worker_executor \<Rightarrow> nat option \<Rightarrow> ('w, 'a) agent_adapter \<Rightarrow> 'a \<Rightarrow>
     task_snapshot \<Rightarrow> RuntimeContext \<Rightarrow> int \<Rightarrow> ('w exec_state, AgentResult) eff" where
  "execute_agent ops x lim adapter agent leased context attempt_id =
     (case p_input_data (sn_payload leased) of
        None \<Rightarrow> raise KeyError
      | Some input_data \<Rightarrow>
          if p_execution_mode (sn_payload leased) \<noteq> Some ''stream'' then
            bnd (world_do (ad_invoke adapter agent input_data context)) (\<lambda>result.
              if lim \<noteq> None then raise TimeoutError
              else seq (append_all_events ops x (cx_run_id context) attempt_id (res_events result))
                       (ret result))
          else
            bnd (world_do (ad_stream adapter agent input_data context)) (\<lambda>stream.
              seq (consume ops x (cx_run_id context) attempt_id lim stream)
                  (ret (new_result [(''streamed'', VBool True)]))))"

text \<open>
  \<open>float(value)\<close> of the timeout: whether a string is a number in Python's syntax.
\<close>

definition unsigned :: "string \<Rightarrow> string" where
  "unsigned s = (case s of [] \<Rightarrow> [] | c # cs \<Rightarrow> if c = CHR ''-'' \<or> c = CHR ''+'' then cs else s)"

definition lower_char :: "char \<Rightarrow> char" where
  "lower_char c = (let n = (of_char c :: nat) in if 65 \<le> n \<and> n \<le> 90 then char_of (n + 32) else c)"

definition mantissa_ok :: "string \<Rightarrow> bool" where
  "mantissa_ok s = (let a = takeWhile (\<lambda>c. c \<noteq> CHR ''.'') s; r = dropWhile (\<lambda>c. c \<noteq> CHR ''.'') s in
     if r = [] then digits_ok a
     else (a = [] \<or> digits_ok a) \<and> (tl r = [] \<or> digits_ok (tl r)) \<and> (a \<noteq> [] \<or> tl r \<noteq> []))"

definition float_text :: "string \<Rightarrow> bool" where
  "float_text text = (let s = map lower_char (unsigned (strip text));
        a = takeWhile (\<lambda>c. c \<noteq> CHR ''e'') s; r = dropWhile (\<lambda>c. c \<noteq> CHR ''e'') s in
     s \<in> {''inf'', ''infinity'', ''nan''} \<or>
     mantissa_ok a \<and> (r = [] \<or> digits_ok (unsigned (tl r))))"

definition py_float :: "pyval \<Rightarrow> exn + unit" where
  "py_float v = (case v of
       VInt _ \<Rightarrow> Inr () | VBool _ \<Rightarrow> Inr ()
     | VStr s \<Rightarrow> if float_text s then Inr () else Inl (ValueError s)
     | _ \<Rightarrow> Inl TypeError)"

definition timeout_value :: "pydict \<Rightarrow> pyval" where
  "timeout_value runtime_config = (case dget runtime_config ''timeout_seconds'' of
       Some v \<Rightarrow> if truthy v then v else or_else (dget runtime_config ''timeout'') VNone
     | None \<Rightarrow> or_else (dget runtime_config ''timeout'') VNone)"

text \<open>The context the worker starts from, before the trace fields are known.\<close>

definition initial_context ::
  "RuntimeRun \<Rightarrow> int \<Rightarrow> string option \<Rightarrow> string \<Rightarrow> pydict \<Rightarrow> RuntimeContext" where
  "initial_context run task_id framework adapter_name runtime_config =
     (new_context (r_tenant_id run) (Some (r_project_id run)) (r_run_id run) (Some task_id)
        (r_agent_id run) (r_agent_version_id run) (r_deployment_id run))
       \<lparr>cx_thread_id := r_thread_id run, cx_environment := runtime_environment runtime_config,
        cx_framework := Some (or_else framework adapter_name), cx_adapter := Some adapter_name\<rparr>"

definition execution_context ::
  "('w, 'a) worker_executor \<Rightarrow> AgentRuntimeSpec \<Rightarrow> int \<Rightarrow> pydict \<Rightarrow> RuntimeContext \<Rightarrow> RuntimeContext" where
  "execution_context x spec attempt_id runtime_config c =
     (let trace = trace_context_from_runtime (wx_uuid x) (wx_worker_id x) c in
      c\<lparr>cx_request_id := Some (tc_request_id trace), cx_attempt_id := Some attempt_id,
        cx_trace_id := Some (tc_trace_id trace), cx_correlation_id := Some (tc_correlation_id trace),
        cx_environment := runtime_environment runtime_config,
        cx_secrets := or_else (sp_secrets spec) [], cx_config := runtime_config,
        cx_metadata := dmerge [(''worker_id'', VStr (wx_worker_id x))] (or_else (sp_metadata spec) [])\<rparr>)"

definition run_agent ::
  "'w task_backend_ops \<Rightarrow> 'w runtime_run_store_ops \<Rightarrow> ('w, 'a) worker_executor \<Rightarrow> nat option \<Rightarrow>
     task_snapshot \<Rightarrow> int \<Rightarrow> ('w exec_state, AgentResult) eff" where
  "run_agent ops sops x lim leased attempt_id =
     bnd (world_do (so_get_run sops (sn_run_id leased))) (\<lambda>run.
     bnd (agent_spec_for_run x run) (\<lambda>spec.
     bnd (find_adapter x (sp_adapter spec)) (\<lambda>adapter.
       let config0 = dmerge (sp_runtime_config spec) (or_else (p_override_config (sn_payload leased)) []);
           context0 = initial_context run (sn_task_id leased) (ad_framework adapter) (sp_adapter spec) config0
       in bnd (governance_bundle x run context0 config0) (\<lambda>bundle.
       let config = (case bundle of None \<Rightarrow> config0 | Some g \<Rightarrow> apply_bundle g config0);
           context = execution_context x spec attempt_id config context0
       in seq (upd (\<lambda>s. s\<lparr>xs_active_context := Some context\<rparr>))
         (bnd (world_do (ad_load adapter (sp_package_uri spec) (sp_manifest spec) config)) (\<lambda>agent.
            if timeout_value config = VNone
            then execute_agent ops x None adapter agent leased context attempt_id
            else seq (check (py_float (timeout_value config)))
                     (execute_agent ops x lim adapter agent leased context attempt_id)))))))"

section \<open>One execution\<close>

definition begin_attempt ::
  "'w task_backend_ops \<Rightarrow> 'w runtime_run_store_ops \<Rightarrow> ('w, 'a) worker_executor \<Rightarrow> task_snapshot \<Rightarrow>
     ('w exec_state, RuntimeAttempt) eff" where
  "begin_attempt ops sops x leased =
     seq (world_do (op_mark_running ops (sn_task_id leased) (wx_worker_id x) (sn_fencing_token leased)))
    (seq (upd (\<lambda>s. s\<lparr>xs_active_task_id := Some (sn_task_id leased),
                     xs_active_worker_id := Some (wx_worker_id x),
                     xs_active_fencing_token := Some (sn_fencing_token leased)\<rparr>))
    (bnd (world_do (so_create_attempt sops (sn_run_id leased) (sn_task_id leased) (wx_worker_id x))) (\<lambda>attempt.
     seq (report ops x (sn_run_id leased) (a_attempt_id attempt) ''attempt.started'' [])
         (ret attempt))))"

definition execution_result :: "task_snapshot \<Rightarrow> int \<Rightarrow> string \<Rightarrow> WorkerExecutionResult" where
  "execution_result leased attempt_id status = \<lparr>wr_task_id = sn_task_id leased,
     wr_run_id = sn_run_id leased, wr_attempt_id = attempt_id, wr_status = status\<rparr>"

text \<open>
  The two failure handlers differ in the attempt and run operations, the event names and the result.
\<close>

definition close_failed ::
  "'w task_backend_ops \<Rightarrow> ('w, 'a) worker_executor \<Rightarrow> task_snapshot \<Rightarrow> int \<Rightarrow>
     ('w, unit) eff \<Rightarrow> ('w, unit) eff \<Rightarrow> string \<Rightarrow> string \<Rightarrow> string \<Rightarrow> pydict \<Rightarrow>
     ('w exec_state, WorkerExecutionResult option) eff" where
  "close_failed ops x leased aid end_attempt end_run attempt_event run_event status error =
     seq (assert_active_fencing ops)
    (seq (world_do end_attempt)
    (seq (report ops x (sn_run_id leased) aid attempt_event error)
    (bnd (world_do (op_will_retry ops (sn_task_id leased))) (\<lambda>will_retry.
     seq (if \<not> will_retry
          then seq (world_do end_run)
              (seq (report ops x (sn_run_id leased) aid run_event error)
                   (report ops x (sn_run_id leased) aid ''stream.failed'' error))
          else report ops x (sn_run_id leased) aid ''task.retrying'' error)
    (seq (world_do (op_fail ops (sn_task_id leased) (wx_worker_id x) (sn_fencing_token leased) error))
    (seq clear_active_lease
         (ret (Some (execution_result leased aid status)))))))))"

definition timeout_error :: "('w, 'a) worker_executor \<Rightarrow> pydict" where
  "timeout_error x = [(''message'', VStr ''run timed out''), (''type'', VStr (wx_class x TimeoutError)),
     (''error_code'', VStr ''runtime_timeout'')]"

definition failure_error :: "('w, 'a) worker_executor \<Rightarrow> exn \<Rightarrow> pydict" where
  "failure_error x exc = [(''message'', VStr (wx_str x exc)), (''type'', VStr (wx_class x exc))]"

definition on_exception ::
  "'w task_backend_ops \<Rightarrow> 'w runtime_run_store_ops \<Rightarrow> ('w, 'a) worker_executor \<Rightarrow> task_snapshot \<Rightarrow>
     int \<Rightarrow> exn \<Rightarrow> ('w exec_state, WorkerExecutionResult option) eff" where
  "on_exception ops sops x leased aid exc = (case exc of
       StaleFencingTokenError _ \<Rightarrow> seq clear_active_lease (raise exc)
     | TimeoutError \<Rightarrow> (let error = timeout_error x in
         close_failed ops x leased aid (so_timeout_attempt sops aid error)
           (so_timeout_run sops (sn_run_id leased) error) ''attempt.timeout'' ''run.timeout'' ''timeout'' error)
     | _ \<Rightarrow> (let error = failure_error x exc in
         close_failed ops x leased aid (so_fail_attempt sops aid error)
           (so_fail_run sops (sn_run_id leased) error) ''attempt.failed'' ''run.failed'' ''failed'' error))"

definition on_result ::
  "'w task_backend_ops \<Rightarrow> 'w runtime_run_store_ops \<Rightarrow> ('w, 'a) worker_executor \<Rightarrow> task_snapshot \<Rightarrow>
     int \<Rightarrow> AgentResult \<Rightarrow> ('w exec_state, WorkerExecutionResult option) eff" where
  "on_result ops sops x leased aid result =
     seq (assert_active_fencing ops)
    (seq (world_do (so_complete_run sops (sn_run_id leased) (res_output result)))
    (seq (world_do (so_complete_attempt sops aid))
    (seq (report ops x (sn_run_id leased) aid ''run.completed'' [(''output'', VDict (res_output result))])
    (seq (report ops x (sn_run_id leased) aid ''stream.completed'' [])
    (seq (world_do (op_complete ops (sn_task_id leased) (wx_worker_id x) (sn_fencing_token leased)))
    (seq clear_active_lease
         (ret (Some (execution_result leased aid ''succeeded'')))))))))"

definition finish_attempt ::
  "'w task_backend_ops \<Rightarrow> 'w runtime_run_store_ops \<Rightarrow> ('w, 'a) worker_executor \<Rightarrow> nat option \<Rightarrow>
     task_snapshot \<Rightarrow> int \<Rightarrow> ('w exec_state, WorkerExecutionResult option) eff" where
  "finish_attempt ops sops x lim leased aid s =
     (case run_agent ops sops x lim leased aid s of
        (Inl exc, s') \<Rightarrow> on_exception ops sops x leased aid exc s'
      | (Inr result, s') \<Rightarrow> on_result ops sops x leased aid result s')"

definition execute_once ::
  "'w task_backend_ops \<Rightarrow> 'w runtime_run_store_ops \<Rightarrow> ('w, 'a) worker_executor \<Rightarrow> nat option \<Rightarrow>
     string \<Rightarrow> int \<Rightarrow> ('w exec_state, WorkerExecutionResult option) eff" where
  "execute_once ops sops x lim queue lease_seconds =
     bnd (world_do (op_lease ops queue (wx_worker_id x) lease_seconds)) (\<lambda>leased_opt.
       case leased_opt of
         None \<Rightarrow> ret None
       | Some leased \<Rightarrow> bnd (begin_attempt ops sops x leased) (\<lambda>attempt.
           finish_attempt ops sops x lim leased (a_attempt_id attempt)))"

section \<open>Cancelling a run\<close>

definition worker_cancel_run ::
  "'w runtime_run_store_ops \<Rightarrow> ('w, 'a) worker_executor \<Rightarrow> int \<Rightarrow> int option \<Rightarrow>
     ('w exec_state, string) eff" where
  "worker_cancel_run sops x run_id task_id =
     bnd (world_do (so_get_run sops run_id)) (\<lambda>run.
     bnd (agent_spec_for_run x run) (\<lambda>spec.
     case dget (wx_adapters x) (sp_adapter spec) of
       None \<Rightarrow> raise KeyError
     | Some adapter \<Rightarrow>
        (let context = (new_context (r_tenant_id run) (Some (r_project_id run)) (r_run_id run) task_id
               (r_agent_id run) (r_agent_version_id run) (r_deployment_id run))
               \<lparr>cx_thread_id := r_thread_id run,
                cx_framework := Some (or_else (ad_framework adapter) (sp_adapter spec)),
                cx_adapter := Some (sp_adapter spec)\<rparr>
         in bnd (catch (seq (world_do (ad_cancel adapter run_id context)) (ret ''adapter_cancelled''))
                   (\<lambda>e. case e of CapabilityNotSupportedError _ \<Rightarrow> ret ''best_effort'' | _ \<Rightarrow> raise e)) (\<lambda>status.
            (\<lambda>s. let trace = trace_context_from_runtime (wx_uuid x) (wx_worker_id x) context;
                    e = new_event (wx_clock x (xs_ticks s)) ''run.cancel_requested''
                      (attach_trace_fields [(''status'', VStr status), (''task_id'', int_val task_id)] trace)
                in seq (world_do (wx_replay_append x run_id None e)) (ret status) (s\<lparr>xs_ticks := xs_ticks s + 1\<rparr>))))))"

end
