(* ===== verification/Worker_Safety.thy ===== *)
theory Worker_Safety
  imports Executor Focus In_Memory_Backend
begin

text \<open>
  What a worker's execution guarantees, proved once against the contracts of the task backend, the run
  store and the event buffer and then obtained for the in-memory implementations: an execution that still
  holds its lease closes attempt, run and task consistently, and one that has lost it writes nothing.
\<close>

section \<open>The lease the worker believes to hold\<close>

definition active :: "int \<Rightarrow> string \<Rightarrow> int \<Rightarrow> 'w exec_state \<Rightarrow> bool" where
  "active tid w tok s \<longleftrightarrow> xs_active_task_id s = Some tid \<and> xs_active_worker_id s = Some w \<and>
     xs_active_fencing_token s = Some tok"

lemma active_frame [simp]:
  "active tid w tok (s\<lparr>xs_world := b\<rparr>) = active tid w tok s"
  "active tid w tok (s\<lparr>xs_ticks := n\<rparr>) = active tid w tok s"
  by (simp_all add: active_def)

lemmas step_simps = seq_def bnd_def ret_def raise_def world_do_def clear_active_lease_def upd_def

lemma seq_InrD: "seq m n s = (Inr x, s1) \<Longrightarrow> \<exists>u s0. m s = (Inr u, s0) \<and> n s0 = (Inr x, s1)"
  by (auto simp: seq_def bnd_def split: prod.splits sum.splits)

lemma seq_ok: "m s = (Inr u, s') \<Longrightarrow> seq m n s = n s'"
  by (simp add: seq_def bnd_def)

lemma bnd_ok: "m s = (Inr u, s') \<Longrightarrow> bnd m f s = f u s'"
  by (simp add: bnd_def)

lemma seq_upd: "seq (upd f) n s = n (f s)"
  by (simp add: seq_def bnd_def upd_def)

lemma store_event_eq:
  "\<exists>e. store_event x r a ev s = world_do (wx_replay_append x r (Some a) e) (s\<lparr>xs_ticks := xs_ticks s + 1\<rparr>)"
  unfolding store_event_def Let_def by blast

text \<open>Running the agent never changes it.\<close>

lemma keeps_active_do:
  "keeps (active tid w tok) (world_do m)" "keeps (active tid w tok) (store_event x r a e)"
  by (auto simp: keeps_def world_do_def store_event_def Let_def active_def split: prod.splits)

lemma keeps_active_fencing: "keeps (active tid w tok) (assert_active_fencing ops)"
  by (auto simp: keeps_def assert_active_fencing_def world_do_def active_def split: option.splits prod.splits)

lemma keeps_active_context:
  "keeps (active tid w tok) (upd (\<lambda>s. s\<lparr>xs_active_context := c\<rparr>))"
  by (simp add: keeps_def upd_def active_def)

lemmas keeps_active_intros = keeps_bnd keeps_seq keeps_basic keeps_active_do keeps_active_fencing
  keeps_active_context

lemma keeps_active_append: "keeps (active tid w tok) (append ops x r a e)"
  unfolding append_def by (intro keeps_active_intros)

lemma keeps_active_append_all: "keeps (active tid w tok) (append_all_events ops x r a es)"
  unfolding append_all_events_def by (induction es) (simp_all add: keeps_basic keeps_seq keeps_active_append)

lemma keeps_active_consume: "keeps (active tid w tok) (consume ops x r a lim steps)"
  by (induction steps arbitrary: lim) (simp_all add: keeps_basic keeps_bnd keeps_seq keeps_active_do keeps_active_append)

lemma keeps_active_execute: "keeps (active tid w tok) (execute_agent ops x lim ad ag sn c aid)"
  unfolding execute_agent_def
  by (auto intro!: keeps_active_intros keeps_active_append_all keeps_active_consume split: option.splits)

lemma keeps_active_check: "keeps P (check r)"
  by (simp add: keeps_def check_def)

lemma keeps_active_run: "keeps (active tid w tok) (run_agent ops sops x lim sn aid)"
  unfolding run_agent_def Let_def agent_spec_for_run_def agent_spec_def find_adapter_def governance_bundle_def
  by (auto intro!: keeps_active_intros keeps_active_execute keeps_active_check split: option.splits)

lemma begin_active:
  assumes "begin_attempt ops sops x sn s = (Inr att, s1)"
  shows "active (sn_task_id sn) (wx_worker_id x) (sn_fencing_token sn) s1"
proof -
  let ?P = "active (sn_task_id sn) (wx_worker_id x) (sn_fencing_token sn)"
  let ?rest = "bnd (world_do (so_create_attempt sops (sn_run_id sn) (sn_task_id sn) (wx_worker_id x))) (\<lambda>attempt.
     seq (report ops x (sn_run_id sn) (a_attempt_id attempt) ''attempt.started'' []) (ret attempt))"
  let ?f = "\<lambda>s. s\<lparr>xs_active_task_id := Some (sn_task_id sn), xs_active_worker_id := Some (wx_worker_id x),
      xs_active_fencing_token := Some (sn_fencing_token sn)\<rparr>"
  obtain s0 where "seq (upd ?f) ?rest s0 = (Inr att, s1)"
    using assms unfolding begin_attempt_def by (blast dest: seq_InrD)
  then have s0: "?P (?f s0)" "?rest (?f s0) = (Inr att, s1)"
    by (simp_all add: active_def seq_upd)
  have "keeps ?P ?rest"
    unfolding report_def by (intro keeps_active_intros keeps_active_append)
  then show ?thesis using s0 by (rule keepsD)
qed

text \<open>
  One execution up to the point where the agent has returned or raised: the lease, the start of the
  attempt and the run of the agent.
\<close>

definition executes ::
  "'w task_backend_ops \<Rightarrow> 'w runtime_run_store_ops \<Rightarrow> ('w, 'a) worker_executor \<Rightarrow> nat option \<Rightarrow> string \<Rightarrow> int \<Rightarrow>
     'w exec_state \<Rightarrow> task_snapshot \<Rightarrow> int \<Rightarrow> exn + AgentResult \<Rightarrow> 'w exec_state \<Rightarrow> bool" where
  "executes ops sops x lim q n s sn aid res s2 \<longleftrightarrow>
     (\<exists>w1 att s1. op_lease ops q (wx_worker_id x) n (xs_world s) = (Inr (Some sn), w1) \<and>
        begin_attempt ops sops x sn (s\<lparr>xs_world := w1\<rparr>) = (Inr att, s1) \<and>
        run_agent ops sops x lim sn (a_attempt_id att) s1 = (res, s2) \<and> a_attempt_id att = aid)"

lemma executes_active:
  assumes "executes ops sops x lim q n s sn aid res s2"
  shows "active (sn_task_id sn) (wx_worker_id x) (sn_fencing_token sn) s2"
  using assms keepsD [OF keeps_active_run begin_active] by (fastforce simp: executes_def)

lemma executes_once:
  assumes "executes ops sops x lim q n s sn aid res s2"
  shows "execute_once ops sops x lim q n s = (case res of
     Inl exc \<Rightarrow> on_exception ops sops x sn aid exc s2
   | Inr result \<Rightarrow> on_result ops sops x sn aid result s2)"
  using assms by (auto simp: executes_def execute_once_def finish_attempt_def bnd_def world_do_def split: sum.splits)

section \<open>Against the contracts\<close>

text \<open>
  Backend, store and buffer act on one world: the writes of each leave what the others promise about
  alone, and an event of a run that exists can always be stored.
\<close>

locale worker =
  runtime_task_backend ops view inv + runtime_run_store sops run_of attempt_of sinv stored
  for ops :: "'w task_backend_ops" and view :: "'w \<Rightarrow> int \<Rightarrow> task_view option" and inv :: "'w \<Rightarrow> bool"
    and sops :: "'w runtime_run_store_ops" and run_of :: "'w \<Rightarrow> int \<Rightarrow> RuntimeRun option"
    and attempt_of :: "'w \<Rightarrow> int \<Rightarrow> RuntimeAttempt option" and sinv :: "'w \<Rightarrow> bool"
    and stored :: "pydict \<Rightarrow> pydict" +
  fixes buffer_append :: "int \<Rightarrow> int option \<Rightarrow> AgentEvent \<Rightarrow> ('w, AgentEvent) eff"
  assumes backend_frame:
      "m \<in> backend_writes ops \<Longrightarrow> sinv b \<Longrightarrow> m b = (res, b') \<Longrightarrow>
         sinv b' \<and> run_of b' = run_of b \<and> attempt_of b' = attempt_of b"
    and store_frame:
      "m \<in> store_writes sops \<Longrightarrow> inv b \<Longrightarrow> m b = (res, b') \<Longrightarrow> inv b' \<and> view b' = view b"
    and append_law:
      "inv b \<Longrightarrow> sinv b \<Longrightarrow> run_of b k = Some r \<Longrightarrow> \<exists>e' b'. buffer_append k a e b = (Inr e', b') \<and>
         inv b' \<and> view b' = view b \<and> sinv b' \<and> run_of b' = run_of b \<and> attempt_of b' = attempt_of b"
begin

text \<open>The worker holds the lease of a running task, and knows it; the run of the task exists.\<close>

definition holds :: "int \<Rightarrow> string \<Rightarrow> int \<Rightarrow> task_view \<Rightarrow> 'w exec_state \<Rightarrow> bool" where
  "holds tid w tok v s \<longleftrightarrow> active tid w tok s \<and> inv (xs_world s) \<and>
     view (xs_world s) tid = Some v \<and> v_token v = tok \<and> v_worker_id v = Some w \<and>
     v_status v = Task_running"

definition has_run :: "int \<Rightarrow> 'w \<Rightarrow> bool" where
  "has_run rid b \<longleftrightarrow> sinv b \<and> run_of b rid \<noteq> None"

definition same_books :: "'w \<Rightarrow> 'w \<Rightarrow> bool" where
  "same_books b b' \<longleftrightarrow> view b' = view b \<and> sinv b' \<and> run_of b' = run_of b \<and> attempt_of b' = attempt_of b"

lemma same_books_kept:
  "same_books b b' \<Longrightarrow> has_run rid b \<Longrightarrow> has_run rid b'"
  "same_books b b' \<Longrightarrow> closed_as rid aid rst ast b \<Longrightarrow> closed_as rid aid rst ast b'"
  "same_books b b' \<Longrightarrow> open_attempt rid aid b \<Longrightarrow> open_attempt rid aid b'"
  by (auto simp: same_books_def has_run_def closed_as_def open_attempt_def)

lemma books_has_run: "closed_as rid aid rst ast b \<Longrightarrow> has_run rid b" "open_attempt rid aid b \<Longrightarrow> has_run rid b"
  by (auto simp: closed_as_def open_attempt_def has_run_def)

lemma fencing_check:
  assumes "active tid w tok s" "inv (xs_world s)"
  shows "assert_active_fencing ops s = (view_check tid w tok (view (xs_world s) tid), s)"
  using assms can_complete [of "xs_world s" tid w tok]
  by (simp add: assert_active_fencing_def active_def world_do_def)

lemma fencing_holds: "holds tid w tok v s \<Longrightarrow> assert_active_fencing ops s = (Inr (), s)"
  using fencing_check [of tid w tok s] by (simp add: holds_def view_check_def)

lemma report_holds:
  assumes "holds tid w tok v s" "has_run rid (xs_world s)" "wx_replay_append x = buffer_append"
  shows "\<exists>s'. report ops x rid aid ty p s = (Inr (), s') \<and> holds tid w tok v s' \<and>
     same_books (xs_world s) (xs_world s')"
proof -
  obtain r where r: "inv (xs_world s)" "sinv (xs_world s)" "run_of (xs_world s) rid = Some r"
    using assms(1,2) by (auto simp: holds_def has_run_def)
  obtain ev where ev: "store_event x rid aid (new_event 0 ty p) s =
      world_do (buffer_append rid (Some aid) ev) (s\<lparr>xs_ticks := xs_ticks s + 1\<rparr>)"
    using store_event_eq [of x rid aid "new_event 0 ty p" s] assms(3) by auto
  obtain e' b where "buffer_append rid (Some aid) ev (xs_world s) = (Inr e', b)" "inv b" "same_books (xs_world s) b"
    using append_law [OF r, of "Some aid" ev] by (auto simp: same_books_def)
  then obtain s' where e: "store_event x rid aid (new_event 0 ty p) s = (Inr e', s')" "inv (xs_world s')"
      "same_books (xs_world s) (xs_world s')"
    by (simp add: ev world_do_def)
  then have "active tid w tok s'"
    using assms(1) keepsD [OF keeps_active_do(2)] by (fastforce simp: holds_def)
  moreover have "report ops x rid aid ty p s = (Inr (), s')"
    using e(1) fencing_holds [OF assms(1)] by (simp add: report_def append_def seq_def bnd_def ret_def)
  ultimately show ?thesis using e assms(1) by (auto simp: holds_def same_books_def)
qed

lemma append_lost:
  assumes "active tid w tok s" "inv (xs_world s)" "view_check tid w tok (view (xs_world s) tid) = Inl e"
  shows "append ops x r a ev s = (Inl e, s)"
  using fencing_check [OF assms(1,2)] assms(3) by (simp add: append_def eff_simps)

lemma store_write:
  assumes "m \<in> store_writes sops" "holds tid w tok v s" "m (xs_world s) = (res, b)"
  shows "world_do m s = (res, s\<lparr>xs_world := b\<rparr>)" "holds tid w tok v (s\<lparr>xs_world := b\<rparr>)" "inv b"
  using store_frame [OF assms(1) _ assms(3)] assms(2,3) by (simp_all add: world_do_def holds_def)

text \<open>A successful execution.\<close>

lemma result_outcome:
  assumes h: "holds tid w tok v s" and o: "open_attempt rid aid (xs_world s)"
    and l: "sn_task_id sn = tid" "sn_run_id sn = rid" "sn_fencing_token sn = tok" "wx_worker_id x = w"
      "wx_replay_append x = buffer_append"
  shows "\<exists>s'. on_result ops sops x sn aid result s =
       (Inr (Some (execution_result sn aid ''succeeded'')), s') \<and>
     inv (xs_world s') \<and>
     view (xs_world s') = (view (xs_world s))(tid \<mapsto> v\<lparr>v_status := Task_succeeded\<rparr>) \<and>
     closed_as rid aid Run_succeeded Attempt_succeeded (xs_world s') \<and>
     map_option r_output (run_of (xs_world s') rid) = Some (Some (stored (res_output result)))"
proof -
  obtain b1 b2 where b1: "so_complete_run sops rid (res_output result) (xs_world s) = (Inr (), b1)"
    and b2: "so_complete_attempt sops aid b1 = (Inr (), b2)"
      "closed_as rid aid Run_succeeded Attempt_succeeded b2"
      "map_option r_output (run_of b2 rid) = Some (Some (stored (res_output result)))"
    using attempt_completes [OF o] by blast
  have m: "so_complete_run sops rid (res_output result) \<in> store_writes sops" "so_complete_attempt sops aid \<in> store_writes sops"
    by (auto simp: store_writes_def)
  note w1 = store_write [OF m(1) h b1]
  define s2 where "s2 = s\<lparr>xs_world := b2\<rparr>"
  have w2: "world_do (so_complete_attempt sops aid) (s\<lparr>xs_world := b1\<rparr>) = (Inr (), s2)" "holds tid w tok v s2"
    "view b2 = view (xs_world s)"
    using store_write [OF m(2) w1(2), of "Inr ()" b2] b2(1) store_frame [OF m(2) w1(3) b2(1)]
      store_frame [OF m(1) _ b1] h by (auto simp: s2_def holds_def)
  have r2: "has_run rid (xs_world s2)" using b2(2) books_has_run(1) by (simp add: s2_def)
  obtain s3 where s3: "report ops x rid aid ''run.completed'' [(''output'', VDict (res_output result))] s2 = (Inr (), s3)"
    "holds tid w tok v s3" "same_books (xs_world s2) (xs_world s3)"
    using report_holds [OF w2(2) r2 l(5)] by blast
  obtain s4 where s4: "report ops x rid aid ''stream.completed'' [] s3 = (Inr (), s4)"
    "holds tid w tok v s4" "same_books (xs_world s3) (xs_world s4)"
    using report_holds [OF s3(2) same_books_kept(1) [OF s3(3) r2] l(5)] by blast
  obtain b where b: "op_complete ops tid w tok (xs_world s4) = (Inr (), b)" "inv b"
    "view b = (view (xs_world s4))(tid \<mapsto> v\<lparr>v_status := Task_succeeded\<rparr>)"
    using complete_ok [of "xs_world s4" tid v tok w] s4(2) by (auto simp: holds_def)
  have "op_complete ops tid w tok \<in> backend_writes ops" by (auto simp: backend_writes_def)
  from backend_frame [OF this _ b(1)] s4(3)
  have f: "sinv b" "run_of b = run_of b2" "attempt_of b = attempt_of b2"
    using s3(3) by (auto simp: same_books_def s2_def)
  have "on_result ops sops x sn aid result s = (Inr (Some (execution_result sn aid ''succeeded'')),
      snd (clear_active_lease (s4\<lparr>xs_world := b\<rparr>)))"
    using w1(1) w2(1) s3(1) s4(1) b(1) fencing_holds [OF h]
    by (simp add: on_result_def l seq_def bnd_def ret_def) (simp add: world_do_def clear_active_lease_def upd_def)
  then show ?thesis
    using b(2,3) f b2(2,3) w2(3) s3(3) s4(3)
    by (auto simp: clear_active_lease_def upd_def closed_as_def same_books_def s2_def)
qed

text \<open>What follows the end of a failed attempt, up to handing the task back.\<close>

lemma failure_tail:
  assumes h: "holds tid w tok v s" and x: "wx_replay_append x = buffer_append"
    and m: "end_run \<in> store_writes sops" and c: "closed_as rid aid Run_running ast (xs_world s)"
    and er: "\<And>b. closed_as rid aid Run_running ast b \<Longrightarrow> \<exists>b'. end_run b = (Inr (), b') \<and> closed_as rid aid rst ast b'"
  shows "\<exists>s'. (if \<not> retries_left v
       then seq (world_do end_run) (seq (report ops x rid aid re err) (report ops x rid aid ''stream.failed'' err))
       else report ops x rid aid ''task.retrying'' err) s = (Inr (), s') \<and> holds tid w tok v s' \<and>
     view (xs_world s') = view (xs_world s) \<and>
     closed_as rid aid (if retries_left v then Run_running else rst) ast (xs_world s')"
proof (cases "retries_left v")
  case True
  then show ?thesis
    using report_holds [OF h books_has_run(1) [OF c] x, of aid "''task.retrying''" err] c same_books_kept(2)
    by (auto simp: same_books_def)
next
  case False
  obtain b1 where b1: "end_run (xs_world s) = (Inr (), b1)" "closed_as rid aid rst ast b1" using er [OF c] by blast
  note w = store_write [OF m h b1(1)]
  have v: "view b1 = view (xs_world s)" using store_frame [OF m _ b1(1)] h by (simp add: holds_def)
  obtain s2 where s2: "report ops x rid aid re err (s\<lparr>xs_world := b1\<rparr>) = (Inr (), s2)" "holds tid w tok v s2"
    "same_books b1 (xs_world s2)"
    using report_holds [OF w(2) _ x, of rid aid re err] books_has_run(1) [OF b1(2)] by auto
  have c2: "closed_as rid aid rst ast (xs_world s2)" by (rule same_books_kept(2) [OF s2(3) b1(2)])
  obtain s3 where s3: "report ops x rid aid ''stream.failed'' err s2 = (Inr (), s3)" "holds tid w tok v s3"
    "same_books (xs_world s2) (xs_world s3)"
    using report_holds [OF s2(2) books_has_run(1) [OF c2] x] by blast
  then show ?thesis
    using False w(1) s2(1,3) v same_books_kept(2) [OF s3(3) c2] by (auto simp: seq_def bnd_def same_books_def)
qed

text \<open>A failed or timed-out execution: the attempt is closed, and the run too when no retry is left.\<close>

lemma failure_outcome:
  assumes h: "holds tid w tok v s"
    and l: "sn_task_id sn = tid" "sn_run_id sn = rid" "sn_fencing_token sn = tok" "wx_worker_id x = w"
      "wx_replay_append x = buffer_append"
    and m: "end_attempt \<in> store_writes sops" "end_run \<in> store_writes sops"
    and b1: "end_attempt (xs_world s) = (Inr (), b1)" "closed_as rid aid Run_running ast b1"
    and er: "\<And>b. closed_as rid aid Run_running ast b \<Longrightarrow> \<exists>b'. end_run b = (Inr (), b') \<and> closed_as rid aid rst ast b'"
  shows "\<exists>s'. close_failed ops x sn aid end_attempt end_run ae re st err s =
       (Inr (Some (execution_result sn aid st)), s') \<and>
     inv (xs_world s') \<and> view (xs_world s') = (view (xs_world s))(tid \<mapsto> view_failed v) \<and>
     closed_as rid aid (if retries_left v then Run_running else rst) ast (xs_world s')"
proof -
  note w1 = store_write [OF m(1) h b1(1)]
  have v1: "view b1 = view (xs_world s)" using store_frame [OF m(1) _ b1(1)] h by (simp add: holds_def)
  obtain s2 where s2: "report ops x rid aid ae err (s\<lparr>xs_world := b1\<rparr>) = (Inr (), s2)" "holds tid w tok v s2"
    "same_books b1 (xs_world s2)"
    using report_holds [OF w1(2) _ l(5), of rid aid ae err] books_has_run(1) [OF b1(2)] by auto
  have r: "world_do (op_will_retry ops tid) s2 = (Inr (retries_left v), s2)"
    using will_retry [of "xs_world s2" tid v] s2(2) by (simp add: holds_def world_do_def)
  obtain s3 where s3: "(if \<not> retries_left v
       then seq (world_do end_run) (seq (report ops x rid aid re err) (report ops x rid aid ''stream.failed'' err))
       else report ops x rid aid ''task.retrying'' err) s2 = (Inr (), s3)" "holds tid w tok v s3"
    "view (xs_world s3) = view (xs_world s2)"
    "closed_as rid aid (if retries_left v then Run_running else rst) ast (xs_world s3)"
    using failure_tail [OF s2(2) l(5) m(2) same_books_kept(2) [OF s2(3) b1(2)] er] by blast
  obtain b where b: "op_fail ops tid w tok err (xs_world s3) = (Inr (), b)" "inv b"
    "view b = (view (xs_world s3))(tid \<mapsto> view_failed v)"
    using fail_ok [of "xs_world s3" tid v tok w err] s3(2) by (auto simp: holds_def)
  have "op_fail ops tid w tok err \<in> backend_writes ops" by (auto simp: backend_writes_def)
  from backend_frame [OF this _ b(1)] s3(4)
  have f: "closed_as rid aid (if retries_left v then Run_running else rst) ast b" by (auto simp: closed_as_def)
  have wb: "world_do (op_fail ops tid w tok err) s3 = (Inr (), s3\<lparr>xs_world := b\<rparr>)" using b(1) by (simp add: world_do_def)
  have "close_failed ops x sn aid end_attempt end_run ae re st err s =
      (Inr (Some (execution_result sn aid st)), snd (clear_active_lease (s3\<lparr>xs_world := b\<rparr>)))"
    unfolding close_failed_def l
    by (rule trans [OF seq_ok], rule fencing_holds [OF h], rule trans [OF seq_ok], rule w1(1), rule trans [OF seq_ok],
        rule s2(1), rule trans [OF bnd_ok], rule r, rule trans [OF seq_ok], rule s3(1), rule trans [OF seq_ok], rule wb)
      (simp add: step_simps)
  then show ?thesis using b(2,3) f s2(3) s3(3) v1 by (auto simp: clear_active_lease_def upd_def same_books_def)
qed

text \<open>A worker that has lost its lease writes nothing, whatever the agent returned or raised.\<close>

lemma lost_outcome:
  assumes "active tid w tok s" "inv (xs_world s)" "view_check tid w tok (view (xs_world s) tid) = Inl e"
  shows "on_result ops sops x sn aid result s = (Inl e, s)"
    "\<exists>e' s'. on_exception ops sops x sn aid exc s = (Inl e', s') \<and> xs_world s' = xs_world s"
  using fencing_check [OF assms(1,2)] assms(3)
  by (simp_all add: on_result_def on_exception_def close_failed_def step_simps Let_def split: exn.splits)

lemma begin_ok:
  assumes b: "inv (xs_world s)" "op_lease ops q (wx_worker_id x) n (xs_world s) = (Inr (Some sn), b1)"
    and t: "sinv b1" "run_of b1 (sn_run_id sn) = Some r" "startable (r_status r)"
    and x: "wx_replay_append x = buffer_append"
  shows "\<exists>att s1 v. begin_attempt ops sops x sn (s\<lparr>xs_world := b1\<rparr>) = (Inr att, s1) \<and>
     holds (sn_task_id sn) (wx_worker_id x) (sn_fencing_token sn) v s1 \<and>
     open_attempt (sn_run_id sn) (a_attempt_id att) (xs_world s1) \<and>
     run_of (xs_world s1) (sn_run_id sn) = Some (r\<lparr>r_status := Run_running\<rparr>)"
proof -
  let ?m = "op_mark_running ops (sn_task_id sn) (wx_worker_id x) (sn_fencing_token sn)"
  let ?c = "so_create_attempt sops (sn_run_id sn) (sn_task_id sn) (wx_worker_id x)"
  obtain b2 v where m: "?m b1 = (Inr (), b2)"
    and v: "inv b2" "view b2 (sn_task_id sn) = Some v" "v_status v = Task_running"
      "v_worker_id v = Some (wx_worker_id x)" "v_token v = sn_fencing_token sn"
    using lease_then_mark_running [OF b] by blast
  have "?m \<in> backend_writes ops" by (auto simp: backend_writes_def)
  from backend_frame [OF this t(1) m] t(2)
  have t2: "sinv b2" "run_of b2 (sn_run_id sn) = Some r" by simp_all
  obtain att b3 where a: "?c b2 = (Inr att, b3)" "open_attempt (sn_run_id sn) (a_attempt_id att) b3"
      "run_of b3 (sn_run_id sn) = Some (r\<lparr>r_status := Run_running\<rparr>)"
    using attempt_opens [OF t2 t(3)] by blast
  have "seq ?c (ret ()) \<in> store_writes sops" unfolding store_writes_def by (rule UnI2) blast
  from store_frame [OF this v(1), of "Inr ()" b3] a(1)
  have v3: "inv b3" "view b3 = view b2" by (simp_all add: seq_def bnd_def ret_def)
  define s0 where "s0 = s\<lparr>xs_active_task_id := Some (sn_task_id sn), xs_active_worker_id := Some (wx_worker_id x),
    xs_active_fencing_token := Some (sn_fencing_token sn), xs_world := b3\<rparr>"
  have h: "holds (sn_task_id sn) (wx_worker_id x) (sn_fencing_token sn) v s0"
    using v v3 by (simp add: holds_def active_def s0_def)
  have r0: "has_run (sn_run_id sn) (xs_world s0)" using books_has_run(2) [OF a(2)] by (simp add: s0_def)
  obtain s1 where s1: "report ops x (sn_run_id sn) (a_attempt_id att) ''attempt.started'' [] s0 = (Inr (), s1)"
    "holds (sn_task_id sn) (wx_worker_id x) (sn_fencing_token sn) v s1" "same_books b3 (xs_world s1)"
    using report_holds [OF h r0 x, of "a_attempt_id att" "''attempt.started''" "[]"] by (auto simp: s0_def)
  have "begin_attempt ops sops x sn (s\<lparr>xs_world := b1\<rparr>) = (Inr att, s1)"
    unfolding begin_attempt_def
    by (rule trans [OF seq_ok], simp add: world_do_def m, rule trans [OF seq_upd], rule trans [OF bnd_ok],
        simp add: world_do_def a(1), rule trans [OF seq_ok], rule s1(1) [unfolded s0_def], simp add: ret_def)
  moreover have "run_of (xs_world s1) (sn_run_id sn) = Some (r\<lparr>r_status := Run_running\<rparr>)"
    using s1(3) a(3) by (simp add: same_books_def)
  ultimately show ?thesis using s1(2) same_books_kept(3) [OF s1(3) a(2)] by blast
qed

text \<open>How the execution leaves the books.\<close>

definition ended :: "int \<Rightarrow> int \<Rightarrow> int \<Rightarrow> task_view \<Rightarrow> exn + AgentResult \<Rightarrow> 'w \<Rightarrow> bool" where
  "ended tid rid aid v res b \<longleftrightarrow> inv b \<and> (case res of
     Inr result \<Rightarrow> closed_as rid aid Run_succeeded Attempt_succeeded b \<and>
       map_option r_output (run_of b rid) = Some (Some (stored (res_output result))) \<and>
       view b tid = Some (v\<lparr>v_status := Task_succeeded\<rparr>)
   | Inl e \<Rightarrow> view b tid = Some (view_failed v) \<and>
       closed_as rid aid
         (if retries_left v then Run_running else if e = TimeoutError then Run_timeout else Run_failed)
         (if e = TimeoutError then Attempt_timeout else Attempt_failed) b)"

definition status_of :: "exn + AgentResult \<Rightarrow> string" where
  "status_of res = (case res of Inr _ \<Rightarrow> ''succeeded''
     | Inl e \<Rightarrow> if e = TimeoutError then ''timeout'' else ''failed'')"

lemma exception_outcome:
  assumes h: "holds tid w tok v s" and o: "open_attempt rid aid (xs_world s)"
    and l: "sn_task_id sn = tid" "sn_run_id sn = rid" "sn_fencing_token sn = tok" "wx_worker_id x = w"
      "wx_replay_append x = buffer_append"
    and e: "\<nexists>i. e = StaleFencingTokenError i"
  shows "\<exists>s'. on_exception ops sops x sn aid e s =
       (Inr (Some (execution_result sn aid (status_of (Inl e)))), s') \<and> ended tid rid aid v (Inl e) (xs_world s')"
proof (cases "e = TimeoutError")
  case True
  let ?err = "timeout_error x"
  obtain b1 where b1: "so_timeout_attempt sops aid ?err (xs_world s) = (Inr (), b1)"
    "closed_as rid aid Run_running Attempt_timeout b1"
    using attempt_ends(2) [OF o] by blast
  have m: "so_timeout_attempt sops aid ?err \<in> store_writes sops" "so_timeout_run sops rid ?err \<in> store_writes sops"
    unfolding store_writes_def by blast+
  from failure_outcome [OF h l m b1 run_ends(2), of "''attempt.timeout''" "''run.timeout''" "''timeout''" ?err]
  show ?thesis using l(2) by (auto simp: True on_exception_def Let_def ended_def status_of_def)
next
  case False
  let ?err = "failure_error x e"
  obtain b1 where b1: "so_fail_attempt sops aid ?err (xs_world s) = (Inr (), b1)"
    "closed_as rid aid Run_running Attempt_failed b1"
    using attempt_ends(1) [OF o] by blast
  have m: "so_fail_attempt sops aid ?err \<in> store_writes sops" "so_fail_run sops rid ?err \<in> store_writes sops"
    unfolding store_writes_def by blast+
  have "on_exception ops sops x sn aid e = close_failed ops x sn aid (so_fail_attempt sops aid ?err)
      (so_fail_run sops rid ?err) ''attempt.failed'' ''run.failed'' ''failed'' ?err"
    using False e l(2) by (cases e) (simp_all add: on_exception_def Let_def)
  with failure_outcome [OF h l m b1 run_ends(1), of "''attempt.failed''" "''run.failed''" "''failed''" ?err]
  show ?thesis using False by (auto simp: ended_def status_of_def)
qed

lemma held_outcome:
  assumes h: "holds tid w tok v s" and o: "open_attempt rid aid (xs_world s)"
    and l: "sn_task_id sn = tid" "sn_run_id sn = rid" "sn_fencing_token sn = tok" "wx_worker_id x = w"
      "wx_replay_append x = buffer_append"
    and res: "\<nexists>i. res = Inl (StaleFencingTokenError i)"
  shows "\<exists>s'. (case res of Inl exc \<Rightarrow> on_exception ops sops x sn aid exc s
       | Inr result \<Rightarrow> on_result ops sops x sn aid result s) =
       (Inr (Some (execution_result sn aid (status_of res))), s') \<and> ended tid rid aid v res (xs_world s')"
proof (cases res)
  case (Inr result)
  then show ?thesis
    using result_outcome [OF h o l, of result] by (auto simp: ended_def status_of_def)
next
  case (Inl e)
  then show ?thesis using exception_outcome [OF h o l, of e] res by simp
qed

text \<open>A whole execution, with the lease kept or lost.\<close>

lemma execution_closes:
  assumes "executes ops sops x lim q n s sn aid res s2" "wx_replay_append x = buffer_append"
    "inv (xs_world s2)" "view (xs_world s2) (sn_task_id sn) = Some v" "v_token v = sn_fencing_token sn"
    "v_worker_id v = Some (wx_worker_id x)" "v_status v = Task_running" "open_attempt (sn_run_id sn) aid (xs_world s2)"
    "\<nexists>i. res = Inl (StaleFencingTokenError i)"
  shows "\<exists>s'. execute_once ops sops x lim q n s = (Inr (Some (execution_result sn aid (status_of res))), s') \<and>
     ended (sn_task_id sn) (sn_run_id sn) aid v res (xs_world s')"
proof -
  have "holds (sn_task_id sn) (wx_worker_id x) (sn_fencing_token sn) v s2"
    using assms executes_active [OF assms(1)] by (simp add: holds_def)
  from held_outcome [OF this assms(8) refl refl refl refl assms(2,9)]
  show ?thesis using executes_once [OF assms(1)] by simp
qed

lemma execution_lost:
  assumes "executes ops sops x lim q n s sn aid res s2" "inv (xs_world s2)"
    "view_check (sn_task_id sn) (wx_worker_id x) (sn_fencing_token sn) (view (xs_world s2) (sn_task_id sn)) = Inl e"
  shows "\<exists>e' s'. execute_once ops sops x lim q n s = (Inl e', s') \<and> xs_world s' = xs_world s2"
    "append ops x (sn_run_id sn) aid ev s2 = (Inl e, s2)"
proof -
  note a = executes_active [OF assms(1)]
  show "\<exists>e' s'. execute_once ops sops x lim q n s = (Inl e', s') \<and> xs_world s' = xs_world s2"
    unfolding executes_once [OF assms(1)]
    using lost_outcome [OF a assms(2,3), of x sn aid] by (cases res) auto
  show "append ops x (sn_run_id sn) aid ev s2 = (Inl e, s2)" by (rule append_lost [OF a assms(2,3)])
qed

end
section \<open>With the in-memory backend, store and buffer\<close>

record memory_world =
  mw_backend :: in_memory_backend
  mw_store :: run_store
  mw_buffer :: ReplayBuffer

type_synonym memory_state = "memory_world exec_state"

interpretation backend_part: part mw_backend "\<lambda>b w. w\<lparr>mw_backend := b\<rparr>"
  by unfold_locales simp_all

interpretation store_part: part mw_store "\<lambda>s w. w\<lparr>mw_store := s\<rparr>"
  by unfold_locales simp_all

definition memory_ops :: "datetime \<Rightarrow> datetime \<Rightarrow> memory_world task_backend_ops" where
  "memory_ops now rn = focus_backend mw_backend (\<lambda>b w. w\<lparr>mw_backend := b\<rparr>) (in_memory_ops now rn)"

definition memory_store_ops :: "datetime \<Rightarrow> memory_world runtime_run_store_ops" where
  "memory_store_ops now = focus_store mw_store (\<lambda>s w. w\<lparr>mw_store := s\<rparr>) (in_memory_store_ops now)"

definition memory_append :: "int \<Rightarrow> int option \<Rightarrow> AgentEvent \<Rightarrow> (memory_world, AgentEvent) eff" where
  "memory_append run_id attempt_id event w = (case append_event run_id attempt_id event (mw_buffer w) of
     (stored, b) \<Rightarrow> (Inr stored, w\<lparr>mw_buffer := b\<rparr>))"

lemma memory_writes:
  "m \<in> backend_writes (memory_ops now rn) \<Longrightarrow> m w = (res, w') \<Longrightarrow> mw_store w' = mw_store w"
  "m \<in> store_writes (memory_store_ops now) \<Longrightarrow> m w = (res, w') \<Longrightarrow> mw_backend w' = mw_backend w"
  unfolding memory_ops_def memory_store_ops_def
  by (drule (1) backend_part.backend_writes_focus, auto, drule (1) store_part.store_writes_focus, auto)

interpretation memory_worker: worker "memory_ops now rn" "\<lambda>w. in_memory_view (mw_backend w)"
    "\<lambda>w. wf_backend (mw_backend w)" "memory_store_ops now" "\<lambda>w. run_in (mw_store w)" "\<lambda>w. attempt_in (mw_store w)"
    "\<lambda>w. wf_store (mw_store w)" "\<lambda>d. d" memory_append
proof (intro worker.intro worker_axioms.intro)
  show "runtime_task_backend (memory_ops now rn) (\<lambda>w. in_memory_view (mw_backend w)) (\<lambda>w. wf_backend (mw_backend w))"
    unfolding memory_ops_def by (rule backend_part.backend_contract) unfold_locales
  show "runtime_run_store (memory_store_ops now) (\<lambda>w. run_in (mw_store w)) (\<lambda>w. attempt_in (mw_store w))
      (\<lambda>w. wf_store (mw_store w)) (\<lambda>d. d)"
    unfolding memory_store_ops_def by (rule store_part.store_contract) unfold_locales
qed (auto simp: memory_append_def dest: memory_writes split: prod.splits)

definition lease_kept :: "string \<Rightarrow> task_snapshot \<Rightarrow> in_memory_backend \<Rightarrow> bool" where
  "lease_kept w sn b \<longleftrightarrow> wf_backend b \<and> (case dget (tasks b) (sn_task_id sn) of
       None \<Rightarrow> False
     | Some t \<Rightarrow> t_fencing_token t = sn_fencing_token sn \<and> t_worker_id t = Some w \<and> t_status t = Task_running)"

definition attempt_open :: "task_snapshot \<Rightarrow> int \<Rightarrow> run_store \<Rightarrow> bool" where
  "attempt_open sn aid st \<longleftrightarrow> wf_store st \<and>
     map_option r_status (run_in st (sn_run_id sn)) = Some Run_running \<and>
     map_option (\<lambda>a. (a_status a, a_run_id a)) (attempt_in st aid) = Some (Attempt_running, sn_run_id sn)"

definition retry_left :: "task_snapshot \<Rightarrow> in_memory_backend \<Rightarrow> bool" where
  "retry_left sn b \<longleftrightarrow> (case dget (tasks b) (sn_task_id sn) of
       None \<Rightarrow> False | Some t \<Rightarrow> t_attempt t + 1 < t_max_attempts t)"

text \<open>Result, run, attempt and task status that belong together.\<close>

definition expected :: "exn + AgentResult \<Rightarrow> bool \<Rightarrow> string \<times> RunStatus \<times> RunAttemptStatus \<times> TaskStatus" where
  "expected res retry = (case res of
       Inr _ \<Rightarrow> (''succeeded'', Run_succeeded, Attempt_succeeded, Task_succeeded)
     | Inl e \<Rightarrow> (if e = TimeoutError
         then (''timeout'', if retry then Run_running else Run_timeout, Attempt_timeout,
               if retry then Task_queued else Task_dead_letter)
         else (''failed'', if retry then Run_running else Run_failed, Attempt_failed,
               if retry then Task_queued else Task_dead_letter)))"


text \<open>
  C2: A worker that has lost its lease while the agent ran (the task was reaped and leased to another
  worker, or its token moved on) writes nothing any more, whether the agent returned or raised: the
  execution raises, and task backend, run store and event buffer are exactly as the agent's execution
  left them. Neither can such a worker store a further event.
\<close>

theorem lost_lease_writes_nothing:
  assumes "executes (memory_ops now rn) (memory_store_ops now) x lim q n s sn aid res s2"
    "wf_backend (mw_backend (xs_world s2))"
    "fst (assert_can_complete (sn_task_id sn) (wx_worker_id x) (sn_fencing_token sn) (mw_backend (xs_world s2))) = Inl e"
  shows "\<exists>e' s'. execute_once (memory_ops now rn) (memory_store_ops now) x lim q n s = (Inl e', s') \<and>
       xs_world s' = xs_world s2 \<and>
     append (memory_ops now rn) x (sn_run_id sn) aid ev s2 = (Inl e, s2)"
proof -
  have "view_check (sn_task_id sn) (wx_worker_id x) (sn_fencing_token sn)
      (in_memory_view (mw_backend (xs_world s2)) (sn_task_id sn)) = Inl e"
    using assms(3) view_check_in_memory [OF assms(2)] by simp
  from memory_worker.execution_lost [OF assms(1,2) this] show ?thesis by blast
qed

section \<open>A concrete worker\<close>

definition demo_adapter :: "(memory_world \<Rightarrow> memory_world) \<Rightarrow> (memory_world, unit) agent_adapter" where
  "demo_adapter meanwhile = \<lparr>ad_framework = None, ad_load = (\<lambda>_ _ _. ret ()),
     ad_invoke = (\<lambda>_ d _ w. (Inr (new_result d), meanwhile w)), ad_stream = (\<lambda>_ _ _. ret []),
     ad_cancel = (\<lambda>_ _. ret ())\<rparr>"

definition demo_worker :: "(memory_world \<Rightarrow> memory_world) \<Rightarrow> (memory_world, unit) worker_executor" where
  "demo_worker meanwhile = \<lparr>wx_worker_id = ''w1'', wx_replay_append = memory_append,
     wx_adapters = [(''py'', demo_adapter meanwhile)],
     wx_agent_specs = [(70, \<lparr>sp_adapter = ''py'', sp_package_uri = [], sp_manifest = [],
       sp_runtime_config = [], sp_secrets = None, sp_metadata = None\<rparr>)],
     wx_resolver = None, wx_governance = None, wx_str = (\<lambda>_. []), wx_class = (\<lambda>_. []),
     wx_clock = int, wx_uuid = []\<rparr>"

definition demo_payload :: task_payload where
  "demo_payload = empty_payload\<lparr>p_run_id := Some 1, p_input_data := Some [(''q'', VInt 3)]\<rparr>"

definition idle :: "'w \<Rightarrow> 'w exec_state" where
  "idle w = \<lparr>xs_world = w, xs_ticks = 0, xs_active_task_id = None, xs_active_worker_id = None,
     xs_active_fencing_token = None, xs_active_context = None\<rparr>"

definition demo_state :: memory_state where
  "demo_state = idle \<lparr>mw_backend = snd (enqueue 0 demo_payload init_backend),
     mw_store = run_store_ops [St_create_run 0 1 1 7 70 None [(''q'', VInt 3)] None None None] init_run_store,
     mw_buffer = init_buffer 10 1000\<rparr>"

definition demo_leased :: "task_snapshot \<times> in_memory_backend" where
  "demo_leased = (case lease 5 5 ''default'' ''w1'' 30 (mw_backend (xs_world demo_state)) of
       (Inr (Some sn), b) \<Rightarrow> (sn, b)
     | (_, b) \<Rightarrow> (snapshot (snd (hd (tasks b))), b))"

definition demo_begun :: "(exn + RuntimeAttempt) \<times> memory_state" where
  "demo_begun = begin_attempt (memory_ops 5 5) (memory_store_ops 5) (demo_worker id) (fst demo_leased)
     (demo_state\<lparr>xs_world := (xs_world demo_state)\<lparr>mw_backend := snd demo_leased\<rparr>\<rparr>)"

definition demo_ran :: "(memory_world \<Rightarrow> memory_world) \<Rightarrow> (exn + AgentResult) \<times> memory_state" where
  "demo_ran meanwhile = run_agent (memory_ops 5 5) (memory_store_ops 5) (demo_worker meanwhile) None
     (fst demo_leased) 1 (snd demo_begun)"

text \<open>Another worker takes the task over after the lease has expired.\<close>

definition takeover :: "memory_world \<Rightarrow> memory_world" where
  "takeover w = w\<lparr>mw_backend := snd (lease 40000000 40000000 ''default'' ''w2'' 30 (mw_backend w))\<rparr>"

text \<open>Beginning an attempt does not depend on the adapters.\<close>

lemma begin_attempt_cong:
  assumes "wx_worker_id x = wx_worker_id y" "wx_clock x = wx_clock y" "wx_uuid x = wx_uuid y"
    "wx_replay_append x = wx_replay_append y"
  shows "begin_attempt ops sops x sn = begin_attempt ops sops y sn"
proof -
  have "store_event x r a e = store_event y r a e" for r a e
    unfolding fun_eq_iff store_event_def assms by (intro allI refl)
  then show ?thesis by (simp add: begin_attempt_def report_def append_def assms)
qed

lemma demo_executes:
  "executes (memory_ops 5 5) (memory_store_ops 5) (demo_worker m) None ''default'' 30 demo_state (fst demo_leased) 1
     (fst (demo_ran m)) (snd (demo_ran m))"
proof -
  have "lease 5 5 ''default'' ''w1'' 30 (mw_backend (xs_world demo_state)) = (Inr (Some (fst demo_leased)), snd demo_leased)"
    by code_simp
  then have l: "op_lease (memory_ops 5 5) ''default'' (wx_worker_id (demo_worker m)) 30 (xs_world demo_state) =
      (Inr (Some (fst demo_leased)), (xs_world demo_state)\<lparr>mw_backend := snd demo_leased\<rparr>)"
    by (simp add: memory_ops_def focus_def in_memory_ops_def demo_worker_def)
  have "map_sum id a_attempt_id (fst demo_begun) = Inr 1" by code_simp
  then obtain att where a: "fst demo_begun = Inr att" "a_attempt_id att = 1" by (cases "fst demo_begun") auto
  have w: "begin_attempt (memory_ops 5 5) (memory_store_ops 5) (demo_worker m) (fst demo_leased)
     (demo_state\<lparr>xs_world := (xs_world demo_state)\<lparr>mw_backend := snd demo_leased\<rparr>\<rparr>) = (Inr att, snd demo_begun)"
    using a(1) unfolding demo_begun_def
    by (subst begin_attempt_cong [of _ "demo_worker id"]) (simp_all add: demo_worker_def prod_eq_iff)
  show ?thesis
    using l w a(2) unfolding executes_def demo_ran_def by (metis prod.collapse)
qed

definition demo_history :: "backend_op list" where
  "demo_history = [Op_enqueue 0 demo_payload, Op_lease 5 5 ''default'' ''w1'' 30, Op_mark_running 1 ''w1'' 1]"

lemma demo_run_wf:
  "wf_backend (mw_backend (xs_world (snd (demo_ran id))))" "wf_backend (mw_backend (xs_world (snd (demo_ran takeover))))"
  "wf_store (mw_store (xs_world (snd (demo_ran id))))"
proof -
  have "mw_backend (xs_world (snd (demo_ran id))) = run_ops demo_history init_backend" by code_simp
  then show "wf_backend (mw_backend (xs_world (snd (demo_ran id))))" by (simp add: run_ops_wf wf_init)
  have "mw_backend (xs_world (snd (demo_ran takeover))) =
      run_ops (demo_history @ [Op_lease 40000000 40000000 ''default'' ''w2'' 30]) init_backend" by code_simp
  then show "wf_backend (mw_backend (xs_world (snd (demo_ran takeover))))" by (simp add: run_ops_wf wf_init)
  have "mw_store (xs_world (snd (demo_ran id))) = run_store_ops [St_create_run 0 1 1 7 70 None [(''q'', VInt 3)] None None None,
      St_create_attempt 5 1 1 ''w1''] init_run_store" by code_simp
  then show "wf_store (mw_store (xs_world (snd (demo_ran id))))"
    by (simp add: run_store_ops_wf wf_init_store proper_op_def)
qed


theorem lost_lease_writes_nothing_witness:
  "\<exists>e' s'. execute_once (memory_ops 5 5) (memory_store_ops 5) (demo_worker takeover) None ''default'' 30
      demo_state = (Inl e', s') \<and> map_option t_worker_id (dget (tasks (mw_backend (xs_world s'))) 1) = Some (Some ''w2'') \<and>
    map_option r_status (run_in (mw_store (xs_world s')) 1) = Some Run_running"
proof -
  have c: "fst (assert_can_complete (sn_task_id (fst demo_leased)) (wx_worker_id (demo_worker takeover))
      (sn_fencing_token (fst demo_leased)) (mw_backend (xs_world (snd (demo_ran takeover))))) = Inl (StaleFencingTokenError 1)"
    by code_simp
  have "map_option t_worker_id (dget (tasks (mw_backend (xs_world (snd (demo_ran takeover))))) 1) = Some (Some ''w2'')"
    "map_option r_status (run_in (mw_store (xs_world (snd (demo_ran takeover)))) 1) = Some Run_running" by code_simp+
  then show ?thesis
    using lost_lease_writes_nothing [OF demo_executes demo_run_wf(2) c, of demo_event]
    by metis
qed

end
