(* ===== verification/Durable.thy ===== *)
theory Durable
  imports Sql_Run_Store Sql_Safety Worker_Safety
begin

text \<open>
  The production worker (\<open>worker/durable.py\<close>): task backend, run store and event buffer share one database
  session, and the event buffer keeps an in-memory copy that every executor starts afresh. What an execution
  guarantees follows from the contracts, as for the in-memory worker. The resolver of runtime specs, the
  governance services and the adapters are parameters.
\<close>

section \<open>One session for backend, store and buffer\<close>

record durable_world =
  dw_backend :: sql_backend
  dw_buffer :: ReplayBuffer

definition dw_session :: "durable_world \<Rightarrow> sql_session" where
  "dw_session w = sb_session (dw_backend w)"

definition dw_put_session :: "sql_session \<Rightarrow> durable_world \<Rightarrow> durable_world" where
  "dw_put_session s w = w\<lparr>dw_backend := (dw_backend w)\<lparr>sb_session := s\<rparr>\<rparr>"

definition durable_ops :: "datetime \<Rightarrow> durable_world task_backend_ops" where
  "durable_ops now = focus_backend dw_backend (\<lambda>b w. w\<lparr>dw_backend := b\<rparr>) (sql_ops now)"

definition durable_store_ops :: "datetime \<Rightarrow> durable_world runtime_run_store_ops" where
  "durable_store_ops now = focus_store dw_session dw_put_session (sql_store_ops now)"

text \<open>\<open>SQLAlchemyReplayBuffer.append\<close>\<close>

definition durable_append :: "int \<Rightarrow> int option \<Rightarrow> AgentEvent \<Rightarrow> (durable_world, AgentEvent) eff" where
  "durable_append run_id attempt_id event w = (case append_event run_id attempt_id event (dw_buffer w) of
     (appended, buffer) \<Rightarrow>
       focus dw_session dw_put_session
         (bnd (sql_get_run run_id) (\<lambda>run.
          seq (event_append run_id (r_tenant_id run) (r_project_id run) (ev_type appended) (Some (ev_payload appended))
                 attempt_id (ev_framework appended) (ev_visibility_level appended))
              (ret appended)))
         (w\<lparr>dw_buffer := buffer\<rparr>))"

section \<open>The executor\<close>

record AgentVersionRow =
  vr_id :: int
  vr_agent_id :: int
  vr_version :: string
  vr_package_uri :: string
  vr_framework :: string
  vr_adapter :: string
  vr_capabilities_json :: pydict
  vr_entrypoint :: string
  vr_manifest_json :: pydict
  vr_adapter_api_version :: "string option"
  vr_framework_version :: "string option"
  vr_manifest_schema_version :: "string option"
  vr_capability_schema_version :: "string option"
  vr_event_schema_version :: "string option"
  vr_compatibility_status :: "string option"
  vr_compatibility_checked_at :: "datetime option"
  vr_status :: string
  vr_created_at :: datetime
  vr_is_deleted :: bool

definition durable_specs :: "AgentVersionRow list \<Rightarrow> (int \<times> AgentRuntimeSpec) list" where
  "durable_specs versions = fold (\<lambda>v d. dset d (vr_id v)
       \<lparr>sp_adapter = vr_adapter v, sp_package_uri = vr_package_uri v, sp_manifest = vr_manifest_json v,
        sp_runtime_config = [], sp_secrets = None, sp_metadata = None\<rparr>)
     (filter (\<lambda>v. \<not> vr_is_deleted v) versions) []"

text \<open>What the factory gets from its surroundings besides the session.\<close>

record 'a durable_setting =
  dr_worker_id :: string
  dr_adapters :: "(string \<times> (durable_world, 'a) agent_adapter) list"
  dr_resolve :: "RuntimeRun \<Rightarrow> (durable_world, AgentRuntimeSpec) eff"
  dr_governance :: "RuntimeRun \<Rightarrow> RuntimeContext \<Rightarrow> pydict \<Rightarrow> (durable_world, RuntimeGovernanceBundle option) eff"
  dr_str :: "exn \<Rightarrow> string"
  dr_class :: "exn \<Rightarrow> string"
  dr_clock :: "nat \<Rightarrow> datetime"
  dr_uuid :: string

definition build :: "'a durable_setting \<Rightarrow> AgentVersionRow list \<Rightarrow> (durable_world, 'a) worker_executor" where
  "build f versions =
     \<lparr>wx_worker_id = dr_worker_id f, wx_replay_append = durable_append, wx_adapters = dr_adapters f,
      wx_agent_specs = durable_specs versions, wx_resolver = Some (dr_resolve f),
      wx_governance = Some (dr_governance f), wx_str = dr_str f, wx_class = dr_class f, wx_clock = dr_clock f,
      wx_uuid = dr_uuid f\<rparr>"

definition execute_durable_once ::
  "datetime \<Rightarrow> 'a durable_setting \<Rightarrow> AgentVersionRow list \<Rightarrow> nat option \<Rightarrow> string \<Rightarrow> int \<Rightarrow> sql_session \<Rightarrow>
     (exn + WorkerExecutionResult option) \<times> durable_world" where
  "execute_durable_once now f versions lim queue lease_seconds session =
     (let w = \<lparr>dw_backend = \<lparr>sb_session = session, sb_quota = None, sb_last_quota_error = None, sb_dead_letters = []\<rparr>,
               dw_buffer = init_buffer 1000 64000\<rparr>
      in apsnd xs_world (execute_once (durable_ops now) (durable_store_ops now) (build f versions) lim
           queue lease_seconds (idle w)))"

section \<open>The contracts on the shared session\<close>

interpretation durable_backend_part: part dw_backend "\<lambda>b w. w\<lparr>dw_backend := b\<rparr>"
  by unfold_locales simp_all

interpretation durable_session_part: part dw_session dw_put_session
  by unfold_locales (simp_all add: dw_session_def dw_put_session_def)

lemma in_session_row:
  "in_session (on_task_row k r) b = (x, b1) \<Longrightarrow> \<exists>ts. sb_session b1 = (sb_session b)\<lparr>se_tasks := ts\<rparr>"
  by (auto simp: in_session_def on_task_row_def on_entry_def split: prod.splits option.splits)
    (metis sql_session.surjective sql_session.update_convs(1))

lemma sql_backend_writes:
  assumes "m \<in> backend_writes (sql_ops now)" "m b = (res, b')"
  shows "\<exists>ts. sb_session b' = (sb_session b)\<lparr>se_tasks := ts\<rparr>"
proof -
  obtain tid w tok e where "m = sql_mark_running now tid w tok \<or> m = sql_complete_task now tid w tok \<or> m = sql_fail now tid w tok e"
    using assms(1) by (auto simp: backend_writes_def sql_ops_def)
  then consider "m = sql_mark_running now tid w tok" | "m = sql_complete_task now tid w tok" | "m = sql_fail now tid w tok e"
    by blast
  then show ?thesis
  proof cases
    case 3
    obtain r b1 where f: "in_session (on_task_row tid (row_fail now w tok e)) b = (r, b1)" by fastforce
    then have "sb_session b' = sb_session b1"
      using 3 assms(2) by (cases r) (auto simp: sql_fail_def bnd_def upd_def ret_def split: if_splits)
    with in_session_row [OF f] show ?thesis by simp
  qed (use assms(2) in_session_row in \<open>simp_all add: sql_mark_running_def sql_complete_task_def\<close>)
qed

lemma sql_store_writes:
  assumes "m \<in> store_writes (sql_store_ops now)" "m s = (res, s')"
  shows "se_tasks s' = se_tasks s" "se_next_task_id s' = se_next_task_id s"
  using assms
  by (auto simp: store_writes_def sql_complete_run_def sql_fail_run_def sql_timeout_run_def sql_complete_attempt_def
      sql_fail_attempt_def sql_timeout_attempt_def sql_create_attempt_def on_run_row_def on_attempt_row_def on_entry_def
      put_attempt_def seq_def bnd_def ret_def Let_def split: prod.splits option.splits sum.splits)

lemma durable_backend_writes:
  assumes "m \<in> backend_writes (durable_ops now)" "m w = (res, w')"
  shows "\<exists>ts. dw_session w' = (dw_session w)\<lparr>se_tasks := ts\<rparr>"
  using durable_backend_part.backend_writes_focus [OF assms [unfolded durable_ops_def]] sql_backend_writes
  by (fastforce simp: dw_session_def)

lemma durable_store_writes:
  assumes "m \<in> store_writes (durable_store_ops now)" "m w = (res, w')"
  shows "\<exists>s. w' = dw_put_session s w \<and> se_tasks s = se_tasks (dw_session w) \<and>
     se_next_task_id s = se_next_task_id (dw_session w)"
  using durable_session_part.store_writes_focus [OF assms [unfolded durable_store_ops_def]] sql_store_writes by blast

lemma run_tables_tasks [simp]:
  "wf_run_tables (s\<lparr>se_tasks := ts\<rparr>) = wf_run_tables s" "sql_run_of (s\<lparr>se_tasks := ts\<rparr>) = sql_run_of s"
  "sql_attempt_of (s\<lparr>se_tasks := ts\<rparr>) = sql_attempt_of s"
  by (simp_all add: wf_run_tables_def sql_run_of_def sql_attempt_of_def events_kept_def fun_eq_iff)

lemma backend_session_cong:
  assumes "se_tasks s = se_tasks (dw_session w)" "se_next_task_id s = se_next_task_id (dw_session w)"
  shows "wf_sql (dw_backend (dw_put_session s w)) = wf_sql (dw_backend w)"
    "sql_view (dw_backend (dw_put_session s w)) = sql_view (dw_backend w)"
  using assms by (simp_all add: wf_sql_def sql_view_def dw_put_session_def dw_session_def fun_eq_iff)

lemma durable_append_ok:
  assumes "wf_run_tables (dw_session w)" "sql_run_of (dw_session w) k = Some r"
  shows "\<exists>e' buf es. durable_append k a e w =
      (Inr e', (dw_put_session ((dw_session w)\<lparr>se_events := es\<rparr>) w)\<lparr>dw_buffer := buf\<rparr>) \<and>
     events_kept ((dw_session w)\<lparr>se_events := es\<rparr>)"
proof -
  obtain e' buf where a: "append_event k a e (dw_buffer w) = (e', buf)" by fastforce
  have g: "sql_get_run k (dw_session w) = (Inr r, dw_session w)"
    using sql_store.get_run_law [OF assms(1), of k] assms(2) by simp
  have "events_kept (dw_session w)" using assms(1) by (simp add: wf_run_tables_def)
  then obtain row where "event_append k (r_tenant_id r) (r_project_id r) (ev_type e') (Some (ev_payload e')) a
      (ev_framework e') (ev_visibility_level e') (dw_session w) =
      (Inr row, (dw_session w)\<lparr>se_events := se_events (dw_session w) @ [row]\<rparr>)"
    "events_kept ((dw_session w)\<lparr>se_events := se_events (dw_session w) @ [row]\<rparr>)"
    using event_append_ok by blast
  then show ?thesis
    using a g
    by (intro exI [of _ e'] exI [of _ buf] exI [of _ "se_events (dw_session w) @ [row]"])
      (simp add: durable_append_def focus_def dw_session_def dw_put_session_def seq_def bnd_def ret_def)
qed

interpretation durable_worker: worker "durable_ops now" "\<lambda>w. sql_view (dw_backend w)" "\<lambda>w. wf_sql (dw_backend w)"
    "durable_store_ops now" "\<lambda>w. sql_run_of (dw_session w)" "\<lambda>w. sql_attempt_of (dw_session w)"
    "\<lambda>w. wf_run_tables (dw_session w)" stored_payload durable_append
proof (intro worker.intro worker_axioms.intro)
  show "runtime_task_backend (durable_ops now) (\<lambda>w. sql_view (dw_backend w)) (\<lambda>w. wf_sql (dw_backend w))"
    unfolding durable_ops_def by (rule durable_backend_part.backend_contract) unfold_locales
  show "runtime_run_store (durable_store_ops now) (\<lambda>w. sql_run_of (dw_session w)) (\<lambda>w. sql_attempt_of (dw_session w))
      (\<lambda>w. wf_run_tables (dw_session w)) stored_payload"
    unfolding durable_store_ops_def by (rule durable_session_part.store_contract) unfold_locales
next
  fix m b res b'
  assume "m \<in> backend_writes (durable_ops now)" "wf_run_tables (dw_session b)" "m b = (res, b')"
  then show "wf_run_tables (dw_session b') \<and> sql_run_of (dw_session b') = sql_run_of (dw_session b) \<and>
      sql_attempt_of (dw_session b') = sql_attempt_of (dw_session b)"
    using durable_backend_writes by fastforce
next
  fix m b res b'
  assume "m \<in> store_writes (durable_store_ops now)" "wf_sql (dw_backend b)" "m b = (res, b')"
  then show "wf_sql (dw_backend b') \<and> sql_view (dw_backend b') = sql_view (dw_backend b)"
    using durable_store_writes backend_session_cong by metis
next
  fix b k r a e
  assume "wf_sql (dw_backend b)" and w: "wf_run_tables (dw_session b)" and r: "sql_run_of (dw_session b) k = Some r"
  moreover obtain e' buf es where a: "durable_append k a e b =
      (Inr e', (dw_put_session ((dw_session b)\<lparr>se_events := es\<rparr>) b)\<lparr>dw_buffer := buf\<rparr>)"
    "events_kept ((dw_session b)\<lparr>se_events := es\<rparr>)" using durable_append_ok [OF w r] by blast
  moreover let ?b = "(dw_put_session ((dw_session b)\<lparr>se_events := es\<rparr>) b)\<lparr>dw_buffer := buf\<rparr>"
  have "wf_sql (dw_backend ?b) = wf_sql (dw_backend b)" "sql_view (dw_backend ?b) = sql_view (dw_backend b)"
    using backend_session_cong [of "(dw_session b)\<lparr>se_events := es\<rparr>" b] by simp_all
  moreover have "wf_run_tables (dw_session ?b)" "sql_run_of (dw_session ?b) = sql_run_of (dw_session b)"
    "sql_attempt_of (dw_session ?b) = sql_attempt_of (dw_session b)"
    using w a(2) by (simp_all add: dw_session_def dw_put_session_def wf_run_tables_def sql_run_of_def sql_attempt_of_def fun_eq_iff)
  ultimately show "\<exists>e' b'. durable_append k a e b = (Inr e', b') \<and> wf_sql (dw_backend b') \<and>
      sql_view (dw_backend b') = sql_view (dw_backend b) \<and> wf_run_tables (dw_session b') \<and>
      sql_run_of (dw_session b') = sql_run_of (dw_session b) \<and> sql_attempt_of (dw_session b') = sql_attempt_of (dw_session b)"
    by blast
qed

section \<open>What an execution guarantees\<close>

definition row_held :: "string \<Rightarrow> task_snapshot \<Rightarrow> sql_backend \<Rightarrow> bool" where
  "row_held w sn b \<longleftrightarrow> wf_sql b \<and> (case dget (rows b) (sn_task_id sn) of
       None \<Rightarrow> False
     | Some t \<Rightarrow> tk_fencing_token t = sn_fencing_token sn \<and> tk_worker_id t = Some w \<and> tk_status t = Task_running)"

definition attempt_row_open :: "task_snapshot \<Rightarrow> int \<Rightarrow> sql_session \<Rightarrow> bool" where
  "attempt_row_open sn aid s \<longleftrightarrow> wf_run_tables s \<and>
     map_option rw_status (dget (se_runs s) (sn_run_id sn)) = Some Run_running \<and>
     map_option (\<lambda>a. (ra_status a, ra_run_id a)) (dget (se_attempts s) aid) = Some (Attempt_running, sn_run_id sn)"

definition row_retry_left :: "task_snapshot \<Rightarrow> sql_backend \<Rightarrow> bool" where
  "row_retry_left sn b \<longleftrightarrow> (case dget (rows b) (sn_task_id sn) of
       None \<Rightarrow> False | Some t \<Rightarrow> tk_attempt t + 1 < tk_max_attempts t)"

lemma seen_statuses:
  "map_option r_status (sql_run_of s k) = map_option rw_status (dget (se_runs s) k)"
  "map_option a_status (sql_attempt_of s k) = map_option ra_status (dget (se_attempts s) k)"
  "map_option v_status (sql_view b k) = map_option tk_status (dget (rows b) k)"
  by (simp_all add: sql_run_of_def sql_attempt_of_def sql_view_def option.map_comp comp_def attempt_from_model_def)

lemma attempt_row_open:
  "attempt_row_open sn aid (dw_session w) \<Longrightarrow> durable_worker.open_attempt (sn_run_id sn) aid w"
  by (auto simp: attempt_row_open_def durable_worker.open_attempt_def sql_run_of_def sql_attempt_of_def attempt_from_model_def)


text \<open>
  C3: A production worker that has lost its lease writes nothing any more: the execution raises, and the
  session is exactly as the agent's execution left it, whether the agent returned or raised.
\<close>

theorem durable_lost_lease:
  assumes "executes (durable_ops now) (durable_store_ops now) x lim q n s sn aid res s2"
    "wf_sql (dw_backend (xs_world s2))"
    "fst (sql_assert_can_complete (sn_task_id sn) (wx_worker_id x) (sn_fencing_token sn) (dw_backend (xs_world s2))) = Inl e"
  shows "\<exists>e' s'. execute_once (durable_ops now) (durable_store_ops now) x lim q n s = (Inl e', s') \<and>
     xs_world s' = xs_world s2 \<and> append (durable_ops now) x (sn_run_id sn) aid ev s2 = (Inl e, s2)"
proof -
  have "view_check (sn_task_id sn) (wx_worker_id x) (sn_fencing_token sn)
      (sql_view (dw_backend (xs_world s2)) (sn_task_id sn)) = Inl e"
    using assms(3) sql_queue.can_complete [OF assms(2), where tid = "sn_task_id sn" and w = "wx_worker_id x" and tok = "sn_fencing_token sn"]
    by (simp add: sql_ops_def)
  from durable_worker.execution_lost [OF assms(1,2) this] show ?thesis by blast
qed

section \<open>A concrete production worker\<close>

definition traced ::
  "'w task_backend_ops \<Rightarrow> 'w runtime_run_store_ops \<Rightarrow> ('w, 'a) worker_executor \<Rightarrow> nat option \<Rightarrow> string \<Rightarrow> int \<Rightarrow>
     'w exec_state \<Rightarrow> (task_snapshot \<times> int \<times> (exn + AgentResult) \<times> 'w exec_state) option" where
  "traced ops sops x lim q n s = (case op_lease ops q (wx_worker_id x) n (xs_world s) of
       (Inr (Some sn), w1) \<Rightarrow> (case begin_attempt ops sops x sn (s\<lparr>xs_world := w1\<rparr>) of
           (Inr att, s1) \<Rightarrow> (case run_agent ops sops x lim sn (a_attempt_id att) s1 of
               (res, s2) \<Rightarrow> Some (sn, a_attempt_id att, res, s2))
         | _ \<Rightarrow> None)
     | _ \<Rightarrow> None)"

lemma traced_executes:
  "traced ops sops x lim q n s = Some (sn, aid, res, s2) \<Longrightarrow> executes ops sops x lim q n s sn aid res s2"
  by (auto simp: traced_def executes_def split: prod.splits sum.splits option.splits)

definition durable_agent :: "(durable_world \<Rightarrow> durable_world) \<Rightarrow> (durable_world, unit) agent_adapter" where
  "durable_agent meanwhile = \<lparr>ad_framework = None, ad_load = (\<lambda>_ _ _. ret ()),
     ad_invoke = (\<lambda>_ d _ w. (Inr (new_result d), meanwhile w)), ad_stream = (\<lambda>_ _ _. ret []),
     ad_cancel = (\<lambda>_ _. ret ())\<rparr>"

definition demo_setting :: "(durable_world \<Rightarrow> durable_world) \<Rightarrow> unit durable_setting" where
  "demo_setting meanwhile = \<lparr>dr_worker_id = ''w1'', dr_adapters = [(''py'', durable_agent meanwhile)],
     dr_resolve = (\<lambda>_. ret \<lparr>sp_adapter = ''py'', sp_package_uri = [], sp_manifest = [], sp_runtime_config = [],
       sp_secrets = None, sp_metadata = None\<rparr>),
     dr_governance = (\<lambda>_ _ _. ret None), dr_str = (\<lambda>_. []), dr_class = (\<lambda>_. []), dr_clock = int, dr_uuid = []\<rparr>"

definition demo_session :: sql_session where
  "demo_session = sb_session (snd (sql_enqueue 0 (demo_job\<lparr>p_run_id := Some 1\<rparr>)
     ((empty_sql None)\<lparr>sb_session := snd (sql_create_run 0 1 1 7 70 None [(''q'', VInt 3)] None None None
        (sb_session (empty_sql None)))\<rparr>)))"

definition demo_durable :: "durable_world exec_state" where
  "demo_durable = idle \<lparr>dw_backend = \<lparr>sb_session = demo_session, sb_quota = None, sb_last_quota_error = None,
     sb_dead_letters = []\<rparr>, dw_buffer = init_buffer 1000 64000\<rparr>"

definition durable_trace :: "(durable_world \<Rightarrow> durable_world) \<Rightarrow>
    (task_snapshot \<times> int \<times> (exn + AgentResult) \<times> durable_world exec_state) option" where
  "durable_trace m = traced (durable_ops 5) (durable_store_ops 5) (build (demo_setting m) []) None ''default'' 30 demo_durable"

text \<open>Another session has leased the task to another worker.\<close>

definition stolen :: "durable_world \<Rightarrow> durable_world" where
  "stolen = snd \<circ> focus dw_session dw_put_session
     (on_task_row 1 (upd (\<lambda>t. t\<lparr>tk_worker_id := Some ''w2'', tk_fencing_token := tk_fencing_token t + 1\<rparr>)))"

lemma all_entries_code [code]:
  "all_entries P d \<longleftrightarrow> list_all (\<lambda>k. case dget d k of None \<Rightarrow> True | Some v \<Rightarrow> P k v) (dkeys d)"
proof
  show "list_all (\<lambda>k. case dget d k of None \<Rightarrow> True | Some v \<Rightarrow> P k v) (dkeys d)" if "all_entries P d"
    using that by (auto simp: list_all_iff dest: all_entriesD split: option.splits)
  assume a: "list_all (\<lambda>k. case dget d k of None \<Rightarrow> True | Some v \<Rightarrow> P k v) (dkeys d)"
  show "all_entries P d"
  proof (rule all_entriesI)
    fix k v
    assume v: "dget d k = Some v"
    then have "k \<in> set (dkeys d)" using dget_Some_in by force
    then show "P k v" using a v by (auto simp: list_all_iff)
  qed
qed

lemma wf_rows_code [code]:
  "wf_rows ts \<longleftrightarrow> distinct (dkeys ts) \<and> all_entries (\<lambda>k t. tk_id t = k) ts"
  by (simp add: wf_rows_def all_entries_def)

text \<open>What the witnesses need of the two executions, evaluated at once.\<close>

lemma demo_runs:
  "map_option (\<lambda>(sn, aid, res, s2). ((sn_task_id sn, sn_run_id sn, sn_fencing_token sn, aid, res),
       wf_sql (dw_backend (xs_world s2)) \<and> wf_run_tables (dw_session (xs_world s2)),
       map_option (\<lambda>t. (tk_fencing_token t, tk_worker_id t, tk_status t)) (dget (rows (dw_backend (xs_world s2))) 1),
       map_option rw_status (dget (se_runs (dw_session (xs_world s2))) 1),
       map_option (\<lambda>a. (ra_status a, ra_run_id a)) (dget (se_attempts (dw_session (xs_world s2))) 1))) (durable_trace id) =
     Some ((1, 1, 1, 1, Inr (new_result [(''q'', VInt 3)])), True, Some (1, Some ''w1'', Task_running), Some Run_running,
       Some (Attempt_running, 1))"
  "map_option (\<lambda>(sn, aid, res, s2). ((sn_task_id sn, sn_run_id sn, sn_fencing_token sn), wf_sql (dw_backend (xs_world s2)),
       fst (sql_assert_can_complete 1 ''w1'' 1 (dw_backend (xs_world s2))),
       map_option tk_worker_id (dget (rows (dw_backend (xs_world s2))) 1))) (durable_trace stolen) =
     Some ((1, 1, 1), True, Inl (StaleFencingTokenError 1), Some (Some ''w2''))"
  by code_simp+

lemma demo_build:
  "wx_replay_append (build (demo_setting m) []) = durable_append" "wx_worker_id (build (demo_setting m) []) = ''w1''"
  by (simp_all add: build_def demo_setting_def)


theorem durable_lost_lease_witness:
  "\<exists>e' s'. execute_once (durable_ops 5) (durable_store_ops 5) (build (demo_setting stolen) []) None ''default'' 30 demo_durable =
      (Inl e', s') \<and> map_option tk_worker_id (dget (rows (dw_backend (xs_world s'))) 1) = Some (Some ''w2'')"
proof -
  obtain sn aid res s2 where t: "durable_trace stolen = Some (sn, aid, res, s2)"
    "sn_task_id sn = 1" "sn_run_id sn = 1" "sn_fencing_token sn = 1" "wf_sql (dw_backend (xs_world s2))"
    "fst (sql_assert_can_complete 1 ''w1'' 1 (dw_backend (xs_world s2))) = Inl (StaleFencingTokenError 1)"
    "map_option tk_worker_id (dget (rows (dw_backend (xs_world s2))) 1) = Some (Some ''w2'')"
    using demo_runs(2) by auto
  note e = traced_executes [OF t(1) [unfolded durable_trace_def]]
  from durable_lost_lease [OF e t(5), of "StaleFencingTokenError 1" demo_event] t
  show ?thesis by (auto simp: demo_build)
qed

end
