(* ===== verification/Console_Tables.thy ===== *)
theory Console_Tables
  imports Prelude "HOL-Library.Char_ord" "HOL-Library.List_Lexorder"
begin

text \<open>
  The tables the Console identity service works on (\<open>domain/models.py\<close>), the constraints the
  database checks, and the unit of work of a database session: what a call adds or changes becomes
  permanent when its commit succeeds and is undone when the call raises. Sessions are made with
  \<open>autoflush=False\<close>, so the unique constraints are checked where the code flushes or commits.
  Columns that no modelled operation reads are left out; foreign keys are not enforced.
\<close>

section \<open>Rows\<close>

record OperatorRow =
  opr_id :: int
  opr_email :: string
  opr_name :: string
  opr_status :: string
  opr_last_login_at :: "datetime option"
  opr_created_at :: datetime
  opr_updated_at :: datetime
  opr_is_deleted :: bool
  opr_deleted_at :: "datetime option"

record CredentialRow =
  crd_operator_id :: int
  crd_password_hash :: string
  crd_password_changed_at :: "datetime option"
  crd_failed_login_count :: int
  crd_locked_until :: "datetime option"
  crd_updated_at :: datetime

record SessionRow =
  csn_id :: int
  csn_operator_id :: int
  csn_token_hash :: string
  csn_last_used_at :: datetime
  csn_expires_at :: datetime
  csn_revoked_at :: "datetime option"
  csn_revoke_reason :: "string option"
  csn_ip_address :: "string option"
  csn_user_agent :: "string option"
  csn_created_at :: datetime
  csn_updated_at :: datetime

record ScopeRow =
  scr_operator_id :: int
  scr_tenant_id :: "int option"
  scr_project_id :: "int option"
  scr_environment :: string
  scr_created_at :: datetime
  scr_is_deleted :: bool

record RoleRow =
  rol_id :: int
  rol_name :: string
  rol_status :: string
  rol_is_deleted :: bool

record PermissionRow =
  prm_id :: int
  prm_code :: string
  prm_resource :: string
  prm_action :: string
  prm_status :: string
  prm_is_deleted :: bool

record OperatorRoleRow =
  orr_operator_id :: int
  orr_role_id :: int
  orr_is_deleted :: bool

record RolePermissionRow =
  rpr_role_id :: int
  rpr_permission_id :: int
  rpr_is_deleted :: bool

record OperatorPermissionRow =
  opp_operator_id :: int
  opp_permission_id :: int
  opp_is_deleted :: bool

record TenantRow =
  tnr_id :: int
  tnr_name :: string
  tnr_slug :: string

record ProjectRow =
  prr_id :: int
  prr_tenant_id :: int
  prr_name :: string
  prr_slug :: string

record EnvironmentRow =
  enr_tenant_id :: int
  enr_project_id :: int
  enr_name :: string
  enr_environment :: string

text \<open>
  The rows of each table in the order of their primary keys, and the next key of the tables whose
  key the code reads.
\<close>

record identity_db =
  db_operators :: "OperatorRow list"
  db_credentials :: "CredentialRow list"
  db_sessions :: "SessionRow list"
  db_scopes :: "ScopeRow list"
  db_roles :: "RoleRow list"
  db_permissions :: "PermissionRow list"
  db_operator_roles :: "OperatorRoleRow list"
  db_role_permissions :: "RolePermissionRow list"
  db_operator_permissions :: "OperatorPermissionRow list"
  db_tenants :: "TenantRow list"
  db_projects :: "ProjectRow list"
  db_environments :: "EnvironmentRow list"
  db_next_operator :: int
  db_next_session :: int
  db_next_role :: int
  db_next_permission :: int
  db_next_tenant :: int
  db_next_project :: int

definition empty_identity_db :: identity_db where
  "empty_identity_db =
     \<lparr>db_operators = [], db_credentials = [], db_sessions = [], db_scopes = [], db_roles = [],
      db_permissions = [], db_operator_roles = [], db_role_permissions = [],
      db_operator_permissions = [], db_tenants = [], db_projects = [], db_environments = [],
      db_next_operator = 1, db_next_session = 1, db_next_role = 1, db_next_permission = 1,
      db_next_tenant = 1, db_next_project = 1\<rparr>"

section \<open>Constraints\<close>

text \<open>
  The primary keys the code reads and the \<open>UniqueConstraint\<close>s of the tables. Two scopes of an operator collide only when neither has a
  null tenant or project: nulls are distinct in a unique index.
\<close>

definition scope_unique_key :: "ScopeRow \<Rightarrow> (int \<times> int \<times> int \<times> string) option" where
  "scope_unique_key r = (case (scr_tenant_id r, scr_project_id r) of
       (Some t, Some p) \<Rightarrow> Some (scr_operator_id r, t, p, scr_environment r)
     | _ \<Rightarrow> None)"

definition unique_accounts :: "identity_db \<Rightarrow> bool" where
  "unique_accounts db \<longleftrightarrow>
     distinct (map opr_id (db_operators db)) \<and> distinct (map csn_id (db_sessions db)) \<and>
     distinct (map opr_email (db_operators db)) \<and>
     distinct (map crd_operator_id (db_credentials db)) \<and>
     distinct (map csn_token_hash (db_sessions db))"

definition unique_grants :: "identity_db \<Rightarrow> bool" where
  "unique_grants db \<longleftrightarrow>
     distinct (map rol_id (db_roles db)) \<and> distinct (map prm_id (db_permissions db)) \<and>
     distinct (map the (filter (\<lambda>k. k \<noteq> None) (map scope_unique_key (db_scopes db)))) \<and>
     distinct (map rol_name (db_roles db)) \<and>
     distinct (map prm_code (db_permissions db)) \<and>
     distinct (map (\<lambda>r. (orr_operator_id r, orr_role_id r)) (db_operator_roles db)) \<and>
     distinct (map (\<lambda>r. (rpr_role_id r, rpr_permission_id r)) (db_role_permissions db)) \<and>
     distinct (map (\<lambda>r. (opp_operator_id r, opp_permission_id r)) (db_operator_permissions db))"

definition unique_resources :: "identity_db \<Rightarrow> bool" where
  "unique_resources db \<longleftrightarrow>
     distinct (map tnr_id (db_tenants db)) \<and> distinct (map prr_id (db_projects db)) \<and>
     distinct (map tnr_slug (db_tenants db)) \<and>
     distinct (map (\<lambda>r. (prr_tenant_id r, prr_slug r)) (db_projects db)) \<and>
     distinct (map (\<lambda>r. (enr_tenant_id r, enr_project_id r, enr_environment r)) (db_environments db))"

definition constraints :: "identity_db \<Rightarrow> bool" where
  "constraints db \<longleftrightarrow> unique_accounts db \<and> unique_grants db \<and> unique_resources db"

section \<open>The unit of work\<close>

text \<open>The database and the session cache the service is built on.\<close>

record 'c identity =
  ident_db :: identity_db
  ident_cache :: 'c

definition db_upd :: "(identity_db \<Rightarrow> identity_db) \<Rightarrow> ('c identity, unit) eff" where
  [eff_simps]: "db_upd f = upd (\<lambda>s. s\<lparr>ident_db := f (ident_db s)\<rparr>)"

definition db_gets :: "(identity_db \<Rightarrow> 'a) \<Rightarrow> ('c identity, 'a) eff" where
  [eff_simps]: "db_gets f = gets (\<lambda>s. f (ident_db s))"

definition cache_do :: "('c, 'a) eff \<Rightarrow> ('c identity, 'a) eff" where
  "cache_do m = (\<lambda>s. case m (ident_cache s) of (r, c) \<Rightarrow> (r, s\<lparr>ident_cache := c\<rparr>))"

text \<open>\<open>session.flush()\<close> and \<open>session.commit()\<close>\<close>

definition flush :: "('c identity, unit) eff" where
  [eff_simps]: "flush = guard (\<lambda>s. constraints (ident_db s)) IntegrityError"

definition commit :: "('c identity, unit) eff" where
  [eff_simps]: "commit = flush"

text \<open>\<open>with self._session_factory() as session\<close>: an exception closes the session and rolls it back.\<close>

definition transaction :: "('c identity, 'a) eff \<Rightarrow> ('c identity, 'a) eff" where
  "transaction m = (\<lambda>s. case m s of
       (Inl e, s') \<Rightarrow> (Inl e, s'\<lparr>ident_db := ident_db s\<rparr>)
     | (Inr x, s') \<Rightarrow> (Inr x, s'))"

text \<open>A property of the database that every step of a transaction keeps is kept by the whole of it.\<close>

lemma keeps_transaction:
  assumes "keeps (\<lambda>s. P (ident_db s)) m"
  shows "keeps (\<lambda>s. P (ident_db s)) (transaction m)"
  using assms by (auto simp: keeps_def transaction_def split: prod.splits sum.splits)

lemma keeps_cache_do: "keeps (\<lambda>s. P (ident_db s)) (cache_do m)"
  by (auto simp: keeps_def cache_do_def split: prod.splits)

lemma keeps_flush: "keeps P flush" "keeps P commit"
  by (simp_all add: commit_def flush_def keeps_basic)

lemma keeps_db_gets: "keeps P (db_gets f)"
  by (simp add: db_gets_def keeps_basic)

lemma keeps_db_upd: "(\<And>db. P db \<Longrightarrow> P (f db)) \<Longrightarrow> keeps (\<lambda>s. P (ident_db s)) (db_upd f)"
  by (simp add: keeps_def eff_simps)

lemma keeps_snd: "keeps P m \<Longrightarrow> P s \<Longrightarrow> P (snd (m s))"
  by (simp add: keeps_def)

lemmas keeps_unit_of_work = keeps_basic keeps_flush keeps_db_gets keeps_cache_do

end
