(* ===== verification/Console_Identity.thy ===== *)
theory Console_Identity
  imports Console_Tables
begin

text \<open>
  \<open>identity/console.py\<close>: operators of the Console, their passwords, sessions, roles, permissions and
  scopes. Every public method of \<open>ConsoleIdentityService\<close> is an operation on the database and the
  session cache; \<open>MemorySessionCache\<close> is the cache modelled here, and the service takes any cache
  through the record of the \<open>SessionCache\<close> protocol.

  The key derivation and the token hash are parameters of the environment record, with the values
  the service reads from environment variables. What a call draws from the clock and from the random
  source comes with the call: the rows one transaction writes carry one clock reading.
\<close>

section \<open>Environment, draws and results\<close>

record identity_env =
  ie_bootstrap_email :: string
  ie_bootstrap_password :: string
  ie_bootstrap_name :: string
  ie_tenant_slug :: string
  ie_tenant_name :: string
  ie_project_slug :: string
  ie_project_name :: string
  ie_environment :: string
  ie_session_ttl_seconds :: int
  ie_sha256 :: "string \<Rightarrow> string"
  ie_pbkdf2 :: "string \<Rightarrow> string \<Rightarrow> int \<Rightarrow> string" \<comment> \<open>password, salt, iterations: hex digest\<close>

record draw =
  dr_boot_now :: datetime
  dr_boot_salt :: string
  dr_now :: datetime
  dr_salt :: string
  dr_token :: string

record ConsoleOperator =
  co_id :: int
  co_email :: string
  co_name :: string
  co_roles :: "string list"
  co_permissions :: "string set"
  co_allowed_scopes :: "pydict list"
  co_status :: string
  co_created_at :: datetime
  co_updated_at :: datetime
  co_last_login_at :: "datetime option"
  co_password_changed_at :: "datetime option"

record ConsoleSession =
  cn_token :: string
  cn_operator_id :: int
  cn_created_at :: datetime
  cn_last_used_at :: datetime
  cn_expires_at :: datetime

record ConsoleOperatorSessionRecord =
  sr_id :: int
  sr_operator_id :: int
  sr_status :: string
  sr_last_used_at :: datetime
  sr_expires_at :: datetime
  sr_created_at :: datetime
  sr_updated_at :: datetime
  sr_revoked_at :: "datetime option"
  sr_revoke_reason :: "string option"
  sr_ip_address :: "string option"
  sr_user_agent :: "string option"

section \<open>The session cache\<close>

text \<open>
  The payload kept under a token hash. The session row is not flushed when a login stores its
  payload, so the payload of a login has no session id.
\<close>

record session_payload =
  sp_session_id :: "int option"
  sp_operator_id :: int
  sp_roles :: "string list"
  sp_permissions :: "string set"
  sp_allowed_scopes :: "pydict list"
  sp_expires_at :: datetime

record 'c SessionCache =
  ca_get :: "datetime \<Rightarrow> string \<Rightarrow> ('c, session_payload option) eff"
  ca_set :: "datetime \<Rightarrow> string \<Rightarrow> session_payload \<Rightarrow> int \<Rightarrow> ('c, unit) eff"
  ca_delete :: "string \<Rightarrow> ('c, unit) eff"
  ca_clear :: "('c, unit) eff"

type_synonym memory_cache = "(string \<times> session_payload \<times> datetime) list"

definition cache_get :: "datetime \<Rightarrow> string \<Rightarrow> (memory_cache, session_payload option) eff" where
  "cache_get now token_hash = (\<lambda>items. case dget items token_hash of
       None \<Rightarrow> (Inr None, items)
     | Some (payload, expires_at) \<Rightarrow>
         if expires_at \<le> now then (Inr None, ddel items token_hash)
         else (Inr (Some payload), items))"

definition cache_set ::
  "datetime \<Rightarrow> string \<Rightarrow> session_payload \<Rightarrow> int \<Rightarrow> (memory_cache, unit) eff" where
  "cache_set now token_hash payload ttl_seconds =
     upd (\<lambda>items. dset items token_hash (payload, now + seconds ttl_seconds))"

definition cache_delete :: "string \<Rightarrow> (memory_cache, unit) eff" where
  "cache_delete token_hash = upd (\<lambda>items. ddel items token_hash)"

definition cache_clear :: "(memory_cache, unit) eff" where
  "cache_clear = upd (\<lambda>_. [])"

definition MemorySessionCache :: "memory_cache SessionCache" where
  "MemorySessionCache =
     \<lparr>ca_get = cache_get, ca_set = cache_set, ca_delete = cache_delete, ca_clear = cache_clear\<rparr>"

section \<open>Passwords and tokens\<close>

text \<open>\<open>text.split(sep, n)\<close>\<close>

fun split_max :: "char \<Rightarrow> nat \<Rightarrow> string \<Rightarrow> string list" where
  "split_max sep 0 s = [s]"
| "split_max sep (Suc n) s = (case dropWhile (\<lambda>c. c \<noteq> sep) s of
       [] \<Rightarrow> [s]
     | _ # rest \<Rightarrow> takeWhile (\<lambda>c. c \<noteq> sep) s # split_max sep n rest)"

definition hash_password :: "identity_env \<Rightarrow> string \<Rightarrow> string \<Rightarrow> string" where
  "hash_password env salt password =
     (let iterations = 240000
      in ''pbkdf2_sha256$'' @ dec_int iterations @ ''$'' @ salt @ ''$'' @
         ie_pbkdf2 env password salt iterations)"

text \<open>Evaluation of the encoding with binary integers.\<close>

lemma hash_password_code [code]:
  "hash_password env salt password =
     ''pbkdf2_sha256$240000$'' @ salt @ ''$'' @ ie_pbkdf2 env password salt 240000"
proof -
  have "char_of (50 :: nat) = CHR ''2'' \<and> char_of (52 :: nat) = CHR ''4'' \<and> char_of (48 :: nat) = CHR ''0''"
    by code_simp
  then show ?thesis by (simp add: hash_password_def Let_def dec_int_def dec_nat.simps digit_char_def)
qed

fun undec_int :: "int \<Rightarrow> string \<Rightarrow> int" where
  "undec_int acc [] = acc"
| "undec_int acc (c # cs) = undec_int (acc * 10 + int (digit_val c)) cs"

lemma undec_int: "undec_int (int acc) cs = int (undec acc cs)"
proof (induction cs arbitrary: acc)
  case (Cons c cs)
  have "int acc * 10 + int (digit_val c) = int (acc * 10 + digit_val c)" by simp
  then show ?case using Cons [of "acc * 10 + digit_val c"] by (metis undec.simps(2) undec_int.simps(2))
qed simp

definition parse_digits :: "string \<Rightarrow> int option" where
  "parse_digits s = (if digits_ok s then Some (undec_int 0 (filter (\<lambda>c. c \<noteq> CHR ''_'') s)) else None)"

lemma parse_digits: "map_option int (parse_nat s) = parse_digits s"
  using undec_int [of 0] by (simp add: parse_nat_def parse_digits_def)

lemma parse_int_code [code]:
  "parse_int s = (case strip s of
       [] \<Rightarrow> None
     | c # cs \<Rightarrow> if c = CHR ''-'' then map_option uminus (parse_digits cs)
                else if c = CHR ''+'' then parse_digits cs
                else parse_digits (c # cs))"
  by (simp add: parse_int_def parse_digits [symmetric] option.map_comp comp_def split: list.splits)

text \<open>A count of iterations below one makes the key derivation raise the caught \<open>ValueError\<close>.\<close>

definition verify_password :: "identity_env \<Rightarrow> string \<Rightarrow> string \<Rightarrow> bool" where
  "verify_password env password encoded = (case split_max (CHR ''$'') 3 encoded of
       [algorithm, iterations_text, salt, expected] \<Rightarrow>
         algorithm = ''pbkdf2_sha256'' \<and>
         (case parse_int iterations_text of
            None \<Rightarrow> False
          | Some iterations \<Rightarrow> 1 \<le> iterations \<and> ie_pbkdf2 env password salt iterations = expected)
     | _ \<Rightarrow> False)"

definition hash_token :: "identity_env \<Rightarrow> string \<Rightarrow> string" where
  "hash_token env token = ie_sha256 env token"

definition permission_parts :: "string \<Rightarrow> string \<times> string" where
  "permission_parts code =
     (if code = ''*'' then (''*'', ''*'')
      else if CHR '':'' \<in> set code
        then (rev (tl (dropWhile (\<lambda>c. c \<noteq> CHR '':'') (rev code))),
              rev (takeWhile (\<lambda>c. c \<noteq> CHR '':'') (rev code)))
      else (code, ''use''))"

section \<open>Look-ups and row updates\<close>

definition operator_by_email :: "identity_db \<Rightarrow> string \<Rightarrow> OperatorRow option" where
  "operator_by_email db email =
     find (\<lambda>u. opr_email u = email \<and> \<not> opr_is_deleted u) (db_operators db)"

definition operator_by_id :: "identity_db \<Rightarrow> int \<Rightarrow> OperatorRow option" where
  "operator_by_id db operator_id = find (\<lambda>u. opr_id u = operator_id) (db_operators db)"

definition credential_of :: "identity_db \<Rightarrow> int \<Rightarrow> CredentialRow option" where
  "credential_of db operator_id = find (\<lambda>c. crd_operator_id c = operator_id) (db_credentials db)"

definition session_by_hash :: "identity_db \<Rightarrow> string \<Rightarrow> SessionRow option" where
  "session_by_hash db token_hash = find (\<lambda>r. csn_token_hash r = token_hash) (db_sessions db)"

definition tenant_by_id :: "identity_db \<Rightarrow> int \<Rightarrow> TenantRow option" where
  "tenant_by_id db i = find (\<lambda>t. tnr_id t = i) (db_tenants db)"

definition project_by_id :: "identity_db \<Rightarrow> int \<Rightarrow> ProjectRow option" where
  "project_by_id db i = find (\<lambda>p. prr_id p = i) (db_projects db)"

definition set_operator :: "int \<Rightarrow> (OperatorRow \<Rightarrow> OperatorRow) \<Rightarrow> identity_db \<Rightarrow> identity_db" where
  "set_operator i f db = db\<lparr>db_operators := map (\<lambda>u. if opr_id u = i then f u else u) (db_operators db)\<rparr>"

definition set_credential :: "int \<Rightarrow> (CredentialRow \<Rightarrow> CredentialRow) \<Rightarrow> identity_db \<Rightarrow> identity_db" where
  "set_credential i f db =
     db\<lparr>db_credentials := map (\<lambda>c. if crd_operator_id c = i then f c else c) (db_credentials db)\<rparr>"

definition set_session :: "int \<Rightarrow> (SessionRow \<Rightarrow> SessionRow) \<Rightarrow> identity_db \<Rightarrow> identity_db" where
  "set_session i f db = db\<lparr>db_sessions := map (\<lambda>r. if csn_id r = i then f r else r) (db_sessions db)\<rparr>"

section \<open>Scopes\<close>

text \<open>\<open>str(scope.get(key) or "*")\<close>\<close>

definition scope_text :: "pydict \<Rightarrow> string \<Rightarrow> string" where
  "scope_text scope key = (case dget scope key of
       None \<Rightarrow> ''*''
     | Some v \<Rightarrow> if truthy v then str_item v else ''*'')"

definition scope_dict :: "string \<Rightarrow> string \<Rightarrow> string \<Rightarrow> pydict" where
  "scope_dict tenant project environment =
     [(''tenant_id'', VStr tenant), (''project_id'', VStr project), (''environment'', VStr environment)]"

definition scope_selector_to_id :: "string \<Rightarrow> exn + int option" where
  "scope_selector_to_id text =
     (if text = ''*'' then Inr None
      else case parse_int text of None \<Rightarrow> Inl (ValueError ''int'') | Some i \<Rightarrow> Inr (Some i))"

definition normalize_scope :: "identity_db \<Rightarrow> pydict \<Rightarrow> exn + pydict" where
  "normalize_scope db scope =
     (let tenant_value = scope_text scope ''tenant_id'';
          project_value = scope_text scope ''project_id'';
          environment_value = scope_text scope ''environment''
      in if tenant_value = ''*'' then Inr (scope_dict ''*'' project_value environment_value)
         else case parse_int tenant_value of
           None \<Rightarrow> Inl (ValueError ''int'')
         | Some tid \<Rightarrow> (case tenant_by_id db tid of
             None \<Rightarrow> Inl (ValueError ''scope_tenant_not_found'')
           | Some tenant \<Rightarrow>
               if project_value = ''*''
               then Inr (scope_dict (dec_int (tnr_id tenant)) ''*'' environment_value)
               else case parse_int project_value of
                 None \<Rightarrow> Inl (ValueError ''int'')
               | Some pid \<Rightarrow> (case project_by_id db pid of
                   None \<Rightarrow> Inl (ValueError ''scope_project_not_found'')
                 | Some project \<Rightarrow>
                     Inr (scope_dict (dec_int (tnr_id tenant)) (dec_int (prr_id project))
                            environment_value))))"

text \<open>The row \<open>_add_operator_scope\<close> builds from a scope.\<close>

definition scope_row :: "datetime \<Rightarrow> int \<Rightarrow> pydict \<Rightarrow> exn + ScopeRow" where
  "scope_row now operator_id scope =
     (case scope_selector_to_id (scope_text scope ''tenant_id'') of
        Inl e \<Rightarrow> Inl e
      | Inr tenant \<Rightarrow> (case scope_selector_to_id (scope_text scope ''project_id'') of
          Inl e \<Rightarrow> Inl e
        | Inr project \<Rightarrow>
            Inr \<lparr>scr_operator_id = operator_id, scr_tenant_id = tenant, scr_project_id = project,
                 scr_environment = scope_text scope ''environment'', scr_created_at = now,
                 scr_is_deleted = False\<rparr>))"

definition lift_exn :: "exn + 'a \<Rightarrow> ('s, 'a) eff" where
  [eff_simps]: "lift_exn r = (\<lambda>s. (r, s))"

definition add_operator_scope :: "datetime \<Rightarrow> int \<Rightarrow> pydict \<Rightarrow> ('c identity, unit) eff" where
  "add_operator_scope now operator_id scope =
     bnd (lift_exn (scope_row now operator_id scope)) (\<lambda>row.
       db_upd (\<lambda>db. db\<lparr>db_scopes := db_scopes db @ [row]\<rparr>))"

text \<open>
  The rows of an operator are deleted at once; \<open>pending\<close> are rows the session already holds and has
  not sent to the database, which the deletion does not reach and the flush inserts first.
\<close>

definition rewrite_operator_scopes ::
  "ScopeRow list \<Rightarrow> datetime \<Rightarrow> int \<Rightarrow> pydict list \<Rightarrow> ('c identity, unit) eff" where
  "rewrite_operator_scopes pending now operator_id scopes =
     seq (db_upd (\<lambda>db. db\<lparr>db_scopes :=
                            filter (\<lambda>r. scr_operator_id r \<noteq> operator_id) (db_scopes db) @ pending\<rparr>))
         (each (\<lambda>scope. bnd (db_gets (\<lambda>db. normalize_scope db scope)) (\<lambda>n.
                   bnd (lift_exn n) (add_operator_scope now operator_id)))
               scopes)"

definition replace_operator_scopes :: "datetime \<Rightarrow> int \<Rightarrow> pydict list \<Rightarrow> ('c identity, unit) eff" where
  "replace_operator_scopes = rewrite_operator_scopes []"

definition operator_scope_rows :: "identity_db \<Rightarrow> int \<Rightarrow> ScopeRow list" where
  "operator_scope_rows db operator_id =
     sort_key scr_created_at
       (filter (\<lambda>r. scr_operator_id r = operator_id \<and> \<not> scr_is_deleted r) (db_scopes db))"

definition star_or :: "int option \<Rightarrow> string" where
  "star_or x = (case x of None \<Rightarrow> ''*'' | Some i \<Rightarrow> dec_int i)"

definition operator_scope_records :: "identity_db \<Rightarrow> int \<Rightarrow> pydict list" where
  "operator_scope_records db operator_id =
     map (\<lambda>r. scope_dict (star_or (scr_tenant_id r)) (star_or (scr_project_id r)) (scr_environment r))
         (operator_scope_rows db operator_id)"

text \<open>
  The scopes \<open>_canonicalize_operator_scopes\<close> keeps: normalised, the invalid ones and the repeated
  ones dropped.
\<close>

fun normalized_scopes :: "identity_db \<Rightarrow> pydict list \<Rightarrow> pydict list \<Rightarrow> pydict list" where
  "normalized_scopes db seen [] = []"
| "normalized_scopes db seen (scope # scopes) = (case normalize_scope db scope of
       Inl _ \<Rightarrow> normalized_scopes db seen scopes
     | Inr n \<Rightarrow> if n \<in> set seen then normalized_scopes db seen scopes
               else n # normalized_scopes db (n # seen) scopes)"

definition canonicalize_operator_scopes ::
  "ScopeRow list \<Rightarrow> datetime \<Rightarrow> int \<Rightarrow> ('c identity, unit) eff" where
  "canonicalize_operator_scopes pending now operator_id =
     bnd (db_gets (\<lambda>db. normalized_scopes db [] (operator_scope_records db operator_id)))
         (rewrite_operator_scopes pending now operator_id)"

definition operator_has_scope :: "identity_db \<Rightarrow> int \<Rightarrow> ScopeRow \<Rightarrow> bool" where
  "operator_has_scope db operator_id wanted \<longleftrightarrow>
     (\<exists>r \<in> set (db_scopes db). scr_operator_id r = operator_id \<and>
        scr_tenant_id r = scr_tenant_id wanted \<and> scr_project_id r = scr_project_id wanted \<and>
        scr_environment r = scr_environment wanted \<and> \<not> scr_is_deleted r)"

definition scope_value_matches :: "pyval option \<Rightarrow> string \<Rightarrow> bool" where
  "scope_value_matches scope_value requested \<longleftrightarrow>
     scope_value = Some (VStr ''*'') \<or> str_item (or_else scope_value VNone) = requested"

definition can_access_scope ::
  "identity_db \<Rightarrow> ConsoleOperator \<Rightarrow> int \<Rightarrow> int option \<Rightarrow> string option \<Rightarrow> bool" where
  "can_access_scope db operator tenant_id project_id environment =
     (let scopes = (if co_allowed_scopes operator = [] then operator_scope_records db (co_id operator)
                    else co_allowed_scopes operator)
      in list_ex (\<lambda>scope.
           scope_value_matches (dget scope ''tenant_id'') (dec_int tenant_id) \<and>
           (case project_id of None \<Rightarrow> True
            | Some p \<Rightarrow> scope_value_matches (dget scope ''project_id'') (dec_int p)) \<and>
           (case environment of None \<Rightarrow> True
            | Some e \<Rightarrow> scope_value_matches (dget scope ''environment'') e))
         scopes)"

section \<open>Roles and permissions\<close>

definition ensure_role :: "string \<Rightarrow> ('c identity, RoleRow) eff" where
  "ensure_role role_name =
     bnd (db_gets (\<lambda>db. find (\<lambda>r. rol_name r = role_name) (db_roles db))) (\<lambda>found.
       case found of
         Some role \<Rightarrow> ret role
       | None \<Rightarrow>
           bnd (db_gets (\<lambda>db. \<lparr>rol_id = db_next_role db, rol_name = role_name,
                               rol_status = ''active'', rol_is_deleted = False\<rparr>)) (\<lambda>role.
             seq (db_upd (\<lambda>db. db\<lparr>db_roles := db_roles db @ [role],
                                 db_next_role := db_next_role db + 1\<rparr>))
            (seq flush (ret role))))"

definition ensure_permission :: "string \<Rightarrow> ('c identity, PermissionRow) eff" where
  "ensure_permission code =
     bnd (db_gets (\<lambda>db. find (\<lambda>p. prm_code p = code) (db_permissions db))) (\<lambda>found.
       case found of
         Some permission \<Rightarrow> ret permission
       | None \<Rightarrow>
           bnd (db_gets (\<lambda>db. \<lparr>prm_id = db_next_permission db, prm_code = code,
                               prm_resource = fst (permission_parts code),
                               prm_action = snd (permission_parts code),
                               prm_status = ''active'', prm_is_deleted = False\<rparr>)) (\<lambda>permission.
             seq (db_upd (\<lambda>db. db\<lparr>db_permissions := db_permissions db @ [permission],
                                 db_next_permission := db_next_permission db + 1\<rparr>))
            (seq flush (ret permission))))"

definition add_role_permission :: "int \<Rightarrow> string \<Rightarrow> ('c identity, unit) eff" where
  "add_role_permission role_id code = bnd (ensure_permission code) (\<lambda>permission.
     db_upd (\<lambda>db. db\<lparr>db_role_permissions := db_role_permissions db @
       [\<lparr>rpr_role_id = role_id, rpr_permission_id = prm_id permission, rpr_is_deleted = False\<rparr>]\<rparr>))"

definition replace_role_permissions :: "int \<Rightarrow> string list \<Rightarrow> ('c identity, unit) eff" where
  "replace_role_permissions role_id codes =
     seq (db_upd (\<lambda>db. db\<lparr>db_role_permissions :=
                            filter (\<lambda>r. rpr_role_id r \<noteq> role_id) (db_role_permissions db)\<rparr>))
         (each (add_role_permission role_id) codes)"

definition builtin_roles :: "(string \<times> string list) list" where
  "builtin_roles =
     [(''platform_admin'', [''*'']),
      (''runtime_operator'', [''agent:read'', ''run:read'']),
      (''identity_admin'',
       [''admin:read'', ''identity:operator:write'', ''identity:role:write'',
        ''identity:permission:write'', ''identity:scope:write'',
        ''identity:service-account:write'', ''identity:api-key:write''])]"

definition seed_builtin_permissions :: "('c identity, unit) eff" where
  "seed_builtin_permissions =
     each (\<lambda>(role_name, codes). bnd (ensure_role role_name) (\<lambda>role.
             replace_role_permissions (rol_id role) codes))
          builtin_roles"

definition replace_operator_roles :: "int \<Rightarrow> string list \<Rightarrow> ('c identity, unit) eff" where
  "replace_operator_roles operator_id roles =
     seq (db_upd (\<lambda>db. db\<lparr>db_operator_roles :=
                            filter (\<lambda>r. orr_operator_id r \<noteq> operator_id) (db_operator_roles db)\<rparr>))
         (each (\<lambda>role_name. bnd (ensure_role role_name) (\<lambda>role.
             db_upd (\<lambda>db. db\<lparr>db_operator_roles := db_operator_roles db @
               [\<lparr>orr_operator_id = operator_id, orr_role_id = rol_id role, orr_is_deleted = False\<rparr>]\<rparr>)))
          roles)"

text \<open>The set of permissions comes as the list of its elements in the order they are iterated.\<close>

definition replace_operator_permissions :: "int \<Rightarrow> string list \<Rightarrow> ('c identity, unit) eff" where
  "replace_operator_permissions operator_id permissions =
     seq (db_upd (\<lambda>db. db\<lparr>db_operator_permissions :=
                            filter (\<lambda>r. opp_operator_id r \<noteq> operator_id) (db_operator_permissions db)\<rparr>))
         (each (\<lambda>code. bnd (ensure_permission code) (\<lambda>permission.
             db_upd (\<lambda>db. db\<lparr>db_operator_permissions := db_operator_permissions db @
               [\<lparr>opp_operator_id = operator_id, opp_permission_id = prm_id permission,
                 opp_is_deleted = False\<rparr>]\<rparr>)))
          permissions)"

definition operator_roles :: "identity_db \<Rightarrow> int \<Rightarrow> string list" where
  "operator_roles db operator_id =
     sort (concat (map (\<lambda>link. map rol_name
              (filter (\<lambda>r. rol_id r = orr_role_id link \<and> \<not> rol_is_deleted r \<and> rol_status r = ''active'')
                 (db_roles db)))
            (filter (\<lambda>link. orr_operator_id link = operator_id \<and> \<not> orr_is_deleted link)
               (db_operator_roles db))))"

definition active_codes :: "identity_db \<Rightarrow> int \<Rightarrow> string list" where
  "active_codes db permission_id =
     map prm_code (filter (\<lambda>p. prm_id p = permission_id \<and> \<not> prm_is_deleted p \<and> prm_status p = ''active'')
       (db_permissions db))"

definition direct_permissions :: "identity_db \<Rightarrow> int \<Rightarrow> string list" where
  "direct_permissions db operator_id =
     concat (map (\<lambda>link. active_codes db (opp_permission_id link))
       (filter (\<lambda>link. opp_operator_id link = operator_id \<and> \<not> opp_is_deleted link)
         (db_operator_permissions db)))"

definition operator_permissions :: "identity_db \<Rightarrow> int \<Rightarrow> string set" where
  "operator_permissions db operator_id =
     set (direct_permissions db operator_id) \<union>
     set (concat (map (\<lambda>link.
            concat (map (\<lambda>grant. active_codes db (rpr_permission_id grant))
              (filter (\<lambda>grant. rpr_role_id grant = orr_role_id link \<and> \<not> rpr_is_deleted grant)
                (db_role_permissions db))))
       (filter (\<lambda>link. orr_operator_id link = operator_id \<and> \<not> orr_is_deleted link)
         (db_operator_roles db))))"

section \<open>The operator as the Console sees it\<close>

definition environment_for_scope :: "identity_db \<Rightarrow> ScopeRow \<Rightarrow> EnvironmentRow option" where
  "environment_for_scope db scope =
     (case (scr_tenant_id scope, scr_project_id scope) of
        (Some t, Some p) \<Rightarrow>
          if scr_environment scope = ''*'' then None
          else find (\<lambda>e. enr_tenant_id e = t \<and> enr_project_id e = p \<and>
                        enr_environment e = scr_environment scope) (db_environments db)
      | _ \<Rightarrow> None)"

definition name_or_none :: "string option \<Rightarrow> pyval" where
  "name_or_none x = (case x of None \<Rightarrow> VNone | Some n \<Rightarrow> VStr n)"

definition hydrate_scope :: "identity_db \<Rightarrow> ScopeRow \<Rightarrow> pydict" where
  "hydrate_scope db scope =
     [(''tenant_id'', case scr_tenant_id scope of None \<Rightarrow> VStr ''*'' | Some t \<Rightarrow> VInt t),
      (''tenant_name'', case scr_tenant_id scope of
          None \<Rightarrow> VStr ''All tenants''
        | Some t \<Rightarrow> name_or_none (map_option tnr_name (tenant_by_id db t))),
      (''project_id'', case scr_project_id scope of None \<Rightarrow> VStr ''*'' | Some p \<Rightarrow> VInt p),
      (''project_name'', case scr_project_id scope of
          None \<Rightarrow> VStr ''All projects''
        | Some p \<Rightarrow> name_or_none (map_option prr_name (project_by_id db p))),
      (''environment'', VStr (scr_environment scope)),
      (''environment_name'',
         if scr_environment scope = ''*'' then VStr ''All environments''
         else VStr (case environment_for_scope db scope of
                      None \<Rightarrow> scr_environment scope | Some e \<Rightarrow> enr_name e))]"

definition hydrate_operator :: "identity_db \<Rightarrow> OperatorRow \<Rightarrow> ConsoleOperator" where
  "hydrate_operator db operator =
     \<lparr>co_id = opr_id operator, co_email = opr_email operator, co_name = opr_name operator,
      co_roles = operator_roles db (opr_id operator),
      co_permissions = operator_permissions db (opr_id operator),
      co_allowed_scopes = map (hydrate_scope db) (operator_scope_rows db (opr_id operator)),
      co_status = opr_status operator, co_created_at = opr_created_at operator,
      co_updated_at = opr_updated_at operator, co_last_login_at = opr_last_login_at operator,
      co_password_changed_at =
        (case credential_of db (opr_id operator) of
           None \<Rightarrow> None | Some c \<Rightarrow> crd_password_changed_at c)\<rparr>"

text \<open>\<open>return self._hydrate_operator(session, operator)\<close> for the operator of the session with this id\<close>

definition hydrated :: "int \<Rightarrow> ('c identity, ConsoleOperator option) eff" where
  [eff_simps]: "hydrated operator_id = db_gets (\<lambda>db.
     map_option (hydrate_operator db) (operator_by_id db operator_id))"

section \<open>Default resources and the bootstrap operator\<close>

definition ensure_tenant :: "identity_env \<Rightarrow> ('c identity, TenantRow) eff" where
  "ensure_tenant env =
     bnd (db_gets (\<lambda>db. find (\<lambda>t. tnr_slug t = ie_tenant_slug env) (db_tenants db))) (\<lambda>found.
       case found of
         Some tenant \<Rightarrow> ret tenant
       | None \<Rightarrow>
           bnd (db_gets (\<lambda>db. \<lparr>tnr_id = db_next_tenant db, tnr_name = ie_tenant_name env,
                               tnr_slug = ie_tenant_slug env\<rparr>)) (\<lambda>tenant.
             seq (db_upd (\<lambda>db. db\<lparr>db_tenants := db_tenants db @ [tenant],
                                 db_next_tenant := db_next_tenant db + 1\<rparr>))
            (seq flush (ret tenant))))"

definition ensure_project :: "identity_env \<Rightarrow> TenantRow \<Rightarrow> ('c identity, ProjectRow) eff" where
  "ensure_project env tenant =
     bnd (db_gets (\<lambda>db. find (\<lambda>p. prr_tenant_id p = tnr_id tenant \<and> prr_slug p = ie_project_slug env)
                          (db_projects db))) (\<lambda>found.
       case found of
         Some project \<Rightarrow> ret project
       | None \<Rightarrow>
           bnd (db_gets (\<lambda>db. \<lparr>prr_id = db_next_project db, prr_tenant_id = tnr_id tenant,
                               prr_name = ie_project_name env, prr_slug = ie_project_slug env\<rparr>)) (\<lambda>project.
             seq (db_upd (\<lambda>db. db\<lparr>db_projects := db_projects db @ [project],
                                 db_next_project := db_next_project db + 1\<rparr>))
            (seq flush (ret project))))"

definition ensure_environment :: "identity_env \<Rightarrow> TenantRow \<Rightarrow> ProjectRow \<Rightarrow> ('c identity, EnvironmentRow) eff" where
  "ensure_environment env tenant project =
     bnd (db_gets (\<lambda>db. find (\<lambda>e. enr_tenant_id e = tnr_id tenant \<and> enr_project_id e = prr_id project \<and>
                               enr_environment e = ie_environment env) (db_environments db))) (\<lambda>found.
       case found of
         Some environment \<Rightarrow> ret environment
       | None \<Rightarrow>
           (let environment = \<lparr>enr_tenant_id = tnr_id tenant, enr_project_id = prr_id project,
                               enr_name = ie_environment env, enr_environment = ie_environment env\<rparr>
            in seq (db_upd (\<lambda>db. db\<lparr>db_environments := db_environments db @ [environment]\<rparr>))
              (seq flush (ret environment))))"

definition default_operator_scope :: "identity_env \<Rightarrow> ('c identity, pydict) eff" where
  "default_operator_scope env =
     bnd (ensure_tenant env) (\<lambda>tenant.
     bnd (ensure_project env tenant) (\<lambda>project.
     bnd (ensure_environment env tenant project) (\<lambda>environment.
       ret (scope_dict (dec_int (tnr_id tenant)) (dec_int (prr_id project))
              (enr_environment environment)))))"

text \<open>A new operator with its credential; the flush between the two assigns the key.\<close>

definition insert_operator ::
  "identity_env \<Rightarrow> datetime \<Rightarrow> string \<Rightarrow> string \<Rightarrow> string \<Rightarrow> string \<Rightarrow> ('c identity, int) eff" where
  "insert_operator env now salt email name password =
     bnd (db_gets db_next_operator) (\<lambda>i.
       seq (db_upd (\<lambda>db. db\<lparr>db_operators := db_operators db @
              [\<lparr>opr_id = i, opr_email = email, opr_name = name, opr_status = ''active'',
                opr_last_login_at = None, opr_created_at = now, opr_updated_at = now,
                opr_is_deleted = False, opr_deleted_at = None\<rparr>],
              db_next_operator := i + 1\<rparr>))
      (seq flush
      (seq (db_upd (\<lambda>db. db\<lparr>db_credentials := db_credentials db @
              [\<lparr>crd_operator_id = i, crd_password_hash = hash_password env salt password,
                crd_password_changed_at = Some now, crd_failed_login_count = 0,
                crd_locked_until = None, crd_updated_at = now\<rparr>]\<rparr>))
           (ret i))))"

definition refresh_bootstrap_scopes :: "datetime \<Rightarrow> int \<Rightarrow> pydict \<Rightarrow> ('c identity, unit) eff" where
  "refresh_bootstrap_scopes now operator_id default_scope =
     bnd (lift_exn (scope_row now operator_id default_scope)) (\<lambda>row.
     bnd (db_gets (\<lambda>db. operator_has_scope db operator_id row)) (\<lambda>has.
       canonicalize_operator_scopes (if has then [] else [row]) now operator_id))"

text \<open>The bootstrap operator is refreshed when it is there and created with all rights otherwise.\<close>

definition settle_bootstrap ::
  "identity_env \<Rightarrow> datetime \<Rightarrow> string \<Rightarrow> pydict \<Rightarrow> ('c identity, ConsoleOperator option) eff" where
  "settle_bootstrap env now salt default_scope =
     bnd (db_gets (\<lambda>db. operator_by_email db (ie_bootstrap_email env))) (\<lambda>existing.
       case existing of
         Some operator \<Rightarrow>
           seq (refresh_bootstrap_scopes now (opr_id operator) default_scope)
          (seq commit (hydrated (opr_id operator)))
       | None \<Rightarrow>
           bnd (insert_operator env now salt (ie_bootstrap_email env) (ie_bootstrap_name env)
                  (ie_bootstrap_password env)) (\<lambda>operator_id.
           seq (replace_operator_roles operator_id [''platform_admin''])
          (seq (replace_operator_permissions operator_id [''*''])
          (seq (replace_operator_scopes now operator_id [default_scope])
          (seq commit (hydrated operator_id))))))"

definition ensure_bootstrap_operator ::
  "identity_env \<Rightarrow> datetime \<Rightarrow> string \<Rightarrow> ('c identity, ConsoleOperator option) eff" where
  "ensure_bootstrap_operator env now salt = transaction (
     seq seed_builtin_permissions
         (bnd (default_operator_scope env) (settle_bootstrap env now salt)))"

end
