(* ===== verification/Console_Service.thy ===== *)
theory Console_Service
  imports Console_Identity
begin

text \<open>
  The public methods of \<open>ConsoleIdentityService\<close> (\<open>identity/console.py\<close>): signing in, looking a
  session up, revoking sessions, and managing operators. \<open>serve\<close> runs one request, \<open>serve_all\<close> a
  sequence of them.
\<close>

section \<open>Sessions\<close>

definition session_is_active :: "datetime \<Rightarrow> SessionRow option \<Rightarrow> bool" where
  "session_is_active now row = (case row of
       None \<Rightarrow> False
     | Some r \<Rightarrow> csn_revoked_at r = None \<and> \<not> csn_expires_at r \<le> now)"

definition session_cache_payload ::
  "identity_db \<Rightarrow> int option \<Rightarrow> OperatorRow \<Rightarrow> datetime \<Rightarrow> session_payload" where
  "session_cache_payload db session_id operator expires_at =
     (let view = hydrate_operator db operator
      in \<lparr>sp_session_id = session_id, sp_operator_id = opr_id operator, sp_roles = co_roles view,
          sp_permissions = co_permissions view, sp_allowed_scopes = co_allowed_scopes view,
          sp_expires_at = expires_at\<rparr>)"

definition ttl_left :: "datetime \<Rightarrow> datetime \<Rightarrow> int" where
  "ttl_left expires_at now = max 1 ((expires_at - now) div 1000000)"

definition count_failure :: "datetime \<Rightarrow> CredentialRow \<Rightarrow> CredentialRow" where
  "count_failure now c =
     (let c' = c\<lparr>crd_failed_login_count := crd_failed_login_count c + 1, crd_updated_at := now\<rparr>
      in if crd_failed_login_count c' \<ge> 5 then c'\<lparr>crd_locked_until := Some (now + minutes 15)\<rparr> else c')"

definition locked :: "datetime \<Rightarrow> CredentialRow \<Rightarrow> bool" where
  "locked now c = (case crd_locked_until c of None \<Rightarrow> False | Some t \<Rightarrow> t > now)"

text \<open>The successful end of \<open>authenticate\<close>: the cache is written before the commit.\<close>

definition open_session ::
  "identity_env \<Rightarrow> 'c SessionCache \<Rightarrow> draw \<Rightarrow> OperatorRow \<Rightarrow> string option \<Rightarrow> string option \<Rightarrow>
     ('c identity, ConsoleSession option) eff" where
  "open_session env cache d operator ip_address user_agent =
     (let now = dr_now d; token = ''sess_'' @ dr_token d; token_hash = hash_token env token;
          expires_at = now + seconds (ie_session_ttl_seconds env)
      in seq (db_upd (set_credential (opr_id operator) (\<lambda>c.
               c\<lparr>crd_failed_login_count := 0, crd_locked_until := None, crd_updated_at := now\<rparr>)))
        (seq (db_upd (set_operator (opr_id operator) (\<lambda>u.
               u\<lparr>opr_last_login_at := Some now, opr_updated_at := now\<rparr>)))
        (seq (db_upd (\<lambda>db. db\<lparr>db_sessions := db_sessions db @
               [\<lparr>csn_id = db_next_session db, csn_operator_id = opr_id operator,
                 csn_token_hash = token_hash, csn_last_used_at = now, csn_expires_at = expires_at,
                 csn_revoked_at = None, csn_revoke_reason = None, csn_ip_address = ip_address,
                 csn_user_agent = user_agent, csn_created_at = now, csn_updated_at = now\<rparr>],
               db_next_session := db_next_session db + 1\<rparr>))
        (bnd (db_gets (\<lambda>db. session_cache_payload db None operator expires_at)) (\<lambda>payload.
         seq (cache_do (ca_set cache now token_hash payload (ttl_left expires_at now)))
        (seq commit
             (ret (Some \<lparr>cn_token = token, cn_operator_id = opr_id operator, cn_created_at = now,
                         cn_last_used_at = now, cn_expires_at = expires_at\<rparr>))))))))"

definition login ::
  "identity_env \<Rightarrow> 'c SessionCache \<Rightarrow> draw \<Rightarrow> string \<Rightarrow> string \<Rightarrow> string option \<Rightarrow> string option \<Rightarrow>
     ('c identity, ConsoleSession option) eff" where
  "login env cache d email password ip_address user_agent = transaction (
     bnd (db_gets (\<lambda>db. operator_by_email db email)) (\<lambda>found. case found of
       None \<Rightarrow> ret None
     | Some operator \<Rightarrow>
         if opr_status operator \<noteq> ''active'' \<or> opr_is_deleted operator then ret None
         else bnd (db_gets (\<lambda>db. credential_of db (opr_id operator))) (\<lambda>cred. case cred of
           None \<Rightarrow> ret None
         | Some credential \<Rightarrow>
             if locked (dr_now d) credential then ret None
             else if \<not> verify_password env password (crd_password_hash credential)
             then seq (db_upd (set_credential (opr_id operator) (count_failure (dr_now d))))
                 (seq commit (ret None))
             else open_session env cache d operator ip_address user_agent)))"

definition bootstrap :: "identity_env \<Rightarrow> draw \<Rightarrow> ('c identity, ConsoleOperator option) eff" where
  "bootstrap env d = ensure_bootstrap_operator env (dr_boot_now d) (dr_boot_salt d)"

definition authenticate ::
  "identity_env \<Rightarrow> 'c SessionCache \<Rightarrow> draw \<Rightarrow> string \<Rightarrow> string \<Rightarrow> string option \<Rightarrow> string option \<Rightarrow>
     ('c identity, ConsoleSession option) eff" where
  "authenticate env cache d email password ip_address user_agent =
     seq (bootstrap env d) (login env cache d email password ip_address user_agent)"

definition revoke_row :: "datetime \<Rightarrow> string \<Rightarrow> SessionRow \<Rightarrow> SessionRow" where
  "revoke_row now reason r =
     r\<lparr>csn_revoked_at := Some now, csn_revoke_reason := Some reason, csn_updated_at := now\<rparr>"

definition revoke_session ::
  "identity_env \<Rightarrow> 'c SessionCache \<Rightarrow> datetime \<Rightarrow> string \<Rightarrow> string \<Rightarrow> ('c identity, unit) eff" where
  "revoke_session env cache now token reason =
     (let token_hash = hash_token env token
      in seq (transaction (bnd (db_gets (\<lambda>db. session_by_hash db token_hash)) (\<lambda>row. case row of
                Some r \<Rightarrow> if csn_revoked_at r = None
                          then seq (db_upd (set_session (csn_id r) (revoke_row now reason))) commit
                          else ret ()
              | None \<Rightarrow> ret ())))
             (cache_do (ca_delete cache token_hash)))"

text \<open>The clock readings of a look-up, in the order they are taken.\<close>

record readings =
  rd_cache :: datetime
  rd_expiry :: datetime
  rd_active :: datetime
  rd_used :: datetime

definition usable :: "OperatorRow \<Rightarrow> bool" where
  "usable operator \<longleftrightarrow> opr_status operator = ''active'' \<and> \<not> opr_is_deleted operator"

definition forget :: "'c SessionCache \<Rightarrow> string \<Rightarrow> ('c identity, 'a option) eff" where
  "forget cache token_hash = seq (cache_do (ca_delete cache token_hash)) (ret None)"

definition touch_row :: "datetime \<Rightarrow> SessionRow \<Rightarrow> SessionRow" where
  "touch_row now r = r\<lparr>csn_last_used_at := now, csn_updated_at := now\<rparr>"

definition get_operator_by_session_from_db ::
  "'c SessionCache \<Rightarrow> readings \<Rightarrow> string \<Rightarrow> ('c identity, ConsoleOperator option) eff" where
  "get_operator_by_session_from_db cache rd token_hash = transaction (
     bnd (db_gets (\<lambda>db. session_by_hash db token_hash)) (\<lambda>row.
       if \<not> session_is_active (rd_active rd) row
       then (if row = None then ret None else forget cache token_hash)
       else bnd (db_gets (\<lambda>db. operator_by_id db (csn_operator_id (the row)))) (\<lambda>found. case found of
         None \<Rightarrow> forget cache token_hash
       | Some operator \<Rightarrow>
           if \<not> usable operator then forget cache token_hash
           else seq (db_upd (set_session (csn_id (the row)) (touch_row (rd_used rd))))
               (bnd (db_gets (\<lambda>db. session_cache_payload db (Some (csn_id (the row))) operator
                                     (csn_expires_at (the row)))) (\<lambda>payload.
                seq (cache_do (ca_set cache (rd_used rd) token_hash payload
                                 (ttl_left (csn_expires_at (the row)) (rd_used rd))))
               (seq commit (hydrated (opr_id operator))))))))"

definition get_operator_by_session ::
  "identity_env \<Rightarrow> 'c SessionCache \<Rightarrow> readings \<Rightarrow> string \<Rightarrow> ('c identity, ConsoleOperator option) eff" where
  "get_operator_by_session env cache rd token =
     (let token_hash = hash_token env token
      in bnd (cache_do (ca_get cache (rd_cache rd) token_hash)) (\<lambda>cached. case cached of
           None \<Rightarrow> get_operator_by_session_from_db cache rd token_hash
         | Some payload \<Rightarrow>
             if sp_expires_at payload \<le> rd_expiry rd
             then seq (revoke_session env cache (rd_active rd) token ''expired'') (ret None)
             else transaction (
               bnd (db_gets (\<lambda>db. session_by_hash db token_hash)) (\<lambda>row.
                 if \<not> session_is_active (rd_active rd) row then forget cache token_hash
                 else bnd (db_gets (\<lambda>db. operator_by_id db (sp_operator_id payload))) (\<lambda>found.
                   case found of
                     None \<Rightarrow> forget cache token_hash
                   | Some operator \<Rightarrow>
                       if \<not> usable operator then forget cache token_hash
                       else seq (db_upd (set_session (csn_id (the row)) (touch_row (rd_used rd))))
                           (seq commit (hydrated (opr_id operator))))))))"

text \<open>\<open>_revoke_operator_sessions\<close>\<close>

definition open_sessions :: "identity_db \<Rightarrow> int \<Rightarrow> SessionRow list" where
  "open_sessions db operator_id =
     filter (\<lambda>r. csn_operator_id r = operator_id \<and> csn_revoked_at r = None) (db_sessions db)"

definition end_session :: "'c SessionCache \<Rightarrow> datetime \<Rightarrow> string \<Rightarrow> SessionRow \<Rightarrow> ('c identity, unit) eff" where
  "end_session cache now reason r =
     seq (db_upd (set_session (csn_id r) (revoke_row now reason)))
         (cache_do (ca_delete cache (csn_token_hash r)))"

definition end_operator_sessions ::
  "'c SessionCache \<Rightarrow> datetime \<Rightarrow> int \<Rightarrow> string \<Rightarrow> ('c identity, unit) eff" where
  "end_operator_sessions cache now operator_id reason =
     bnd (db_gets (\<lambda>db. open_sessions db operator_id)) (each (end_session cache now reason))"

section \<open>Operators\<close>

definition list_operators :: "identity_env \<Rightarrow> draw \<Rightarrow> ('c identity, ConsoleOperator list) eff" where
  "list_operators env d = seq (bootstrap env d) (db_gets (\<lambda>db.
     map (hydrate_operator db)
       (sort_key opr_created_at (filter (\<lambda>u. \<not> opr_is_deleted u) (db_operators db)))))"

text \<open>\<open>xs or default\<close> on optional collections\<close>

definition or_list :: "'a list option \<Rightarrow> 'a list \<Rightarrow> 'a list" where
  "or_list xs d = (case xs of None \<Rightarrow> d | Some ys \<Rightarrow> if ys = [] then d else ys)"

definition create_operator ::
  "identity_env \<Rightarrow> draw \<Rightarrow> string \<Rightarrow> string \<Rightarrow> string \<Rightarrow> string list option \<Rightarrow> string list option \<Rightarrow>
     pydict list option \<Rightarrow> ('c identity, ConsoleOperator option) eff" where
  "create_operator env d email name password roles permissions allowed_scopes =
     seq (bootstrap env d) (transaction (
       bnd (db_gets (\<lambda>db. operator_by_email db email)) (\<lambda>found.
         if found \<noteq> None then raise (ValueError ''operator_email_exists'')
         else bnd (insert_operator env (dr_now d) (dr_salt d) email name password) (\<lambda>operator_id.
           seq (replace_operator_roles operator_id (or_list roles [''runtime_operator'']))
          (seq (replace_operator_permissions operator_id (or_list permissions [''agent:read'', ''run:read'']))
          (bnd (if or_list allowed_scopes [] = [] then bnd (default_operator_scope env) (\<lambda>sc. ret [sc])
                else ret (or_list allowed_scopes [])) (\<lambda>scopes.
           seq (replace_operator_scopes (dr_now d) operator_id scopes)
          (seq commit (hydrated operator_id)))))))))"

text \<open>Runs the continuation on a live operator; the others get the given answer.\<close>

definition with_operator ::
  "int \<Rightarrow> 'a \<Rightarrow> (OperatorRow \<Rightarrow> ('c identity, 'a) eff) \<Rightarrow> ('c identity, 'a) eff" where
  "with_operator operator_id missing k = bnd (db_gets (\<lambda>db. operator_by_id db operator_id)) (\<lambda>found.
     case found of
       None \<Rightarrow> ret missing
     | Some operator \<Rightarrow> if opr_is_deleted operator then ret missing else k operator)"

definition if_given :: "'a option \<Rightarrow> ('a \<Rightarrow> ('s, unit) eff) \<Rightarrow> ('s, unit) eff" where
  "if_given x f = (case x of None \<Rightarrow> ret () | Some v \<Rightarrow> f v)"

definition update_operator ::
  "identity_env \<Rightarrow> 'c SessionCache \<Rightarrow> draw \<Rightarrow> int \<Rightarrow> string option \<Rightarrow> string list option \<Rightarrow>
     string list option \<Rightarrow> pydict list option \<Rightarrow> string option \<Rightarrow>
     ('c identity, ConsoleOperator option) eff" where
  "update_operator env cache d operator_id name roles permissions allowed_scopes status =
     seq (bootstrap env d) (transaction (with_operator operator_id None (\<lambda>_.
       seq (if_given name (\<lambda>n. db_upd (set_operator operator_id (\<lambda>u. u\<lparr>opr_name := n\<rparr>))))
      (seq (if_given status (\<lambda>st.
              seq (db_upd (set_operator operator_id (\<lambda>u. u\<lparr>opr_status := st\<rparr>)))
                  (if st \<noteq> ''active''
                   then end_operator_sessions cache (dr_now d) operator_id ''operator_disabled''
                   else ret ())))
      (seq (if_given roles (replace_operator_roles operator_id))
      (seq (if_given permissions (replace_operator_permissions operator_id))
      (seq (if_given allowed_scopes (replace_operator_scopes (dr_now d) operator_id))
      (seq (db_upd (set_operator operator_id (\<lambda>u. u\<lparr>opr_updated_at := dr_now d\<rparr>)))
      (seq commit (hydrated operator_id))))))))))"

definition change_password ::
  "identity_env \<Rightarrow> 'c SessionCache \<Rightarrow> draw \<Rightarrow> int \<Rightarrow> string option \<Rightarrow> string \<Rightarrow> bool \<Rightarrow>
     ('c identity, bool) eff" where
  "change_password env cache d operator_id current_password new_password require_current =
     seq (bootstrap env d) (transaction (with_operator operator_id False (\<lambda>_.
       bnd (db_gets (\<lambda>db. credential_of db operator_id)) (\<lambda>cred. case cred of
         None \<Rightarrow> ret False
       | Some credential \<Rightarrow>
           if require_current \<and> (case current_password of None \<Rightarrow> True
                | Some p \<Rightarrow> \<not> verify_password env p (crd_password_hash credential))
           then ret False
           else seq (db_upd (set_credential operator_id (\<lambda>c.
                       c\<lparr>crd_password_hash := hash_password env (dr_salt d) new_password,
                         crd_password_changed_at := Some (dr_now d), crd_updated_at := dr_now d\<rparr>)))
               (seq (db_upd (set_operator operator_id (\<lambda>u. u\<lparr>opr_updated_at := dr_now d\<rparr>)))
               (seq (end_operator_sessions cache (dr_now d) operator_id ''password_changed'')
               (seq commit (ret True))))))))"

definition revoke_operator_sessions ::
  "identity_env \<Rightarrow> 'c SessionCache \<Rightarrow> draw \<Rightarrow> int \<Rightarrow> string \<Rightarrow> ('c identity, bool) eff" where
  "revoke_operator_sessions env cache d operator_id reason =
     seq (bootstrap env d) (transaction (with_operator operator_id False (\<lambda>_.
       seq (end_operator_sessions cache (dr_now d) operator_id reason)
      (seq (db_upd (set_operator operator_id (\<lambda>u. u\<lparr>opr_updated_at := dr_now d\<rparr>)))
      (seq commit (ret True))))))"

definition hydrate_session_record :: "datetime \<Rightarrow> SessionRow \<Rightarrow> ConsoleOperatorSessionRecord" where
  "hydrate_session_record now r =
     \<lparr>sr_id = csn_id r, sr_operator_id = csn_operator_id r,
      sr_status = (if csn_revoked_at r \<noteq> None then ''revoked''
                   else if csn_expires_at r \<le> now then ''expired'' else ''active''),
      sr_last_used_at = csn_last_used_at r, sr_expires_at = csn_expires_at r,
      sr_created_at = csn_created_at r, sr_updated_at = csn_updated_at r,
      sr_revoked_at = csn_revoked_at r, sr_revoke_reason = csn_revoke_reason r,
      sr_ip_address = csn_ip_address r, sr_user_agent = csn_user_agent r\<rparr>"

definition list_operator_sessions ::
  "identity_env \<Rightarrow> draw \<Rightarrow> int \<Rightarrow> ('c identity, ConsoleOperatorSessionRecord list option) eff" where
  "list_operator_sessions env d operator_id =
     seq (bootstrap env d) (with_operator operator_id None (\<lambda>_. db_gets (\<lambda>db.
       Some (map (hydrate_session_record (dr_now d))
         (sort_key (\<lambda>r. - csn_created_at r)
           (filter (\<lambda>r. csn_operator_id r = operator_id) (db_sessions db)))))))"

definition delete_operator ::
  "identity_env \<Rightarrow> 'c SessionCache \<Rightarrow> draw \<Rightarrow> int \<Rightarrow> ('c identity, ConsoleOperator option) eff" where
  "delete_operator env cache d operator_id =
     seq (bootstrap env d) (transaction (with_operator operator_id None (\<lambda>_.
       seq (db_upd (set_operator operator_id (\<lambda>u.
              u\<lparr>opr_status := ''deleted'', opr_is_deleted := True,
                opr_deleted_at := Some (dr_now d), opr_updated_at := dr_now d\<rparr>)))
      (seq (end_operator_sessions cache (dr_now d) operator_id ''operator_deleted'')
      (bnd (hydrated operator_id) (\<lambda>view. seq commit (ret view)))))))"

definition reset_identity :: "'c SessionCache \<Rightarrow> ('c identity, unit) eff" where
  "reset_identity cache =
     seq (transaction (seq (db_upd (\<lambda>db.
            db\<lparr>db_operator_permissions := [], db_role_permissions := [], db_operator_roles := [],
               db_scopes := [], db_sessions := [], db_credentials := [], db_permissions := [],
               db_roles := [], db_operators := []\<rparr>)) commit))
         (cache_do (ca_clear cache))"

section \<open>Sequences of requests\<close>

datatype identity_request =
    Authenticate draw string string "string option" "string option"
  | Get_operator_by_session readings string
  | Revoke_session datetime string string
  | List_operators draw
  | Create_operator draw string string string "string list option" "string list option" "pydict list option"
  | Update_operator draw int "string option" "string list option" "string list option"
      "pydict list option" "string option"
  | Change_password draw int "string option" string bool
  | Revoke_operator_sessions draw int string
  | List_operator_sessions draw int
  | Delete_operator draw int

text \<open>What a request leaves behind; its answer, or the exception, goes to the caller.\<close>

fun serve :: "identity_env \<Rightarrow> 'c SessionCache \<Rightarrow> identity_request \<Rightarrow> 'c identity \<Rightarrow> 'c identity" where
  "serve env cache (Authenticate d email password ip ua) s =
     snd (authenticate env cache d email password ip ua s)"
| "serve env cache (Get_operator_by_session rd token) s =
     snd (get_operator_by_session env cache rd token s)"
| "serve env cache (Revoke_session now token reason) s =
     snd (revoke_session env cache now token reason s)"
| "serve env cache (List_operators d) s = snd (list_operators env d s)"
| "serve env cache (Create_operator d email name password roles permissions scopes) s =
     snd (create_operator env d email name password roles permissions scopes s)"
| "serve env cache (Update_operator d i name roles permissions scopes status) s =
     snd (update_operator env cache d i name roles permissions scopes status s)"
| "serve env cache (Change_password d i current new require) s =
     snd (change_password env cache d i current new require s)"
| "serve env cache (Revoke_operator_sessions d i reason) s =
     snd (revoke_operator_sessions env cache d i reason s)"
| "serve env cache (List_operator_sessions d i) s = snd (list_operator_sessions env d i s)"
| "serve env cache (Delete_operator d i) s = snd (delete_operator env cache d i s)"

definition serve_all ::
  "identity_env \<Rightarrow> 'c SessionCache \<Rightarrow> identity_request list \<Rightarrow> 'c identity \<Rightarrow> 'c identity" where
  "serve_all env cache requests s = fold (serve env cache) requests s"

end
