(* ===== verification/Console_Demo.thy ===== *)
theory Console_Demo
  imports Console_Service
begin

text \<open>
  A small service for examples: hashes that can be read, the state its first request seeds, and the
  same state with one session of the bootstrap operator.
\<close>

definition demo_env :: identity_env where
  "demo_env =
     \<lparr>ie_bootstrap_email = ''admin'', ie_bootstrap_password = ''pw'', ie_bootstrap_name = ''Admin'',
      ie_tenant_slug = ''t'', ie_tenant_name = ''T'', ie_project_slug = ''p'', ie_project_name = ''P'',
      ie_environment = ''local'', ie_session_ttl_seconds = 60,
      ie_sha256 = (\<lambda>t. ''h'' @ t), ie_pbkdf2 = (\<lambda>p salt n. p @ salt)\<rparr>"

definition demo_draw :: "datetime \<Rightarrow> string \<Rightarrow> draw" where
  "demo_draw now token =
     \<lparr>dr_boot_now = now, dr_boot_salt = ''s'', dr_now = now, dr_salt = ''z'', dr_token = token\<rparr>"

definition demo_readings :: "datetime \<Rightarrow> readings" where
  "demo_readings now = \<lparr>rd_cache = now, rd_expiry = now, rd_active = now, rd_used = now\<rparr>"

definition demo_operator :: OperatorRow where
  "demo_operator = \<lparr>opr_id = 1, opr_email = ''admin'', opr_name = ''Admin'', opr_status = ''active'',
     opr_last_login_at = None, opr_created_at = 10, opr_updated_at = 10, opr_is_deleted = False,
     opr_deleted_at = None\<rparr>"

definition demo_credential :: CredentialRow where
  "demo_credential = \<lparr>crd_operator_id = 1, crd_password_hash = hash_password demo_env ''s'' ''pw'',
     crd_password_changed_at = Some 10, crd_failed_login_count = 0, crd_locked_until = None,
     crd_updated_at = 10\<rparr>"

definition demo_session :: SessionRow where
  "demo_session = \<lparr>csn_id = 1, csn_operator_id = 1, csn_token_hash = ''hsess_a'', csn_last_used_at = 10,
     csn_expires_at = 60000010, csn_revoked_at = None, csn_revoke_reason = None, csn_ip_address = None,
     csn_user_agent = None, csn_created_at = 10, csn_updated_at = 10\<rparr>"

definition demo_permission :: "int \<times> string \<Rightarrow> PermissionRow" where
  "demo_permission = (\<lambda>(i, code). \<lparr>prm_id = i, prm_code = code, prm_resource = fst (permission_parts code),
     prm_action = snd (permission_parts code), prm_status = ''active'', prm_is_deleted = False\<rparr>)"

definition demo_db :: identity_db where
  "demo_db =
     \<lparr>db_operators = [demo_operator], db_credentials = [demo_credential], db_sessions = [],
      db_scopes = [\<lparr>scr_operator_id = 1, scr_tenant_id = Some 1, scr_project_id = Some 1,
        scr_environment = ''local'', scr_created_at = 10, scr_is_deleted = False\<rparr>],
      db_roles = map (\<lambda>(i, n). \<lparr>rol_id = i, rol_name = n, rol_status = ''active'', rol_is_deleted = False\<rparr>)
        [(1, ''platform_admin''), (2, ''runtime_operator''), (3, ''identity_admin'')],
      db_permissions = map demo_permission
        [(1, ''*''), (2, ''agent:read''), (3, ''run:read''), (4, ''admin:read''),
         (5, ''identity:operator:write''), (6, ''identity:role:write''),
         (7, ''identity:permission:write''), (8, ''identity:scope:write''),
         (9, ''identity:service-account:write''), (10, ''identity:api-key:write'')],
      db_operator_roles = [\<lparr>orr_operator_id = 1, orr_role_id = 1, orr_is_deleted = False\<rparr>],
      db_role_permissions =
        map (\<lambda>(r, p). \<lparr>rpr_role_id = r, rpr_permission_id = p, rpr_is_deleted = False\<rparr>)
          [(1, 1), (2, 2), (2, 3), (3, 4), (3, 5), (3, 6), (3, 7), (3, 8), (3, 9), (3, 10)],
      db_operator_permissions = [\<lparr>opp_operator_id = 1, opp_permission_id = 1, opp_is_deleted = False\<rparr>],
      db_tenants = [\<lparr>tnr_id = 1, tnr_name = ''T'', tnr_slug = ''t''\<rparr>],
      db_projects = [\<lparr>prr_id = 1, prr_tenant_id = 1, prr_name = ''P'', prr_slug = ''p''\<rparr>],
      db_environments = [\<lparr>enr_tenant_id = 1, enr_project_id = 1, enr_name = ''local'',
        enr_environment = ''local''\<rparr>],
      db_next_operator = 2, db_next_session = 1, db_next_role = 4, db_next_permission = 11,
      db_next_tenant = 2, db_next_project = 2\<rparr>"

definition demo_start :: "memory_cache identity" where
  "demo_start = \<lparr>ident_db = empty_identity_db, ident_cache = []\<rparr>"

definition demo_seeded :: "memory_cache identity" where
  "demo_seeded = \<lparr>ident_db = demo_db, ident_cache = []\<rparr>"

definition demo_signed_in :: "memory_cache identity" where
  "demo_signed_in = \<lparr>ident_db = demo_db\<lparr>db_sessions := [demo_session], db_next_session := 2\<rparr>,
     ident_cache = []\<rparr>"

text \<open>The first request on an empty database leaves the seeded state.\<close>

lemma demo_boots: "snd (bootstrap demo_env (demo_draw 10 ''a'') demo_start) = demo_seeded"
  by code_simp

end
