(* ===== verification/Spec2Isabelle.thy ===== *)
theory Spec2Isabelle
  imports Reaper Redis_Fanout Run_Manager Deployments Worker_Loop Native_Runtime Sql_Leasing Human_Tasks Durable Console_Sessions
begin

text \<open>
  DimooRun queues runs of agents, leases their tasks to workers, executes them and records what happened.
  This development models the server package \<open>src/apps/server/dimoo_run\<close>; file names below are relative to it.

  \<^bold>\<open>How the parts interact.\<close> A client submits a run through the native runtime store, guarded by an
  idempotency store; the run manager checks the deployment gate, creates the run in the run store and
  enqueues a task in the task backend. A worker loop leases a task, the executor opens an attempt, runs the
  agent through an adapter under the policy engine and the human approvals, writes events to the replay
  buffer, from where hub and Redis bridge serve subscribers, and closes attempt, run and task. A reaper
  returns the tasks of dead workers to the queue; registry and deployment service tell which workers and
  instances may take work.

  \<^bold>\<open>Foundations.\<close>
  \<^item> \<open>Prelude\<close>: Python values, \<open>str\<close> and \<open>int\<close> conversions, dictionaries in insertion order (association
    lists), exceptions as values, computations \<open>('s, 'a) eff\<close> that mutate an object and may raise, with
    what they wrote before raising kept; stable sorting.
  \<^item> \<open>Json\<close>: \<open>json.dumps\<close> and \<open>json.loads\<close> on these values, with the proof that reading inverts printing.
  \<^item> \<open>State_Machine\<close>: \<open>runtime/state_machine.py\<close> and the status enums of \<open>domain/enums.py\<close>.

  \<^bold>\<open>Task queue.\<close>
  \<^item> \<open>Task_Backend\<close>: the protocol of \<open>scheduler/backend.py\<close> as a record of operations and the locale
    \<open>runtime_task_backend\<close> of the laws its clients rely on (fencing, leasing, completion, retry).
  \<^item> \<open>In_Memory_Backend\<close>: \<open>scheduler/in_memory.py\<close>, an interpretation of the locale; what a lease returns,
    fencing over every interleaving, the retry budget and the unbounded crash loop.
  \<^item> \<open>Sql_Tables\<close>, \<open>Quota\<close>, \<open>Sql_Backend\<close>: rows of \<open>domain/models.py\<close>, the transaction scope of
    \<open>persistence/database.py\<close>, the event repository, \<open>scheduler/quota.py\<close> and
    \<open>scheduler/sqlalchemy_backend.py\<close>. \<open>Sql_Safety\<close>, \<open>Sql_Reaper\<close> and \<open>Sql_Leasing\<close> prove the contract,
    fencing against arbitrary interference of other sessions, exact reaping, leasing and quotas.
  \<^item> \<open>Reaper\<close>: \<open>scheduler/reaper.py\<close>.

  \<^bold>\<open>Runs and their execution.\<close>
  \<^item> \<open>Run_Store\<close>, \<open>Run_Manager\<close>: \<open>runtime/run_manager.py\<close>; the locale \<open>runtime_run_store\<close>, its in-memory
    interpretation, final states that never change and the roll-back of a failed submission.
  \<^item> \<open>Executor\<close>, \<open>Worker_Safety\<close>: \<open>worker/executor.py\<close> against both contracts (locale \<open>worker\<close>): a held
    lease closes everything consistently, a lost one writes nothing.
  \<^item> \<open>Worker_Loop\<close>, \<open>Worker_Registry\<close>: \<open>worker/loop.py\<close> and the registry of \<open>runtime/capacity.py\<close>.
  \<^item> \<open>Runtime_Context\<close>: \<open>core/context.py\<close> and the trace fields and redaction of \<open>observability/otel.py\<close>.
  \<^item> \<open>Idempotency\<close>, \<open>Native_Runtime\<close>: \<open>runtime/idempotency.py\<close>, \<open>runtime/sqlalchemy_idempotency.py\<close> and the
    in-memory store of \<open>api/native/runtime.py\<close>.

  \<^bold>\<open>Events.\<close> \<open>Events\<close> (\<open>core/events.py\<close>, \<open>streaming/sse.py\<close>), \<open>Replay_Buffer\<close>
  (\<open>streaming/replay_buffer.py\<close>), \<open>Fanout\<close> and \<open>Redis_Fanout\<close> (\<open>streaming/fanout.py\<close>): framing, exact
  resumption, bounded buffers and lossless replay.

  \<^bold>\<open>Governance.\<close> \<open>Deployments\<close> (\<open>deployments/\<close>), \<open>Policy\<close> (\<open>policy/\<close>), \<open>Human_Tasks\<close>
  (\<open>hitl/service.py\<close>, both services against the locale \<open>approval_service\<close>).

  This theory composes them: from a submission to its completion, and the deployment gate.

  \<^bold>\<open>Conventions, bounds and fuel.\<close> Integers are unbounded, as in Python. A datetime is the number of
  microseconds since the epoch; every reading of the clock is an argument. Third-party code (SQL engine,
  Redis client, adapters, SHA-256, the policy engine seen from a deployment) is an argument of the
  definitions that use it, with its documented behaviour as hypotheses. The JSON reader takes the length of
  the text as fuel, which every nested call shortens; the worker's endless loop
  is a partial function whose value is \<open>None\<close> when it does not return, and the theorems say when it does. Interleavings are lists of operations, and the
  safety theorems quantify over all of them.

  \<^bold>\<open>Not modelled.\<close> The HTTP routers under \<open>api/\<close> other than the native runtime store, which translate requests to
  calls of the services and of the database; the command line under \<open>cli/\<close>; the database migrations; the
  gateway's route tester, catalog, package, artifact, notification and observability exporters, which are
  bound to files, processes or the network; the adapters, which call third-party agent frameworks;
  the console under \<open>apps/console\<close>. Log messages, metrics text and floats other than elapsed milliseconds
  are left out of the modelled functions.
\<close>

section \<open>From submission to completion\<close>

text \<open>An adapter whose agent returns a result without touching the queue or the store.\<close>

definition quiet :: "('w, 'a) agent_adapter \<Rightarrow> 'a \<Rightarrow> (pydict \<Rightarrow> pydict) \<Rightarrow> bool" where
  "quiet ad agent f \<longleftrightarrow> (\<forall>u m c w. ad_load ad u m c w = (Inr agent, w)) \<and>
     (\<forall>d c w. ad_invoke ad agent d c w = (Inr (new_result (f d)), w))"

definition serves ::
  "('w, 'a) worker_executor \<Rightarrow> int \<Rightarrow> AgentRuntimeSpec \<Rightarrow> ('w, 'a) agent_adapter \<Rightarrow> bool" where
  "serves x version spec ad \<longleftrightarrow> wx_resolver x = None \<and> wx_governance x = None \<and>
     dget (wx_agent_specs x) version = Some spec \<and> dget (wx_adapters x) (sp_adapter spec) = Some ad"

lemma quiet_run_agent:
  assumes "so_get_run sops (sn_run_id sn) (xs_world s) = (Inr r, xs_world s)"
    "serves x (r_agent_version_id r) spec ad" "quiet ad agent f"
    "timeout_value (dmerge (sp_runtime_config spec) (or_else (p_override_config (sn_payload sn)) [])) = VNone"
    "p_input_data (sn_payload sn) = Some d" "p_execution_mode (sn_payload sn) \<noteq> Some ''stream''"
  shows "\<exists>c. run_agent ops sops x lim sn aid s = (Inr (new_result (f d)), s\<lparr>xs_active_context := Some c\<rparr>)"
proof -
  have g: "world_do (so_get_run sops (sn_run_id sn)) s = (Inr r, s)"
    using assms(1) by (simp add: world_do_def)
  show ?thesis
    using g assms(2-)
    by (simp add: run_agent_def bnd_def seq_def Let_def serves_def quiet_def agent_spec_for_run_def
        agent_spec_def find_adapter_def governance_bundle_def ret_def upd_def world_do_def
        execute_agent_def append_all_events_def new_result_def) blast
qed

lemma next_id_new: "wf_backend b \<Longrightarrow> next_id b \<notin> set (dkeys (tasks b))"
  using wf_lookup [of b "next_id b"] by (cases "dget (tasks b) (next_id b)") (auto simp: map_of_eq_None_iff)

lemma enqueue_new:
  assumes "wf_backend b" "p_task_id p = None" "p_run_id p = Some rid"
  shows "\<exists>t. enqueue now p b = (Inr (next_id b), b\<lparr>next_id := next_id b + 1, tasks := tasks b @ [(next_id b, t)]\<rparr>) \<and>
     t_task_id t = next_id b \<and> t_payload t = p \<and> t_run_id t = rid \<and> t_queue t = or_else (p_queue p) ''default'' \<and>
     t_status t = Task_queued \<and> t_scheduled_at t = p_scheduled_at p"
  using assms next_id_new [OF assms(1)]
  by (simp add: enqueue_def Let_def dset_new) (rule exI, rule conjI, rule refl, simp)

text \<open>The only due task of the queue is the one that is leased.\<close>

lemma lease_only:
  assumes "wf_backend b1" "tasks b1 = ts @ [(k, t)]" "t_task_id t = k" "is_candidate now q t"
    "filter (is_candidate now q) (map (reaped rn) (dvals ts)) = []"
  shows "\<exists>b2. lease now rn q w n b1 = (Inr (Some (snapshot (leased_task now w n t))), b2)"
proof -
  have "reaped rn t = t" using assms(4) by (simp add: reaped_def expired_def is_candidate_def)
  then have "dvals (tasks (after_reap rn b1)) = map (reaped rn) (dvals ts) @ [t]"
    using assms(2) by (simp add: after_reap_def)
  then have "lease_choice now q (after_reap rn b1) = Some t"
    using assms(4,5) by (simp add: lease_choice_def first_by_def)
  then show ?thesis by (simp add: lease_eq [OF assms(1)] Let_def)
qed

lemma view_status:
  "in_memory_view b k = Some v \<Longrightarrow> map_option t_status (dget (tasks b) k) = Some (v_status v)"
  by (auto simp: in_memory_view_def task_view_of_def)

lemma accepted_lease:
  assumes "wf_store st0" "wf_backend b0"
    "filter (is_candidate now (rq_queue rq)) (map (reaped rn) (dvals (tasks b0))) = []"
    "rq_run_id rq = None" "rq_task_id rq = None"
    "create_run_task gate (in_memory_store_ops t0) (enqueue t0) rq (st0, b0) = (Inr (run, tid), (st, b))"
  shows "wf_store st" "run_in st (r_run_id run) = Some run" "r_status run = Run_pending"
    "r_agent_version_id run = rq_agent_version_id rq" "wf_backend b"
    "\<exists>sn b2. lease now rn (rq_queue rq) w n b = (Inr (Some sn), b2) \<and> sn_task_id sn = tid \<and>
       sn_run_id sn = r_run_id run \<and> sn_payload sn = task_of_request rq (r_run_id run)"
proof -
  let ?p = "task_of_request rq (r_run_id run)"
  have g: "gate_check gate rq = Inr ()" using assms(6) by (auto simp: create_run_task_def split: sum.splits)
  obtain t where e: "enqueue t0 ?p b0 = (Inr (next_id b0),
      b0\<lparr>next_id := next_id b0 + 1, tasks := tasks b0 @ [(next_id b0, t)]\<rparr>)"
    and t: "t_task_id t = next_id b0" "t_payload t = ?p" "t_run_id t = r_run_id run"
      "t_queue t = rq_queue rq" "t_status t = Task_queued" "t_scheduled_at t = None"
    using enqueue_new [OF assms(2), of ?p "r_run_id run" t0] assms(5)
    by (auto simp: task_of_request_def empty_payload_def)
  have c: "create_run t0 (rq_tenant_id rq) (rq_project_id rq) (rq_agent_id rq)
      (rq_agent_version_id rq) (rq_deployment_id rq) (rq_input_data rq) (rq_override_config rq)
      (rq_thread_id rq) None st0 = (Inr run, st)"
    and r: "tid = next_id b0" "b = b0\<lparr>next_id := next_id b0 + 1, tasks := tasks b0 @ [(next_id b0, t)]\<rparr>"
    using assms(4,6) g e by (auto simp: create_run_task_def split: sum.splits prod.splits)
  show "wf_store st" using create_run_wf [OF assms(1) _ c] by simp
  show "run_in st (r_run_id run) = Some run" "r_status run = Run_pending"
    "r_agent_version_id run = rq_agent_version_id rq"
    using c create_run_eq [of None st0 "rq_tenant_id rq" "rq_project_id rq" "rq_agent_id rq"
        "rq_agent_version_id rq" "rq_deployment_id rq" "rq_input_data rq" t0 "rq_override_config rq" "rq_thread_id rq"]
    by auto
  show b: "wf_backend b" using enqueue_wf [OF assms(2) e] r by simp
  show "\<exists>sn b2. lease now rn (rq_queue rq) w n b = (Inr (Some sn), b2) \<and> sn_task_id sn = tid \<and>
       sn_run_id sn = r_run_id run \<and> sn_payload sn = task_of_request rq (r_run_id run)"
    using lease_only [OF b, of "tasks b0" tid t now "rq_queue rq" rn w n] t r assms(3)
    by (auto simp: is_candidate_def snapshot_def leased_task_def)
qed

text \<open>
  C7: A submitted run completes. Take any store and any backend in which no other task of the queue
  is due, and a worker that knows the agent version and its adapter. When the submission is accepted
  and the agent returns without disturbing the queue, the worker's next execution leases exactly this
  task and ends with the run succeeded, holding the agent's output for the submitted input, and the
  task succeeded.
\<close>

theorem submitted_run_completes:
  assumes "wf_store (mw_store w)" "wf_backend (mw_backend w)"
    "filter (is_candidate now (rq_queue rq)) (map (reaped rn) (dvals (tasks (mw_backend w)))) = []"
    "rq_run_id rq = None" "rq_task_id rq = None"
    "create_run_task gate (in_memory_store_ops t0) (enqueue t0) rq (mw_store w, mw_backend w) =
       (Inr (run, tid), (st, b))"
    "serves x (rq_agent_version_id rq) spec ad" "quiet ad agent f" "wx_replay_append x = memory_append"
    "timeout_value (dmerge (sp_runtime_config spec) (or_else (rq_override_config rq) [])) = VNone"
  shows "\<exists>res s'. execute_once (memory_ops now rn) (memory_store_ops now) x lim (rq_queue rq) n
       (s\<lparr>xs_world := w\<lparr>mw_store := st, mw_backend := b\<rparr>\<rparr>) = (Inr (Some res), s') \<and>
     wr_status res = ''succeeded'' \<and> wr_run_id res = r_run_id run \<and> wr_task_id res = tid \<and>
     map_option (\<lambda>r. (r_status r, r_output r)) (run_in (mw_store (xs_world s')) (r_run_id run)) =
       Some (Run_succeeded, Some (f (rq_input_data rq))) \<and>
     map_option t_status (dget (tasks (mw_backend (xs_world s'))) tid) = Some Task_succeeded"
proof -
  let ?ops = "memory_ops now rn" and ?sops = "memory_store_ops now"
  let ?s = "s\<lparr>xs_world := w\<lparr>mw_store := st, mw_backend := b\<rparr>\<rparr>" and ?result = "new_result (f (rq_input_data rq))"
  note a = accepted_lease [OF assms(1-6)]
  obtain sn b2 where l: "lease now rn (rq_queue rq) (wx_worker_id x) n b = (Inr (Some sn), b2)"
    and sn: "sn_task_id sn = tid" "sn_run_id sn = r_run_id run" "sn_payload sn = task_of_request rq (r_run_id run)"
    using a(6) by blast
  let ?w2 = "w\<lparr>mw_store := st, mw_backend := b2\<rparr>"
  have l': "op_lease ?ops (rq_queue rq) (wx_worker_id x) n (xs_world ?s) = (Inr (Some sn), ?w2)"
    using l by (simp add: memory_ops_def in_memory_ops_def focus_def)
  obtain att s1 v where s1: "begin_attempt ?ops ?sops x sn (?s\<lparr>xs_world := ?w2\<rparr>) = (Inr att, s1)"
    "memory_worker.holds (sn_task_id sn) (wx_worker_id x) (sn_fencing_token sn) v s1"
    "memory_worker.open_attempt (sn_run_id sn) (a_attempt_id att) (xs_world s1)"
    "run_in (mw_store (xs_world s1)) (sn_run_id sn) = Some (run\<lparr>r_status := Run_running\<rparr>)"
    using memory_worker.begin_ok [OF _ l', where r = run] a sn(2) assms(9) by (auto simp: startable_def)
  have g: "so_get_run ?sops (sn_run_id sn) (xs_world s1) = (Inr (run\<lparr>r_status := Run_running\<rparr>), xs_world s1)"
    using memory_worker.get_run_law [where s = "xs_world s1" and k = "sn_run_id sn"] s1(3,4)
    by (simp add: memory_worker.open_attempt_def)
  obtain c where ra: "run_agent ?ops ?sops x lim sn (a_attempt_id att) s1 =
      (Inr ?result, s1\<lparr>xs_active_context := Some c\<rparr>)"
    using quiet_run_agent [OF g _ assms(8), where x = x and spec = spec and d = "rq_input_data rq" and ops = ?ops
        and lim = lim and aid = "a_attempt_id att"] a(4) assms(7,10)
    by (auto simp: sn(3) task_of_request_def empty_payload_def)
  have e: "executes ?ops ?sops x lim (rq_queue rq) n ?s sn (a_attempt_id att) (Inr ?result) (s1\<lparr>xs_active_context := Some c\<rparr>)"
    using l' s1(1) ra unfolding executes_def by blast
  have "v_token v = sn_fencing_token sn" "v_worker_id v = Some (wx_worker_id x)" "v_status v = Task_running"
    "wf_backend (mw_backend (xs_world s1))" "in_memory_view (mw_backend (xs_world s1)) (sn_task_id sn) = Some v"
    using s1(2) by (simp_all add: memory_worker.holds_def)
  with memory_worker.execution_closes [OF e assms(9), of v] s1(3)
  obtain s' where s': "execute_once ?ops ?sops x lim (rq_queue rq) n ?s =
      (Inr (Some (execution_result sn (a_attempt_id att) ''succeeded'')), s')"
    "memory_worker.ended (sn_task_id sn) (sn_run_id sn) (a_attempt_id att) v (Inr ?result) (xs_world s')"
    by (auto simp: memory_worker.status_of_def)
  then have "map_option t_status (dget (tasks (mw_backend (xs_world s'))) tid) = Some Task_succeeded"
    using view_status [of "mw_backend (xs_world s')" tid "v\<lparr>v_status := Task_succeeded\<rparr>"] sn(1)
    by (simp add: memory_worker.ended_def)
  then show ?thesis
    using s' sn by (auto simp: memory_worker.ended_def memory_worker.closed_as_def execution_result_def new_result_def)
qed

theorem submitted_run_completes_witness:
  "\<exists>s0 res s'. execute_once (memory_ops 9 9) (memory_store_ops 9) (demo_worker id) None ''default'' 30 s0 =
     (Inr (Some res), s') \<and> wr_status res = ''succeeded''"
proof -
  let ?w = "\<lparr>mw_backend = init_backend, mw_store = init_run_store, mw_buffer = init_buffer 10 1000\<rparr>"
  let ?c = "create_run_task None (in_memory_store_ops 0) (enqueue 0) demo_request (init_run_store, init_backend)"
  have "case fst ?c of Inl _ \<Rightarrow> False | Inr _ \<Rightarrow> True" by code_simp
  then obtain run tid st b where "?c = (Inr (run, tid), (st, b))"
    by (metis (no_types, lifting) prod.collapse old.sum.exhaust old.sum.simps(5))
  then have c: "create_run_task None (in_memory_store_ops 0) (enqueue 0) demo_request (mw_store ?w, mw_backend ?w) =
      (Inr (run, tid), (st, b))" by simp
  have sv: "serves (demo_worker id) (rq_agent_version_id demo_request)
      \<lparr>sp_adapter = ''py'', sp_package_uri = [], sp_manifest = [], sp_runtime_config = [], sp_secrets = None,
       sp_metadata = None\<rparr> (demo_adapter id)" (is "serves _ _ ?spec _")
    by (simp add: serves_def demo_worker_def demo_request_def)
  have q: "quiet (demo_adapter id) () id" by (simp add: quiet_def demo_adapter_def ret_def)
  have t: "timeout_value (dmerge (sp_runtime_config ?spec) (or_else (rq_override_config demo_request) [])) = VNone"
    by (simp add: timeout_value_def demo_request_def)
  have "wf_store (mw_store ?w)" "wf_backend (mw_backend ?w)" by (simp_all add: wf_init wf_init_store)
  moreover have "filter (is_candidate 9 (rq_queue demo_request)) (map (reaped 9) (dvals (tasks (mw_backend ?w)))) = []"
    "rq_run_id demo_request = None" "rq_task_id demo_request = None" "rq_queue demo_request = ''default''"
    "wx_replay_append (demo_worker id) = memory_append"
    by (simp_all add: init_backend_def demo_request_def demo_worker_def)
  ultimately show ?thesis using submitted_run_completes [OF _ _ _ _ _ c sv q _ t,
    where now = 9 and rn = 9 and lim = None and n = 30 and s = demo_state] by auto
qed

section \<open>Submissions and deployments\<close>

definition deployment_takes :: "deployment_service \<Rightarrow> int \<Rightarrow> run_request \<Rightarrow> bool" where
  "deployment_takes svc k rq = (case dget (ds_deployments (sv_deployments svc)) k of
       None \<Rightarrow> False
     | Some d \<Rightarrow> de_desired_status d = Desired_active \<and> de_tenant_id d = rq_tenant_id rq \<and>
         de_project_id d = rq_project_id rq \<and> de_agent_id d = rq_agent_id rq \<and>
         de_agent_version_id d = rq_agent_version_id rq)"

lemma accepts_iff_takes:
  "assert_accepts_new_run svc k (Some (rq_tenant_id rq)) (Some (rq_project_id rq))
     (Some (rq_agent_id rq)) (Some (rq_agent_version_id rq)) = Inr () \<longleftrightarrow> deployment_takes svc k rq"
proof (cases "dget (ds_deployments (sv_deployments svc)) k")
  case None
  then show ?thesis by (simp add: deployment_takes_def assert_accepts_new_run_def get_deployment_def)
next
  case (Some d)
  then show ?thesis
    using binding_accepts [of d "Some (rq_tenant_id rq)" "Some (rq_project_id rq)" "Some (rq_agent_id rq)"
      "Some (rq_agent_version_id rq)"]
    by (cases "assert_deployment_binding d (Some (rq_tenant_id rq)) (Some (rq_project_id rq)) (Some (rq_agent_id rq))
        (Some (rq_agent_version_id rq))")
      (auto simp: deployment_takes_def assert_accepts_new_run_def get_deployment_def)
qed

text \<open>
  C33: With the deployment service as the gate, a submission to a deployment goes through exactly when
  that deployment exists, is active and is bound to the tenant, project, agent and version of the
  request; otherwise it raises and neither a run nor a task is created.
\<close>

theorem gated_submission:
  assumes "rq_deployment_id rq = Some k"
  shows "create_run_task (Some (assert_accepts_new_run svc)) sops enq rq (s, b) =
    (if deployment_takes svc k rq then create_run_task None sops enq rq (s, b)
     else (Inl (case assert_accepts_new_run svc k (Some (rq_tenant_id rq)) (Some (rq_project_id rq))
              (Some (rq_agent_id rq)) (Some (rq_agent_version_id rq)) of Inl e \<Rightarrow> e | Inr _ \<Rightarrow> KeyError), (s, b)))"
proof (cases "assert_accepts_new_run svc k (Some (rq_tenant_id rq)) (Some (rq_project_id rq))
      (Some (rq_agent_id rq)) (Some (rq_agent_version_id rq))")
  case (Inl e)
  then have "\<not> deployment_takes svc k rq" using accepts_iff_takes [of svc k rq] by simp
  then show ?thesis using Inl assms by (simp add: create_run_task_def gate_check_def)
next
  case (Inr u)
  then have "deployment_takes svc k rq" using accepts_iff_takes [of svc k rq] by simp
  then show ?thesis using Inr assms by (simp add: create_run_task_def gate_check_def)
qed

theorem gated_submission_witness:
  "\<exists>e. create_run_task (Some (assert_accepts_new_run demo_service)) (in_memory_store_ops 0) (enqueue 0)
     (demo_request\<lparr>rq_deployment_id := Some 7\<rparr>) (init_run_store, init_backend) = (Inl e, (init_run_store, init_backend))"
proof -
  have "rq_deployment_id (demo_request\<lparr>rq_deployment_id := Some 7\<rparr>) = Some 7" by simp
  from gated_submission [OF this, of demo_service "in_memory_store_ops 0" "enqueue 0" init_run_store init_backend]
  have "\<not> deployment_takes demo_service 7 (demo_request\<lparr>rq_deployment_id := Some 7\<rparr>) \<Longrightarrow> ?thesis" by simp
  then show ?thesis by (simp add: deployment_takes_def demo_service_def demo_deployment_def demo_request_def)
qed

end
